(* ===== verification/Prelude.thy ===== *)
theory Prelude
  imports Main "HOL-Library.Sublist"
begin

text \<open>
  Shared vocabulary of the development: Go's \<open>error\<close> values and the three ways a Go
  function can leave (value, error, panic), finite Go maps and the order in which a
  \<open>range\<close> loop visits them, and the generic list and map lemmas that the
  component theories use.
\<close>

named_theorems go_defs \<open>definitions that a concrete evaluation unfolds\<close>
named_theorems frame_intros \<open>introduction rules for what an operation leaves untouched\<close>

section \<open>Errors\<close>

text \<open>
  An \<open>error\<close> is one of the two sentinels of \<^verbatim>\<open>pkg/ovs/errors.go\<close>, an error handed out by
  code outside the repository, a Kubernetes API status (by its reason), a value made by
  \<^verbatim>\<open>fmt.Errorf\<close> (format string, printed arguments, errors wrapped by \<open>%w\<close>), or a value
  made by \<^verbatim>\<open>errors.Join\<close>. An error printed with \<open>%v\<close> is an argument and is not wrapped.
\<close>

datatype StatusReason =
    NotFound | Conflict | Forbidden | Invalid | Unauthorized | OtherReason string

datatype error =
    ErrPortNotFound
  | ErrBridgeNotFound
  | ErrClientNotFound
  | External string
  | ApiStatus StatusReason
  | Errorf string "arg list" "error list"
  | Joined "error list"
and arg = AStr string | AInt int | AErr error

text \<open>\<^verbatim>\<open>errors.Is\<close>: the error itself, or any error it wraps or joins.\<close>

primrec errors_Is :: "error \<Rightarrow> error \<Rightarrow> bool"
  and errors_Is_arg :: "arg \<Rightarrow> error \<Rightarrow> bool" where
  "errors_Is ErrPortNotFound t = (t = ErrPortNotFound)"
| "errors_Is ErrBridgeNotFound t = (t = ErrBridgeNotFound)"
| "errors_Is ErrClientNotFound t = (t = ErrClientNotFound)"
| "errors_Is (External s) t = (t = External s)"
| "errors_Is (ApiStatus r) t = (t = ApiStatus r)"
| "errors_Is (Errorf f as es) t = (t = Errorf f as es \<or> list_ex (\<lambda>b. b) (map (\<lambda>e. errors_Is e t) es))"
| "errors_Is (Joined es) t = (t = Joined es \<or> list_ex (\<lambda>b. b) (map (\<lambda>e. errors_Is e t) es))"
| "errors_Is_arg (AStr s) t = False"
| "errors_Is_arg (AInt i) t = False"
| "errors_Is_arg (AErr e) t = False"

text \<open>\<^verbatim>\<open>errors.Join\<close> of a slice of non-nil errors: \<open>nil\<close> when the slice is empty.\<close>

definition errors_Join :: "error list \<Rightarrow> error option" where
  "errors_Join es = (if es = [] then None else Some (Joined es))"

section \<open>Outcomes\<close>

text \<open>How a Go call with results \<open>(v, err)\<close> ends: with a value, an error or a panic.\<close>

datatype 'a res = Ok 'a | Err error | Panic string

text \<open>The outcome of a function whose only result is an \<open>error\<close>.\<close>

definition to_res :: "error option \<Rightarrow> unit res" where
  "to_res e = (case e of None \<Rightarrow> Ok () | Some err \<Rightarrow> Err err)"

section \<open>Go maps\<close>

text \<open>
  A Go map is a partial function; a \<open>range\<close> loop visits every key once, in an order the
  language leaves open. Definitions that range over a map take the order as an argument,
  and their lemmas hold for each order that satisfies this predicate.
\<close>

definition range_order :: "('k \<rightharpoonup> 'v) \<Rightarrow> 'k list \<Rightarrow> bool" where
  "range_order m ks \<longleftrightarrow> distinct ks \<and> set ks = dom m"

section \<open>Generic lemmas\<close>

lemma errors_Is_refl [simp]: "errors_Is e e"
  by (cases e) auto

lemma errors_Is_Errorf:
  "errors_Is (Errorf f as es) t \<longleftrightarrow> t = Errorf f as es \<or> (\<exists>e \<in> set es. errors_Is e t)"
  by (auto simp: list_ex_iff)

lemma errors_Is_Joined:
  "errors_Is (Joined es) t \<longleftrightarrow> t = Joined es \<or> (\<exists>e \<in> set es. errors_Is e t)"
  by (auto simp: list_ex_iff)

lemma errors_Join_None_iff [simp]: "errors_Join es = None \<longleftrightarrow> es = []"
  by (simp add: errors_Join_def)

lemma to_res_Ok [simp]: "to_res e = Ok u \<longleftrightarrow> e = None"
  by (simp add: to_res_def split: option.split)

lemma to_res_Err [simp]: "to_res e = Err err \<longleftrightarrow> e = Some err"
  by (simp add: to_res_def split: option.split)

lemma to_res_no_Panic [simp]: "to_res e \<noteq> Panic m"
  by (simp add: to_res_def split: option.split)

lemma range_order_finite: "range_order m ks \<Longrightarrow> finite (dom m)"
  unfolding range_order_def by (metis List.finite_set)

lemma range_order_exists: "finite (dom m) \<Longrightarrow> \<exists>ks. range_order m ks"
  unfolding range_order_def using finite_distinct_list by metis

lemma range_order_lookup: "range_order m ks \<Longrightarrow> k \<in> set ks \<Longrightarrow> \<exists>v. m k = Some v"
  by (auto simp: range_order_def)

text \<open>Two strings glued by a separator that occurs in neither first half determine their halves.\<close>

lemma append_sep_inject:
  assumes "xs @ c # ys = xs' @ c # ys'" and "c \<notin> set xs" and "c \<notin> set xs'"
  shows "xs = xs' \<and> ys = ys'"
  using assms
proof (induction xs arbitrary: xs')
  case Nil
  then show ?case by (cases xs') auto
next
  case (Cons x xs)
  then show ?case by (cases xs') auto
qed

end
