(* ===== verification/GoLib.thy ===== *)
theory GoLib
  imports Prelude
begin

text \<open>
  The parts of Go's standard library that the driver's own logic depends on, on strings
  as byte lists: \<^verbatim>\<open>strings.Split\<close>, \<^verbatim>\<open>strings.Join\<close>, \<^verbatim>\<open>strings.ReplaceAll\<close> (of one character by
  nothing), \<^verbatim>\<open>strings.LastIndex\<close>, \<^verbatim>\<open>strings.TrimSpace\<close>, \<^verbatim>\<open>strconv.Atoi\<close>, \<^verbatim>\<open>%d\<close> printing, and the
  lexical path functions \<^verbatim>\<open>filepath.Clean\<close>, \<^verbatim>\<open>filepath.Join\<close> and \<^verbatim>\<open>filepath.Base\<close>.
\<close>

section \<open>Strings\<close>

fun strings_Split :: "char \<Rightarrow> string \<Rightarrow> string list" where
  "strings_Split c [] = [[]]"
| "strings_Split c (x # xs) =
     (if x = c then [] # strings_Split c xs
      else (case strings_Split c xs of [] \<Rightarrow> [[x]] | y # ys \<Rightarrow> (x # y) # ys))"

fun strings_Join :: "string \<Rightarrow> string list \<Rightarrow> string" where
  "strings_Join sep [] = []"
| "strings_Join sep [x] = x"
| "strings_Join sep (x # y # ys) = x @ sep @ strings_Join sep (y # ys)"

text \<open>\<^verbatim>\<open>strings.ReplaceAll(s, "c", "")\<close> for a single character.\<close>

definition strings_RemoveAll :: "char \<Rightarrow> string \<Rightarrow> string" where
  "strings_RemoveAll c s = filter (\<lambda>x. x \<noteq> c) s"

text \<open>The part after the last \<open>c\<close>, the whole string when there is none (\<^verbatim>\<open>strings.LastIndex\<close> and a slice).\<close>

definition after_last :: "char \<Rightarrow> string \<Rightarrow> string" where
  "after_last c s = rev (takeWhile (\<lambda>x. x \<noteq> c) (rev s))"

text \<open>ASCII white space of \<^verbatim>\<open>strings.TrimSpace\<close>: tab, newline, vertical tab, form feed, return, space.\<close>

definition is_space :: "char \<Rightarrow> bool" where
  "is_space c \<longleftrightarrow> (of_char c :: nat) \<in> {9, 10, 11, 12, 13, 32}"

definition strings_TrimSpace :: "string \<Rightarrow> string" where
  "strings_TrimSpace s = rev (dropWhile is_space (rev (dropWhile is_space s)))"

section \<open>Numbers\<close>

definition digit_val :: "char \<Rightarrow> nat option" where
  "digit_val c = (let n = (of_char c :: nat) in if 48 \<le> n \<and> n \<le> 57 then Some (n - 48) else None)"

fun digits_val :: "nat \<Rightarrow> string \<Rightarrow> nat option" where
  "digits_val acc [] = Some acc"
| "digits_val acc (c # cs) =
     (case digit_val c of None \<Rightarrow> None | Some d \<Rightarrow> digits_val (10 * acc + d) cs)"

definition parse_digits :: "string \<Rightarrow> nat option" where
  "parse_digits s = (if s = [] then None else digits_val 0 s)"

text \<open>Parsing of a signed decimal without a range check.\<close>

definition parse_int :: "string \<Rightarrow> int option" where
  "parse_int s =
     (case s of
        [] \<Rightarrow> None
      | c # cs \<Rightarrow>
          if c = CHR ''-'' then map_option (\<lambda>n. - int n) (parse_digits cs)
          else if c = CHR ''+'' then map_option int (parse_digits cs)
          else map_option int (parse_digits s))"

text \<open>\<^verbatim>\<open>strconv.Atoi\<close>: a decimal that fits a 64-bit \<open>int\<close>.\<close>

definition strconv_Atoi :: "string \<Rightarrow> int option" where
  "strconv_Atoi s =
     (case parse_int s of
        None \<Rightarrow> None
      | Some n \<Rightarrow> if - (2 ^ 63) \<le> n \<and> n < 2 ^ 63 then Some n else None)"

text \<open>Decimal printing (\<^verbatim>\<open>%d\<close>).\<close>

definition digit_char :: "nat \<Rightarrow> char" where
  "digit_char d = char_of (48 + d)"

fun fmt_nat :: "nat \<Rightarrow> string" where
  "fmt_nat n = (if n < 10 then [digit_char n] else fmt_nat (n div 10) @ [digit_char (n mod 10)])"

declare fmt_nat.simps [simp del]

definition fmt_int :: "int \<Rightarrow> string" where
  "fmt_int i = (if i < 0 then CHR ''-'' # fmt_nat (nat (- i)) else fmt_nat (nat i))"

section \<open>Paths\<close>

text \<open>
  \<^verbatim>\<open>filepath.Clean\<close> on a slash-separated path, component by component: empty and dot
  components vanish, a double dot removes the component before it, and at the root of a
  rooted path it vanishes. The accumulator holds the kept components in reverse.
\<close>

fun clean_comps :: "bool \<Rightarrow> string list \<Rightarrow> string list \<Rightarrow> string list" where
  "clean_comps rooted acc [] = rev acc"
| "clean_comps rooted acc (c # cs) =
     (if c = [] \<or> c = ''.'' then clean_comps rooted acc cs
      else if c = ''..'' then
        (case acc of
           [] \<Rightarrow> clean_comps rooted (if rooted then [] else [''..'']) cs
         | a # as \<Rightarrow> if a = ''..'' then clean_comps rooted (''..'' # acc) cs
                     else clean_comps rooted as cs)
      else clean_comps rooted (c # acc) cs)"

definition is_rooted :: "string \<Rightarrow> bool" where
  "is_rooted p \<longleftrightarrow> (case p of [] \<Rightarrow> False | c # _ \<Rightarrow> c = CHR ''/'')"

definition filepath_Clean :: "string \<Rightarrow> string" where
  "filepath_Clean p =
     (let cs = clean_comps (is_rooted p) [] (strings_Split (CHR ''/'') p)
      in if is_rooted p then CHR ''/'' # strings_Join ''/'' cs
         else if cs = [] then ''.'' else strings_Join ''/'' cs)"

definition filepath_Join :: "string list \<Rightarrow> string" where
  "filepath_Join es =
     (case dropWhile (\<lambda>e. e = []) es of
        [] \<Rightarrow> []
      | es' \<Rightarrow> filepath_Clean (strings_Join ''/'' es'))"

text \<open>\<^verbatim>\<open>filepath.Base\<close>: the last component, after trailing slashes are dropped.\<close>

definition filepath_Base :: "string \<Rightarrow> string" where
  "filepath_Base p =
     (if p = [] then ''.''
      else (let q = rev (dropWhile (\<lambda>c. c = CHR ''/'') (rev p))
            in if q = [] then ''/'' else after_last (CHR ''/'') q))"

text \<open>\<^verbatim>\<open>filepath.Dir\<close>: everything up to the last slash, cleaned.\<close>

definition filepath_Dir :: "string \<Rightarrow> string" where
  "filepath_Dir p = filepath_Clean (rev (dropWhile (\<lambda>c. c \<noteq> CHR ''/'') (rev p)))"

text \<open>A name that is one ordinary path component.\<close>

definition plain_comp :: "string \<Rightarrow> bool" where
  "plain_comp c \<longleftrightarrow> c \<noteq> [] \<and> c \<noteq> ''.'' \<and> c \<noteq> ''..'' \<and> CHR ''/'' \<notin> set c"

text \<open>A rooted path made of ordinary components.\<close>

definition abs_path :: "string list \<Rightarrow> string" where
  "abs_path cs = CHR ''/'' # strings_Join ''/'' cs"

lemmas golib_defs [go_defs] =
  strings_RemoveAll_def after_last_def is_space_def strings_TrimSpace_def digit_val_def
  parse_digits_def parse_int_def strconv_Atoi_def fmt_int_def is_rooted_def
  filepath_Clean_def filepath_Join_def filepath_Base_def filepath_Dir_def

section \<open>Lemmas on strings\<close>

lemma strings_Split_nonempty [simp]: "strings_Split c s \<noteq> []"
  by (induction s) (auto split: list.splits)

lemma strings_Split_no_sep: "p \<in> set (strings_Split c s) \<Longrightarrow> c \<notin> set p"
proof (induction s arbitrary: p)
  case Nil
  then show ?case by simp
next
  case (Cons x xs)
  show ?case
  proof (cases "strings_Split c xs")
    case Nil
    then show ?thesis by simp
  next
    case (Cons y ys)
    with Cons.prems Cons.IH show ?thesis by (auto split: if_splits)
  qed
qed

lemma strings_Split_plain: "c \<notin> set s \<Longrightarrow> strings_Split c s = [s]"
  by (induction s) auto

lemma strings_Split_append: "c \<notin> set s \<Longrightarrow> strings_Split c (s @ c # t) = s # strings_Split c t"
  by (induction s) auto

lemma strings_Join_Split: "strings_Join [c] (strings_Split c s) = s"
proof (induction s)
  case Nil
  then show ?case by simp
next
  case (Cons x xs)
  then show ?case
    by (cases "strings_Split c xs"; cases "tl (strings_Split c xs)") (auto split: list.splits)
qed

lemma strings_Join_Cons: "ys \<noteq> [] \<Longrightarrow> strings_Join sep (x # ys) = x @ sep @ strings_Join sep ys"
  by (cases ys) auto

lemma strings_Split_Join:
  "xs \<noteq> [] \<Longrightarrow> \<forall>x \<in> set xs. c \<notin> set x \<Longrightarrow> strings_Split c (strings_Join [c] xs) = xs"
proof (induction xs)
  case Nil
  then show ?case by simp
next
  case (Cons x xs)
  then show ?case
    by (cases xs) (auto simp: strings_Split_plain strings_Split_append)
qed

lemma length_strings_Split: "length (strings_Split c s) = Suc (count_list s c)"
  by (induction s) (auto split: list.splits)

lemma hd_strings_Split: "hd (strings_Split c s) = takeWhile (\<lambda>x. x \<noteq> c) s"
  by (induction s) (auto split: list.splits)

lemma after_last_no_sep: "c \<notin> set (after_last c s)"
  by (auto simp: after_last_def dest: set_takeWhileD)

lemma after_last_plain: "c \<notin> set s \<Longrightarrow> after_last c s = s"
  unfolding after_last_def by (subst takeWhile_eq_all_conv [THEN iffD2]) auto

lemma after_last_append: "c \<notin> set t \<Longrightarrow> after_last c (s @ c # t) = t"
  unfolding after_last_def by (simp, subst takeWhile_append2) auto

section \<open>Lemmas on numbers\<close>

lemma digit_val_digit_char: "d < 10 \<Longrightarrow> digit_val (digit_char d) = Some d"
  by (simp add: digit_val_def digit_char_def Let_def)

lemma digits_val_append:
  "digits_val acc (xs @ ys) = (case digits_val acc xs of None \<Rightarrow> None | Some a \<Rightarrow> digits_val a ys)"
  by (induction xs arbitrary: acc) (auto split: option.splits)

lemma digits_val_fmt_nat: "digits_val 0 (fmt_nat n) = Some n"
proof (induction n rule: fmt_nat.induct)
  case (1 n)
  show ?case
  proof (cases "n < 10")
    case True
    then show ?thesis by (subst fmt_nat.simps) (simp add: digit_val_digit_char)
  next
    case False
    with "1.IH" show ?thesis
      by (subst fmt_nat.simps) (simp add: digits_val_append digit_val_digit_char)
  qed
qed

lemma fmt_nat_nonempty [simp]: "fmt_nat n \<noteq> []"
  by (subst fmt_nat.simps) simp

lemma parse_digits_fmt_nat [simp]: "parse_digits (fmt_nat n) = Some n"
  by (simp add: parse_digits_def digits_val_fmt_nat)

lemma fmt_nat_inject [simp]: "fmt_nat m = fmt_nat n \<longleftrightarrow> m = n"
  by (metis option.inject parse_digits_fmt_nat)

lemma hd_fmt_nat_digit: "digit_val (hd (fmt_nat n)) \<noteq> None"
proof (induction n rule: fmt_nat.induct)
  case (1 n)
  then show ?case
    by (subst fmt_nat.simps) (auto simp: digit_val_digit_char)
qed

lemma parse_int_fmt_int [simp]: "parse_int (fmt_int i) = Some i"
proof (cases "i < 0")
  case True
  then show ?thesis by (simp add: parse_int_def fmt_int_def)
next
  case False
  obtain c cs where f: "fmt_nat (nat i) = c # cs"
    by (cases "fmt_nat (nat i)") auto
  with hd_fmt_nat_digit [of "nat i"] have "c \<noteq> CHR ''-'' \<and> c \<noteq> CHR ''+''"
    by (auto simp: digit_val_def)
  with False f parse_digits_fmt_nat [of "nat i"] show ?thesis
    by (simp add: parse_int_def fmt_int_def)
qed

lemma strconv_Atoi_fmt_int: "- (2 ^ 63) \<le> i \<Longrightarrow> i < 2 ^ 63 \<Longrightarrow> strconv_Atoi (fmt_int i) = Some i"
  by (simp add: strconv_Atoi_def)

section \<open>Lemmas on paths\<close>

lemma clean_comps_plain:
  "\<forall>c \<in> set cs. plain_comp c \<Longrightarrow> clean_comps r acc cs = rev acc @ cs"
  by (induction cs arbitrary: acc) (auto simp: plain_comp_def)

lemma strings_Split_abs_path:
  assumes "\<forall>c \<in> set cs. plain_comp c" and "cs \<noteq> []"
  shows "strings_Split (CHR ''/'') (abs_path cs) = [] # cs"
  using assms by (simp add: abs_path_def strings_Split_Join plain_comp_def)

lemma filepath_Clean_abs_path:
  assumes "\<forall>c \<in> set cs. plain_comp c" and "cs \<noteq> []"
  shows "filepath_Clean (abs_path cs) = abs_path cs"
  using assms
  by (simp add: filepath_Clean_def strings_Split_abs_path clean_comps_plain)
     (simp add: abs_path_def is_rooted_def)

text \<open>Joining ordinary components below a clean absolute directory appends them.\<close>

lemma abs_path_snoc: "cs \<noteq> [] \<Longrightarrow> abs_path (cs @ [x]) = abs_path cs @ CHR ''/'' # x"
  unfolding abs_path_def
proof (induction cs)
  case Nil
  then show ?case by simp
next
  case (Cons c cs)
  then show ?case by (cases cs) auto
qed

lemma filepath_Join_abs_path:
  assumes "\<forall>c \<in> set cs. plain_comp c" and "cs \<noteq> []" and "plain_comp x"
  shows "filepath_Join [abs_path cs, x] = abs_path cs @ CHR ''/'' # x"
proof -
  have "strings_Join ''/'' [abs_path cs, x] = abs_path (cs @ [x])"
    using assms(2) by (simp add: abs_path_snoc)
  moreover have "abs_path cs \<noteq> []" by (simp add: abs_path_def)
  ultimately have "filepath_Join [abs_path cs, x] = filepath_Clean (abs_path (cs @ [x]))"
    by (simp add: filepath_Join_def)
  also have "\<dots> = abs_path (cs @ [x])"
    using assms by (intro filepath_Clean_abs_path) auto
  finally show ?thesis using assms(2) by (simp add: abs_path_snoc)
qed

lemma filepath_Base_abs_path:
  assumes "plain_comp x"
  shows "filepath_Base (d @ CHR ''/'' # x) = x"
proof -
  from assms have x: "x \<noteq> []" "CHR ''/'' \<notin> set x" by (auto simp: plain_comp_def)
  then have "last x \<noteq> CHR ''/''" by (metis last_in_set)
  with x(1) have "dropWhile (\<lambda>c. c = CHR ''/'') (rev x @ CHR ''/'' # rev d) = rev x @ CHR ''/'' # rev d"
    by (cases x rule: rev_cases) auto
  with x show ?thesis
    by (simp add: filepath_Base_def after_last_append)
qed

end
