(* ===== verification/Json.thy ===== *)
theory Json
  imports GoLib "HOL-Library.Word"
begin

text \<open>
  JSON values and the rules of Go's \<^verbatim>\<open>encoding/json\<close> that the driver relies on when it
  decodes into \<open>int\<close>, \<open>int32\<close>, \<open>uint32\<close>, \<open>string\<close> and pointers to them. A number keeps its
  literal, because Go accepts an integer target only for an integer literal in range
  (\<open>1.0\<close> and \<open>1e3\<close> are errors). A byte slice that is not JSON at all has no value here;
  definitions that decode raw bytes take a \<open>json option\<close>.
\<close>

datatype json =
    JNull
  | JBool bool
  | JNum string
  | JStr string
  | JArr "json list"
  | JObj "(string \<times> json) list"

section \<open>Decoding of scalars\<close>

text \<open>An integer target of the given range; \<open>null\<close> leaves the old value.\<close>

definition json_into_int :: "int \<Rightarrow> int \<Rightarrow> int \<Rightarrow> json \<Rightarrow> int option" where
  "json_into_int lo hi old j =
     (case j of
        JNull \<Rightarrow> Some old
      | JNum lit \<Rightarrow> (case parse_int lit of
                      Some n \<Rightarrow> if lo \<le> n \<and> n \<le> hi then Some n else None
                    | None \<Rightarrow> None)
      | _ \<Rightarrow> None)"

definition json_into_string :: "string \<Rightarrow> json \<Rightarrow> string option" where
  "json_into_string old j =
     (case j of JNull \<Rightarrow> Some old | JStr s \<Rightarrow> Some s | _ \<Rightarrow> None)"

text \<open>
  Pointer targets: \<open>null\<close> stores \<open>nil\<close>, any other value is decoded into a fresh or the
  already allocated variable.
\<close>

definition json_into_int_ptr :: "json \<Rightarrow> int option option" where
  "json_into_int_ptr j =
     (case j of
        JNull \<Rightarrow> Some None
      | _ \<Rightarrow> map_option Some (json_into_int (- (2 ^ 63)) (2 ^ 63 - 1) 0 j))"

definition json_into_uint32_ptr :: "json \<Rightarrow> 32 word option option" where
  "json_into_uint32_ptr j =
     (case j of
        JNull \<Rightarrow> Some None
      | _ \<Rightarrow> map_option (\<lambda>n. Some (word_of_int n)) (json_into_int 0 (2 ^ 32 - 1) 0 j))"

section \<open>Decoding of structs\<close>

text \<open>
  A member is matched to a struct field by its exact name, else by ASCII case folding;
  a member that matches no field is skipped.
\<close>

definition to_lower :: "char \<Rightarrow> char" where
  "to_lower c = (let n = (of_char c :: nat) in if 65 \<le> n \<and> n \<le> 90 then char_of (n + 32) else c)"

definition json_field :: "string list \<Rightarrow> string \<Rightarrow> string option" where
  "json_field fields key =
     (if key \<in> set fields then Some key
      else List.find (\<lambda>f. map to_lower f = map to_lower key) fields)"

text \<open>Members are stored in the order they appear; the first bad one makes the decoding fail.\<close>

fun json_members :: "('s \<Rightarrow> string \<times> json \<Rightarrow> 's option) \<Rightarrow> 's \<Rightarrow> (string \<times> json) list \<Rightarrow> 's option" where
  "json_members f s [] = Some s"
| "json_members f s (m # ms) =
     (case f s m of None \<Rightarrow> None | Some s' \<Rightarrow> json_members f s' ms)"

section \<open>Lemmas\<close>

lemmas json_defs [go_defs] =
  json_into_int_def json_into_string_def json_into_int_ptr_def json_into_uint32_ptr_def
  to_lower_def json_field_def

lemma json_into_int_range:
  "json_into_int lo hi old j = Some n \<Longrightarrow> lo \<le> old \<Longrightarrow> old \<le> hi \<Longrightarrow> lo \<le> n \<and> n \<le> hi"
  by (auto simp: json_into_int_def split: json.splits option.splits if_splits)

lemma json_into_int_fmt:
  "lo \<le> n \<Longrightarrow> n \<le> hi \<Longrightarrow> json_into_int lo hi old (JNum (fmt_int n)) = Some n"
  by (simp add: json_into_int_def)

lemma json_into_int_ptr_range:
  "json_into_int_ptr j = Some (Some n) \<Longrightarrow> - (2 ^ 63) \<le> n \<and> n < 2 ^ 63"
  by (auto simp: json_into_int_ptr_def json_into_int_def split: json.splits option.splits if_splits)

text \<open>A property of the struct kept by every member holds of the decoded struct.\<close>

lemma json_members_invariant:
  assumes "json_members f s ms = Some s'" and "P s"
    and "\<And>s m s'. P s \<Longrightarrow> f s m = Some s' \<Longrightarrow> P s'"
  shows "P s'"
  using assms(1,2)
proof (induction ms arbitrary: s)
  case Nil
  then show ?case by simp
next
  case (Cons m ms)
  then show ?case by (auto split: option.splits intro: assms(3))
qed

end
