(* ===== verification/ApiTypes.thy ===== *)
theory ApiTypes
  imports Json
begin

text \<open>
  The data of the driver: its constants (\<^verbatim>\<open>pkg/consts\<close>), its custom resources and their
  JSON codecs (\<^verbatim>\<open>pkg/api\<close>), the runtime types shared by its packages (\<^verbatim>\<open>pkg/types\<close>), and
  the fields of the Kubernetes objects that the code reads or writes.
\<close>

section \<open>Constants\<close>

definition DriverName :: string where
  "DriverName = ''ovsdpdk.k8snetworkplumbingwg.io''"

definition GroupName :: string where
  "GroupName = ''ovsdpdk.k8snetworkplumbingwg.io''"

definition DefaultBridgeCapacity :: int where
  "DefaultBridgeCapacity = 32 * 1024"

definition DefaultTopologyDeviceCount :: nat where
  "DefaultTopologyDeviceCount = 1024"

definition TopologyResourcePrefix :: string where
  "TopologyResourcePrefix = DriverName @ ''/''"

definition VhostSocketFilename :: string where
  "VhostSocketFilename = ''vhost.sock''"

definition HostRootPath :: string where
  "HostRootPath = ''/var/run/ovsdpdk''"

definition DefaultContainerRootPath :: string where
  "DefaultContainerRootPath = ''/var/run/ovsdpdk''"

text \<open>\<^verbatim>\<open>Backoff.Steps\<close>: how often a status update is attempted at most.\<close>

definition BackoffSteps :: nat where
  "BackoffSteps = 5"

text \<open>The retry configuration as a whole, with durations in nanoseconds, factor and jitter in tenths; the delays are up to the library.\<close>

record wait_Backoff =
  bo_Duration :: nat
  bo_Factor :: nat
  bo_Jitter :: nat
  bo_Steps :: nat
  bo_Cap :: nat

definition Backoff :: wait_Backoff where
  "Backoff = \<lparr>bo_Duration = 100 * 1000000, bo_Factor = 20, bo_Jitter = 1, bo_Steps = BackoffSteps, bo_Cap = 2 * 1000000000\<rparr>"

definition DefaultMTU :: int where
  "DefaultMTU = 1500"

definition KindOvsPortConfig :: string where
  "KindOvsPortConfig = ''OvsPortConfig''"

definition OvsPortAPIVersion :: string where
  "OvsPortAPIVersion = GroupName @ ''/v1alpha1''"

section \<open>User and group identities\<close>

text \<open>\<^verbatim>\<open>UserGroupID\<close> is \<^verbatim>\<open>intstr.IntOrString\<close>: a type tag, a 32-bit number and a string.\<close>

datatype IosType = IosInt | IosString

record UserGroupID =
  ios_Type :: IosType
  ios_IntVal :: "32 word"
  ios_StrVal :: string

definition NewUserGroupIDFromName :: "string \<Rightarrow> UserGroupID" where
  "NewUserGroupIDFromName name = \<lparr>ios_Type = IosString, ios_IntVal = 0, ios_StrVal = name\<rparr>"

text \<open>The conversion \<^verbatim>\<open>int32(id)\<close> keeps the low 32 bits.\<close>

definition NewUserGroupIDFromID :: "int \<Rightarrow> UserGroupID" where
  "NewUserGroupIDFromID i = \<lparr>ios_Type = IosInt, ios_IntVal = word_of_int i, ios_StrVal = []\<rparr>"

definition IsName :: "UserGroupID \<Rightarrow> bool" where
  "IsName u \<longleftrightarrow> ios_Type u = IosString"

definition GetName :: "UserGroupID \<Rightarrow> string res" where
  "GetName u = (if ios_Type u \<noteq> IosString then Panic ''UserGroupID is not a name'' else Ok (ios_StrVal u))"

definition GetID :: "UserGroupID \<Rightarrow> int res" where
  "GetID u = (if ios_Type u \<noteq> IosInt then Panic ''UserGroupID is not an ID'' else Ok (sint (ios_IntVal u)))"

text \<open>The zero value of the struct, which a missing JSON member leaves in place.\<close>

definition zero_UserGroupID :: UserGroupID where
  "zero_UserGroupID = \<lparr>ios_Type = IosInt, ios_IntVal = 0, ios_StrVal = []\<rparr>"

definition UserGroupID_UnmarshalJSON :: "json \<Rightarrow> error + UserGroupID" where
  "UserGroupID_UnmarshalJSON data =
     (case json_into_int (- (2 ^ 31)) (2 ^ 31 - 1) 0 data of
        Some n \<Rightarrow> Inr (NewUserGroupIDFromID n)
      | None \<Rightarrow>
         (case json_into_string [] data of
            Some name \<Rightarrow> Inr (NewUserGroupIDFromName name)
          | None \<Rightarrow> Inl (Errorf ''userGroupID must be a string name or an integer ID, got: %s'' [] [])))"

definition UserGroupID_MarshalJSON :: "UserGroupID \<Rightarrow> json" where
  "UserGroupID_MarshalJSON u =
     (if ios_Type u = IosString then JStr (ios_StrVal u) else JNum (fmt_int (sint (ios_IntVal u))))"

section \<open>Custom resources\<close>

record VhostUserSpec =
  ContainerRootPath :: string
  vu_User :: UserGroupID
  vu_Group :: UserGroupID
  SelinuxLabel :: "string option"
  ACLUsers :: "string list"

text \<open>\<^verbatim>\<open>OvsDpdkConfigSpec\<close>: its only field, a pointer.\<close>

record OvsDpdkConfigSpec =
  VhostUser :: "VhostUserSpec option"

record BridgeSpec =
  bs_Name :: string
  TopologyResource :: string
  bs_Mtu :: int

text \<open>The zero value that Go returns for a key that a map does not have.\<close>

definition zero_BridgeSpec :: BridgeSpec where
  "zero_BridgeSpec = \<lparr>bs_Name = [], TopologyResource = [], bs_Mtu = 0\<rparr>"

record 'sel OvsDpdkResourcePolicy =
  pol_Name :: string
  pol_NodeSelector :: "'sel option"
  pol_Bridges :: "BridgeSpec list"

section \<open>Per-allocation port configuration\<close>

record OvsPolicing =
  MaxRate :: "32 word option"
  Burst :: "32 word option"

record OvsPortConfig =
  pc_Kind :: string
  pc_APIVersion :: string
  pc_Vlan :: "int option"
  pc_Policing :: "OvsPolicing option"

definition DefaultOvsPortConfig :: OvsPortConfig where
  "DefaultOvsPortConfig = \<lparr>pc_Kind = [], pc_APIVersion = [], pc_Vlan = None, pc_Policing = None\<rparr>"

definition zero_OvsPolicing :: OvsPolicing where
  "zero_OvsPolicing = \<lparr>MaxRate = None, Burst = None\<rparr>"

definition OvsPolicing_member :: "OvsPolicing \<Rightarrow> string \<times> json \<Rightarrow> OvsPolicing option" where
  "OvsPolicing_member p m =
     (case json_field [''max_rate'', ''burst''] (fst m) of
        None \<Rightarrow> Some p
      | Some f \<Rightarrow>
          if f = ''max_rate'' then map_option (\<lambda>v. p\<lparr>MaxRate := v\<rparr>) (json_into_uint32_ptr (snd m))
          else map_option (\<lambda>v. p\<lparr>Burst := v\<rparr>) (json_into_uint32_ptr (snd m)))"

definition OvsPolicing_ptr :: "OvsPolicing option \<Rightarrow> json \<Rightarrow> OvsPolicing option option" where
  "OvsPolicing_ptr old j =
     (case j of
        JNull \<Rightarrow> Some None
      | JObj ms \<Rightarrow>
          map_option Some
            (json_members OvsPolicing_member (case old of None \<Rightarrow> zero_OvsPolicing | Some p \<Rightarrow> p) ms)
      | _ \<Rightarrow> None)"

definition OvsPortConfig_member :: "OvsPortConfig \<Rightarrow> string \<times> json \<Rightarrow> OvsPortConfig option" where
  "OvsPortConfig_member c m =
     (case json_field [''kind'', ''apiVersion'', ''vlan'', ''policing''] (fst m) of
        None \<Rightarrow> Some c
      | Some f \<Rightarrow>
          if f = ''kind'' then map_option (\<lambda>v. c\<lparr>pc_Kind := v\<rparr>) (json_into_string (pc_Kind c) (snd m))
          else if f = ''apiVersion'' then
            map_option (\<lambda>v. c\<lparr>pc_APIVersion := v\<rparr>) (json_into_string (pc_APIVersion c) (snd m))
          else if f = ''vlan'' then map_option (\<lambda>v. c\<lparr>pc_Vlan := v\<rparr>) (json_into_int_ptr (snd m))
          else map_option (\<lambda>v. c\<lparr>pc_Policing := v\<rparr>) (OvsPolicing_ptr (pc_Policing c) (snd m)))"

text \<open>\<^verbatim>\<open>json.Unmarshal\<close> into an \<^verbatim>\<open>OvsPortConfig\<close>; bytes that are not JSON are \<open>None\<close>.\<close>

definition OvsPortConfig_Unmarshal :: "json option \<Rightarrow> OvsPortConfig option" where
  "OvsPortConfig_Unmarshal raw =
     (case raw of
        None \<Rightarrow> None
      | Some JNull \<Rightarrow> Some DefaultOvsPortConfig
      | Some (JObj ms) \<Rightarrow> json_members OvsPortConfig_member DefaultOvsPortConfig ms
      | Some _ \<Rightarrow> None)"

section \<open>Kubernetes objects, as far as the code uses them\<close>

record DeviceRequestAllocationResult =
  dr_Request :: string
  dr_Driver :: string
  dr_Pool :: string
  dr_Device :: string
  dr_ShareID :: "string option"

record OpaqueDeviceConfiguration =
  oc_Driver :: string
  oc_Raw :: "json option"

datatype ConfigSource = FromClass | FromClaim | FromOther string

record DeviceAllocationConfiguration =
  dc_Source :: ConfigSource
  dc_Requests :: "string list"
  dc_Opaque :: "OpaqueDeviceConfiguration option"

record AllocationResult =
  al_Config :: "DeviceAllocationConfiguration list"
  al_Results :: "DeviceRequestAllocationResult list"

record ConsumerReference =
  cr_Name :: string
  cr_UID :: string

record AllocatedDeviceStatus =
  ads_Driver :: string
  ads_Pool :: string
  ads_Device :: string
  ads_ShareID :: "string option"
  ads_Data :: "json option"

text \<open>
  \<^verbatim>\<open>rc_PodClaimName\<close> is the value under the pod-claim-name annotation, empty when the
  annotation is missing, as the Go map lookup gives it.
\<close>

record ResourceClaim =
  rc_Name :: string
  rc_Namespace :: string
  rc_UID :: string
  rc_PodClaimName :: string
  rc_ResourceVersion :: nat
  rc_Allocation :: "AllocationResult option"
  rc_ReservedFor :: "ConsumerReference list"
  rc_Devices :: "AllocatedDeviceStatus list"

datatype DeviceAttribute = StringValue string | IntValue int

record KubeletDevice =
  kd_Requests :: "string list"
  kd_PoolName :: string
  kd_DeviceName :: string
  kd_CDIDeviceIDs :: "string list"
  kd_Attributes :: "string \<rightharpoonup> DeviceAttribute"

record NamespacedObject =
  no_Name :: string
  no_Namespace :: string
  no_UID :: string

section \<open>Runtime types\<close>

record MountInfo =
  HostDir :: string
  ContainerDir :: string

record SocketInfo =
  HostPath :: string
  ContainerPath :: string

record PreparedDevice =
  pd_Device :: KubeletDevice
  ClaimNamespacedName :: NamespacedObject
  BridgeName :: string
  OVSPortName :: string
  pd_Mount :: MountInfo
  pd_Socket :: SocketInfo
  PortConfig :: "OvsPortConfig option"

lemmas api_defs [go_defs] =
  DriverName_def GroupName_def TopologyResourcePrefix_def VhostSocketFilename_def HostRootPath_def
  DefaultContainerRootPath_def KindOvsPortConfig_def OvsPortAPIVersion_def BackoffSteps_def
  NewUserGroupIDFromName_def NewUserGroupIDFromID_def IsName_def GetName_def GetID_def
  zero_UserGroupID_def UserGroupID_UnmarshalJSON_def UserGroupID_MarshalJSON_def
  zero_BridgeSpec_def DefaultOvsPortConfig_def zero_OvsPolicing_def OvsPolicing_member_def
  OvsPolicing_ptr_def OvsPortConfig_member_def OvsPortConfig_Unmarshal_def

section \<open>Properties of the codecs\<close>

text \<open>The identities that a constructor or a decoder can build carry nothing in the unused field.\<close>

definition wf_UserGroupID :: "UserGroupID \<Rightarrow> bool" where
  "wf_UserGroupID u \<longleftrightarrow>
     (case ios_Type u of IosInt \<Rightarrow> ios_StrVal u = [] | IosString \<Rightarrow> ios_IntVal u = 0)"

lemma wf_Unmarshal: "UserGroupID_UnmarshalJSON j = Inr u \<Longrightarrow> wf_UserGroupID u"
  by (auto simp: UserGroupID_UnmarshalJSON_def wf_UserGroupID_def NewUserGroupIDFromID_def
      NewUserGroupIDFromName_def split: option.splits)

lemma sint_word32_range: "- (2 ^ 31) \<le> sint (w :: 32 word) \<and> sint w \<le> 2 ^ 31 - 1"
  using sint_range_size [of w] by (simp add: word_size)

text \<open>
  Marshalling a user or group identity and unmarshalling the result gives back the
  identity: a name stays a name (also a name made of digits) and a number stays the same
  32-bit number.
\<close>

theorem UserGroupID_json_roundtrip:
  assumes "wf_UserGroupID u"
  shows "UserGroupID_UnmarshalJSON (UserGroupID_MarshalJSON u) = Inr u"
proof (cases "ios_Type u")
  case IosInt
  have "json_into_int (- (2 ^ 31)) (2 ^ 31 - 1) 0 (JNum (fmt_int (sint (ios_IntVal u))))
      = Some (sint (ios_IntVal u))"
    using sint_word32_range [of "ios_IntVal u"] by (intro json_into_int_fmt) simp_all
  with IosInt assms show ?thesis
    by (cases u)
      (simp add: UserGroupID_MarshalJSON_def UserGroupID_UnmarshalJSON_def NewUserGroupIDFromID_def
        wf_UserGroupID_def)
next
  case IosString
  with assms show ?thesis
    by (cases u)
      (simp add: UserGroupID_MarshalJSON_def UserGroupID_UnmarshalJSON_def json_into_int_def
        json_into_string_def NewUserGroupIDFromName_def wf_UserGroupID_def)
qed

theorem UserGroupID_json_roundtrip_witness:
  "wf_UserGroupID (NewUserGroupIDFromName ''107'')
   \<and> UserGroupID_UnmarshalJSON (UserGroupID_MarshalJSON (NewUserGroupIDFromName ''107''))
     = Inr (NewUserGroupIDFromName ''107'')"
proof -
  have "wf_UserGroupID (NewUserGroupIDFromName ''107'')"
    by (simp add: wf_UserGroupID_def NewUserGroupIDFromName_def)
  with UserGroupID_json_roundtrip [OF this] show ?thesis by simp
qed

lemma sint_word32_of_int: "- (2 ^ 31) \<le> n \<Longrightarrow> n \<le> 2 ^ 31 - 1 \<Longrightarrow> sint (word_of_int n :: 32 word) = n"
  by (simp add: sint_uint unsigned_of_int signed_take_bit_take_bit signed_take_bit_int_eq_self)

text \<open>
  C39. Decoding is typed by the JSON value: a JSON string becomes a name, which \<open>GetName\<close> gives
  back as it is, and an integer within 32 bits a numeric identity, which \<open>GetID\<close> gives back;
  \<^verbatim>\<open>null\<close> is the number 0, and no other value is accepted. The result is well-formed, and the
  accessor that \<open>IsName\<close> selects does not panic.
\<close>

theorem UserGroupID_typed:
  assumes "UserGroupID_UnmarshalJSON j = Inr u"
  shows "wf_UserGroupID u \<and>
    (case j of
       JStr s \<Rightarrow> IsName u \<and> GetName u = Ok s
     | JNum lit \<Rightarrow> \<not> IsName u \<and> (\<exists>n. parse_int lit = Some n \<and> - (2 ^ 31) \<le> n \<and> n < 2 ^ 31 \<and> GetID u = Ok n)
     | JNull \<Rightarrow> \<not> IsName u \<and> GetID u = Ok 0
     | _ \<Rightarrow> False)"
proof -
  have "wf_UserGroupID u" by (rule wf_Unmarshal [OF assms])
  moreover have "IsName u \<and> GetName u = Ok s" if "j = JStr s" for s
    using assms that by (auto simp: UserGroupID_UnmarshalJSON_def json_into_int_def json_into_string_def
        NewUserGroupIDFromName_def IsName_def GetName_def)
  moreover have "\<not> IsName u \<and> (\<exists>n. parse_int lit = Some n \<and> - (2 ^ 31) \<le> n \<and> n < 2 ^ 31 \<and> GetID u = Ok n)" if "j = JNum lit" for lit
    using assms that sint_word32_of_int
    by (auto simp: UserGroupID_UnmarshalJSON_def json_into_int_def json_into_string_def NewUserGroupIDFromID_def IsName_def GetID_def
        split: option.splits if_splits)
  moreover have "\<not> IsName u \<and> GetID u = Ok 0" if "j = JNull"
    using assms that by (auto simp: UserGroupID_UnmarshalJSON_def json_into_int_def NewUserGroupIDFromID_def IsName_def GetID_def)
  moreover have "(\<exists>s. j = JStr s) \<or> (\<exists>lit. j = JNum lit) \<or> j = JNull"
    using assms by (cases j) (auto simp: UserGroupID_UnmarshalJSON_def json_into_int_def json_into_string_def)
  ultimately show ?thesis by (auto split: json.split)
qed

theorem UserGroupID_typed_witness:
  "\<exists>u. UserGroupID_UnmarshalJSON (JNum ''107'') = Inr u \<and> wf_UserGroupID u \<and> GetID u = Ok 107"
proof -
  have u: "UserGroupID_UnmarshalJSON (JNum ''107'') = Inr (NewUserGroupIDFromID 107)" by code_simp
  moreover have "parse_int ''107'' = Some 107" by code_simp
  ultimately show ?thesis using UserGroupID_typed [OF u] by auto
qed

end
