(* ===== verification/Host.thy ===== *)
theory Host
  imports ApiTypes
begin

text \<open>
  The host operating system as the driver sees it through Go's \<^verbatim>\<open>os\<close>, \<^verbatim>\<open>os/exec\<close>, \<^verbatim>\<open>os/user\<close>
  and the raw system calls: a tree of inodes addressed by path, and calls that may fail
  at any time. Which call fails, and what a failed recursive call leaves half done, is
  decided by an environment argument indexed by a clock that every call advances, so a
  statement for all environments covers every sequence of failures.
\<close>

unbundle bit_operations_syntax

section \<open>State\<close>

record inode =
  is_dir :: bool
  i_mode :: "12 word"
  i_uid :: int
  i_gid :: int
  i_label :: "string option"
  i_acl :: "string list"
  i_default_acl :: "string list"

record host =
  files :: "string \<rightharpoonup> inode"
  clock :: nat

datatype syscall =
    SMkdirAll string
  | SChmod string "12 word"
  | SRemoveAll string
  | SChown string int int
  | SSetxattr string string string
  | SExec "string list"
  | SUnlink string
  | SListen string

record os_env =
  fault :: "nat \<Rightarrow> syscall \<Rightarrow> string option"
  partial_effect :: "nat \<Rightarrow> string \<Rightarrow> bool"
  umask :: "12 word"
  user_Lookup :: "nat \<Rightarrow> string \<Rightarrow> string option"
  user_LookupGroup :: "nat \<Rightarrow> string \<Rightarrow> string option"
  exec_LookPath :: "nat \<Rightarrow> string \<Rightarrow> string option"

text \<open>An environment in which nothing goes wrong, for concrete runs.\<close>

definition calm_env :: os_env where
  "calm_env = \<lparr>fault = (\<lambda>_ _. None), partial_effect = (\<lambda>_ _. False), umask = 18,
     user_Lookup = (\<lambda>_ _. None), user_LookupGroup = (\<lambda>_ _. None),
     exec_LookPath = (\<lambda>_ n. Some (''/usr/bin/'' @ n))\<rparr>"

definition tick :: "host \<Rightarrow> host" where
  "tick h = h\<lparr>clock := Suc (clock h)\<rparr>"

section \<open>Paths\<close>

definition path_parents :: "string \<Rightarrow> string list" where
  "path_parents p = map (\<lambda>i. take i p) (filter (\<lambda>i. 0 < i \<and> p ! i = CHR ''/'') [0..<length p])"

definition below :: "string \<Rightarrow> string \<Rightarrow> bool" where
  "below p q \<longleftrightarrow> prefix (p @ ''/'') q"

definition unrelated :: "string \<Rightarrow> string \<Rightarrow> bool" where
  "unrelated p q \<longleftrightarrow> p \<noteq> q \<and> \<not> below p q \<and> \<not> below q p"

section \<open>Calls\<close>

definition new_dir :: "os_env \<Rightarrow> 12 word \<Rightarrow> inode" where
  "new_dir env perm = \<lparr>is_dir = True, i_mode = perm AND NOT (umask env), i_uid = 0, i_gid = 0,
     i_label = None, i_acl = [], i_default_acl = []\<rparr>"

definition make_dirs :: "inode \<Rightarrow> string list \<Rightarrow> (string \<rightharpoonup> inode) \<Rightarrow> (string \<rightharpoonup> inode)" where
  "make_dirs d qs fs = (\<lambda>q. if fs q = None \<and> q \<in> set qs then Some d else fs q)"

text \<open>
  \<^verbatim>\<open>os.MkdirAll\<close>: nothing to do when the directory exists; an error when the path or a
  parent is not a directory; a failure part of the way may leave parents behind, but
  never the path itself.
\<close>

definition os_MkdirAll :: "os_env \<Rightarrow> string \<Rightarrow> 12 word \<Rightarrow> host \<Rightarrow> error option \<times> host" where
  "os_MkdirAll env p perm h =
     (let targets = path_parents p @ [p];
          blocked = list_ex (\<lambda>q. case files h q of None \<Rightarrow> False | Some i \<Rightarrow> \<not> is_dir i) targets
      in if (case files h p of None \<Rightarrow> False | Some i \<Rightarrow> is_dir i) then (None, tick h)
         else if blocked then (Some (External ''ENOTDIR''), tick h)
         else case fault env (clock h) (SMkdirAll p) of
                Some e \<Rightarrow> (Some (External e),
                  (tick h)\<lparr>files := make_dirs (new_dir env perm)
                     (filter (\<lambda>q. partial_effect env (clock h) q \<and> q \<noteq> p) targets) (files h)\<rparr>)
              | None \<Rightarrow> (None, (tick h)\<lparr>files := make_dirs (new_dir env perm) targets (files h)\<rparr>))"

definition update_inode ::
  "os_env \<Rightarrow> syscall \<Rightarrow> string \<Rightarrow> (inode \<Rightarrow> inode) \<Rightarrow> host \<Rightarrow> error option \<times> host" where
  "update_inode env call p f h =
     (case files h p of
        None \<Rightarrow> (Some (External ''ENOENT''), tick h)
      | Some i \<Rightarrow>
          (case fault env (clock h) call of
             Some e \<Rightarrow> (Some (External e), tick h)
           | None \<Rightarrow> (None, (tick h)\<lparr>files := (files h)(p \<mapsto> f i)\<rparr>)))"

definition os_Chmod :: "os_env \<Rightarrow> string \<Rightarrow> 12 word \<Rightarrow> host \<Rightarrow> error option \<times> host" where
  "os_Chmod env p perm = update_inode env (SChmod p perm) p (\<lambda>i. i\<lparr>i_mode := perm\<rparr>)"

text \<open>\<^verbatim>\<open>unix.Chown\<close>: the value -1 leaves the identity as it is.\<close>

definition unix_Chown :: "os_env \<Rightarrow> string \<Rightarrow> int \<Rightarrow> int \<Rightarrow> host \<Rightarrow> error option \<times> host" where
  "unix_Chown env p u g = update_inode env (SChown p u g) p
     (\<lambda>i. i\<lparr>i_uid := (if u = - 1 then i_uid i else u), i_gid := (if g = - 1 then i_gid i else g)\<rparr>)"

definition unix_Setxattr :: "os_env \<Rightarrow> string \<Rightarrow> string \<Rightarrow> string \<Rightarrow> host \<Rightarrow> error option \<times> host" where
  "unix_Setxattr env p attr val =
     update_inode env (SSetxattr p attr val) p (\<lambda>i. i\<lparr>i_label := Some val\<rparr>)"

text \<open>\<^verbatim>\<open>setfacl -m SPEC DIR\<close> and \<^verbatim>\<open>setfacl -d -m SPEC DIR\<close>: access entries, default entries.\<close>

definition run_setfacl :: "os_env \<Rightarrow> string \<Rightarrow> bool \<Rightarrow> string \<Rightarrow> string \<Rightarrow> host \<Rightarrow> error option \<times> host" where
  "run_setfacl env bin dflt spec p =
     update_inode env (SExec ([bin] @ (if dflt then [''-d''] else []) @ [''-m'', spec, p])) p
       (\<lambda>i. if dflt then i\<lparr>i_default_acl := spec # i_default_acl i\<rparr>
            else i\<lparr>i_acl := spec # i_acl i\<rparr>)"

text \<open>
  \<^verbatim>\<open>os.RemoveAll\<close>: no error for a missing path; the empty path is ignored and a final dot is
  refused; when it fails it has removed what it could.
\<close>

definition os_RemoveAll :: "os_env \<Rightarrow> string \<Rightarrow> host \<Rightarrow> error option \<times> host" where
  "os_RemoveAll env p h =
     (if p = [] then (None, tick h)
      else if p = ''.'' \<or> suffix ''/.'' p then (Some (External ''EINVAL''), tick h)
      else case fault env (clock h) (SRemoveAll p) of
             Some e \<Rightarrow> (Some (External e),
               (tick h)\<lparr>files := (\<lambda>q. if (q = p \<or> below p q) \<and> \<not> partial_effect env (clock h) q
                                       then None else files h q)\<rparr>)
           | None \<Rightarrow> (None,
               (tick h)\<lparr>files := (\<lambda>q. if q = p \<or> below p q then None else files h q)\<rparr>))"

text \<open>A directory is present at a (non-empty) path.\<close>

definition dir_at :: "host \<Rightarrow> string \<Rightarrow> bool" where
  "dir_at h p \<longleftrightarrow> p \<noteq> [] \<and> (case files h p of None \<Rightarrow> False | Some i \<Rightarrow> is_dir i)"

section \<open>Lemmas\<close>

lemmas host_defs [go_defs] =
  calm_env_def tick_def path_parents_def below_def unrelated_def new_dir_def make_dirs_def
  os_MkdirAll_def update_inode_def os_Chmod_def unix_Chown_def unix_Setxattr_def run_setfacl_def
  os_RemoveAll_def dir_at_def

lemma files_tick [simp]: "files (tick h) = files h"
  by (simp add: tick_def)

lemma path_parents_below: "q \<in> set (path_parents p) \<Longrightarrow> below q p"
proof -
  assume "q \<in> set (path_parents p)"
  then obtain i where i: "0 < i" "i < length p" "p ! i = CHR ''/''" "q = take i p"
    by (auto simp: path_parents_def)
  then have "take (Suc i) p = q @ ''/''" by (simp add: take_Suc_conv_app_nth)
  then show "below q p" unfolding below_def by (metis take_is_prefix)
qed

lemma unrelated_sym: "unrelated p q \<longleftrightarrow> unrelated q p"
  by (auto simp: unrelated_def)

lemma unrelated_below: "unrelated p q \<Longrightarrow> q \<noteq> p \<and> \<not> below p q \<and> q \<notin> set (path_parents p)"
  using path_parents_below by (auto simp: unrelated_def)

text \<open>Two ordinary names below the same directory are unrelated paths.\<close>

lemma below_sibling: "plain_comp y \<Longrightarrow> \<not> below (d @ CHR ''/'' # x) (d @ CHR ''/'' # y)"
proof
  assume y: "plain_comp y" and "below (d @ CHR ''/'' # x) (d @ CHR ''/'' # y)"
  then obtain r where "d @ CHR ''/'' # y = (d @ CHR ''/'' # x) @ ''/'' @ r"
    unfolding below_def prefix_def by auto
  then have "y = x @ CHR ''/'' # r" by simp
  with y show False by (simp add: plain_comp_def)
qed

lemma siblings_unrelated:
  "plain_comp x \<Longrightarrow> plain_comp y \<Longrightarrow> x \<noteq> y \<Longrightarrow> unrelated (d @ CHR ''/'' # x) (d @ CHR ''/'' # y)"
  by (auto simp: unrelated_def dest: below_sibling)

subsection \<open>What a call on one path does to the directory at another\<close>

lemma os_MkdirAll_frame:
  "os_MkdirAll env p perm h = (r, h') \<Longrightarrow> unrelated p q \<Longrightarrow> files h' q = files h q"
  by (auto simp: os_MkdirAll_def make_dirs_def Let_def dest!: unrelated_below
      split: if_splits option.splits)

lemma update_inode_frame:
  "update_inode env c p f h = (r, h') \<Longrightarrow> q \<noteq> p \<Longrightarrow> files h' q = files h q"
  by (auto simp: update_inode_def split: option.splits)

lemma os_RemoveAll_frame:
  "os_RemoveAll env p h = (r, h') \<Longrightarrow> unrelated p q \<Longrightarrow> files h' q = files h q"
  by (auto simp: os_RemoveAll_def dest!: unrelated_below split: if_splits option.splits)

subsection \<open>What a call does to its own path\<close>

lemma os_MkdirAll_ok: "os_MkdirAll env p perm h = (None, h') \<Longrightarrow> p \<noteq> [] \<Longrightarrow> dir_at h' p"
  by (auto simp: os_MkdirAll_def make_dirs_def new_dir_def dir_at_def Let_def
      split: if_splits option.splits)

lemma os_MkdirAll_err: "os_MkdirAll env p perm h = (Some e, h') \<Longrightarrow> \<not> dir_at h' p"
  by (auto simp: os_MkdirAll_def make_dirs_def dir_at_def Let_def split: if_splits option.splits)

lemma update_inode_dir:
  assumes "update_inode env c p f h = (r, h')" and f: "\<And>i. is_dir (f i) = is_dir i"
  shows "dir_at h' q = dir_at h q"
proof (cases "files h' = files h")
  case True
  then show ?thesis by (simp add: dir_at_def)
next
  case False
  with assms(1) obtain i where "files h p = Some i" "files h' = (files h)(p \<mapsto> f i)"
    by (auto simp: update_inode_def split: option.splits)
  then show ?thesis by (simp add: dir_at_def f)
qed

lemma os_RemoveAll_ok: "os_RemoveAll env p h = (None, h') \<Longrightarrow> \<not> dir_at h' p"
  by (auto simp: os_RemoveAll_def dir_at_def split: if_splits option.splits)

end
