(* ===== verification/SocketFS.thy ===== *)
theory SocketFS
  imports Host
begin

text \<open>
  \<^verbatim>\<open>pkg/socketfs\<close>: the vhost-user socket directories. \<^verbatim>\<open>user_resolver.go\<close> turns identities
  into numbers and remembers them; \<^verbatim>\<open>socketfs.go\<close> creates a directory with the configured
  mode, owner, SELinux label and ACLs, and removes it again. The locale at the end is
  the contract that the device state relies on; it is interpreted on the operations
  defined here.
\<close>

section \<open>State and interface\<close>

record userResolver =
  userCache :: "string \<rightharpoonup> int"
  groupCache :: "string \<rightharpoonup> int"

definition newUserResolver :: userResolver where
  "newUserResolver = \<lparr>userCache = Map.empty, groupCache = Map.empty\<rparr>"

record socketFS =
  resolver :: userResolver
  sf_host :: host

text \<open>The Go interface: the two operations, over any state.\<close>

record 'w SocketFS =
  CreateSocketDir :: "string \<Rightarrow> VhostUserSpec option \<Rightarrow> 'w \<Rightarrow> unit res \<times> 'w"
  RemoveSocketDir :: "string \<Rightarrow> 'w \<Rightarrow> unit res \<times> 'w"

section \<open>Resolving identities\<close>

definition ResolveUID ::
  "os_env \<Rightarrow> UserGroupID option \<Rightarrow> socketFS \<Rightarrow> int option res \<times> socketFS" where
  "ResolveUID env ugid s =
     (case ugid of
        None \<Rightarrow> (Ok None, s)
      | Some u \<Rightarrow>
          if \<not> IsName u then
            (case GetID u of Ok i \<Rightarrow> (Ok (Some i), s) | Err e \<Rightarrow> (Err e, s) | Panic m \<Rightarrow> (Panic m, s))
          else
            (case GetName u of
               Err e \<Rightarrow> (Err e, s) | Panic m \<Rightarrow> (Panic m, s)
             | Ok name \<Rightarrow>
                 (case userCache (resolver s) name of
                    Some i \<Rightarrow> (Ok (Some i), s)
                  | None \<Rightarrow>
                      (let h = sf_host s; s' = s\<lparr>sf_host := tick h\<rparr>
                       in case user_Lookup env (clock h) name of
                            None \<Rightarrow> (Err (Errorf ''lookup user %q: %w'' [AStr name]
                                           [External ''unknown user'']), s')
                          | Some txt \<Rightarrow>
                              (case strconv_Atoi txt of
                                 None \<Rightarrow> (Err (Errorf ''parse uid for user %q: %w'' [AStr name]
                                                [External ''strconv.Atoi'']), s')
                               | Some i \<Rightarrow>
                                   (Ok (Some i),
                                    s'\<lparr>resolver := (resolver s)
                                        \<lparr>userCache := (userCache (resolver s))(name \<mapsto> i)\<rparr>\<rparr>))))))"

definition ResolveGID ::
  "os_env \<Rightarrow> UserGroupID option \<Rightarrow> socketFS \<Rightarrow> int option res \<times> socketFS" where
  "ResolveGID env ugid s =
     (case ugid of
        None \<Rightarrow> (Ok None, s)
      | Some u \<Rightarrow>
          if \<not> IsName u then
            (case GetID u of Ok i \<Rightarrow> (Ok (Some i), s) | Err e \<Rightarrow> (Err e, s) | Panic m \<Rightarrow> (Panic m, s))
          else
            (case GetName u of
               Err e \<Rightarrow> (Err e, s) | Panic m \<Rightarrow> (Panic m, s)
             | Ok name \<Rightarrow>
                 (case groupCache (resolver s) name of
                    Some i \<Rightarrow> (Ok (Some i), s)
                  | None \<Rightarrow>
                      (let h = sf_host s; s' = s\<lparr>sf_host := tick h\<rparr>
                       in case user_LookupGroup env (clock h) name of
                            None \<Rightarrow> (Err (Errorf ''lookup group %q: %w'' [AStr name]
                                           [External ''unknown group'']), s')
                          | Some txt \<Rightarrow>
                              (case strconv_Atoi txt of
                                 None \<Rightarrow> (Err (Errorf ''parse gid for group %q: %w'' [AStr name]
                                                [External ''strconv.Atoi'']), s')
                               | Some i \<Rightarrow>
                                   (Ok (Some i),
                                    s'\<lparr>resolver := (resolver s)
                                        \<lparr>groupCache := (groupCache (resolver s))(name \<mapsto> i)\<rparr>\<rparr>))))))"

section \<open>Permissions\<close>

definition applyOwnership :: "os_env \<Rightarrow> string \<Rightarrow> VhostUserSpec \<Rightarrow> socketFS \<Rightarrow> unit res \<times> socketFS" where
  "applyOwnership env dir spec s =
     (case ResolveUID env (Some (vu_User spec)) s of
        (Err e, s1) \<Rightarrow> (Err (Errorf ''resolve user: %w'' [] [e]), s1)
      | (Panic m, s1) \<Rightarrow> (Panic m, s1)
      | (Ok uid, s1) \<Rightarrow>
          (case ResolveGID env (Some (vu_Group spec)) s1 of
             (Err e, s2) \<Rightarrow> (Err (Errorf ''resolve group: %w'' [] [e]), s2)
           | (Panic m, s2) \<Rightarrow> (Panic m, s2)
           | (Ok gid, s2) \<Rightarrow>
               if uid = None \<and> gid = None then (Ok (), s2)
               else
                 (let chownUID = (case uid of None \<Rightarrow> - 1 | Some i \<Rightarrow> i);
                      chownGID = (case gid of None \<Rightarrow> - 1 | Some i \<Rightarrow> i)
                  in case unix_Chown env dir chownUID chownGID (sf_host s2) of
                       (Some e, h) \<Rightarrow> (Err (Errorf ''chown %q (uid=%d gid=%d): %w''
                                        [AStr dir, AInt chownUID, AInt chownGID] [e]), s2\<lparr>sf_host := h\<rparr>)
                     | (None, h) \<Rightarrow> (Ok (), s2\<lparr>sf_host := h\<rparr>))))"

definition validateSELinuxLabel :: "string \<Rightarrow> error option" where
  "validateSELinuxLabel label =
     (let parts = strings_Split (CHR '':'') label
      in if length parts \<noteq> 4 then
           Some (Errorf ''invalid SELinux label %q: expected user:role:type:level'' [AStr label] [])
         else if [] \<in> set parts then
           Some (Errorf ''invalid SELinux label %q: empty component'' [AStr label] [])
         else None)"

definition applySELinuxLabel :: "os_env \<Rightarrow> string \<Rightarrow> string option \<Rightarrow> socketFS \<Rightarrow> unit res \<times> socketFS" where
  "applySELinuxLabel env dir label s =
     (case label of
        None \<Rightarrow> (Ok (), s)
      | Some l \<Rightarrow>
          if l = [] then (Ok (), s)
          else
            (case validateSELinuxLabel l of
               Some e \<Rightarrow> (Err e, s)
             | None \<Rightarrow>
                 (case unix_Setxattr env dir ''security.selinux'' l (sf_host s) of
                    (None, h) \<Rightarrow> (Ok (), s\<lparr>sf_host := h\<rparr>)
                  | (Some e, h) \<Rightarrow>
                      if e = External ''EOPNOTSUPP'' \<or> e = External ''ENOTSUP''
                      then (Ok (), s\<lparr>sf_host := h\<rparr>)
                      else (Err (Errorf ''set SELinux label %q on %q: %w'' [AStr l, AStr dir] [e]),
                            s\<lparr>sf_host := h\<rparr>))))"

definition acl_spec :: "string list \<Rightarrow> string" where
  "acl_spec users = strings_Join '','' (map (\<lambda>u. ''u:'' @ u @ '':rwx'') users)"

definition applyACLs :: "os_env \<Rightarrow> string \<Rightarrow> string list \<Rightarrow> socketFS \<Rightarrow> unit res \<times> socketFS" where
  "applyACLs env dir aclUsers s =
     (if aclUsers = [] then (Ok (), s)
      else
        (case exec_LookPath env (clock (sf_host s)) ''setfacl'' of
           None \<Rightarrow> (Err (Errorf ''setfacl binary not found'' [] []), s)
         | Some bin \<Rightarrow>
             (let aclSpec = acl_spec aclUsers
              in case run_setfacl env bin False aclSpec dir (sf_host s) of
                   (Some e, h) \<Rightarrow> (Err (Errorf ''setfacl -m %s %q: %w: %s'' [AStr aclSpec, AStr dir] [e]),
                                   s\<lparr>sf_host := h\<rparr>)
                 | (None, h) \<Rightarrow>
                     (case run_setfacl env bin True aclSpec dir h of
                        (Some e, h') \<Rightarrow> (Err (Errorf ''setfacl -d -m %s %q: %w: %s''
                                           [AStr aclSpec, AStr dir] [e]), s\<lparr>sf_host := h'\<rparr>)
                      | (None, h') \<Rightarrow> (Ok (), s\<lparr>sf_host := h'\<rparr>)))))"

definition applyPermissions ::
  "os_env \<Rightarrow> string \<Rightarrow> VhostUserSpec option \<Rightarrow> socketFS \<Rightarrow> unit res \<times> socketFS" where
  "applyPermissions env dir spec s =
     (case spec of
        None \<Rightarrow> (Ok (), s)
      | Some sp \<Rightarrow>
          (case applyOwnership env dir sp s of
             (Ok _, s1) \<Rightarrow>
               (case applySELinuxLabel env dir (SelinuxLabel sp) s1 of
                  (Ok _, s2) \<Rightarrow> applyACLs env dir (ACLUsers sp) s2
                | (r, s2) \<Rightarrow> (r, s2))
           | (r, s1) \<Rightarrow> (r, s1)))"

section \<open>Creating and removing\<close>

definition socketFS_RemoveSocketDir :: "os_env \<Rightarrow> string \<Rightarrow> socketFS \<Rightarrow> unit res \<times> socketFS" where
  "socketFS_RemoveSocketDir env path s =
     (case os_RemoveAll env path (sf_host s) of
        (Some e, h) \<Rightarrow> (Err (Errorf ''remove socket directory %q: %w'' [AStr path] [e]), s\<lparr>sf_host := h\<rparr>)
      | (None, h) \<Rightarrow> (Ok (), s\<lparr>sf_host := h\<rparr>))"

text \<open>The mode \<^verbatim>\<open>0o775\<close>.\<close>

definition socket_dir_mode :: "12 word" where
  "socket_dir_mode = 509"

definition socketFS_CreateSocketDir ::
  "os_env \<Rightarrow> string \<Rightarrow> VhostUserSpec option \<Rightarrow> socketFS \<Rightarrow> unit res \<times> socketFS" where
  "socketFS_CreateSocketDir env path spec s =
     (case os_MkdirAll env path socket_dir_mode (sf_host s) of
        (Some e, h) \<Rightarrow> (Err (Errorf ''create socket directory %q: %w'' [AStr path] [e]), s\<lparr>sf_host := h\<rparr>)
      | (None, h) \<Rightarrow>
          (let s1 = s\<lparr>sf_host := h\<rparr>
           in case os_Chmod env path socket_dir_mode (sf_host s1) of
                (Some e, h2) \<Rightarrow>
                  (Err (Errorf ''chmod socket directory %q: %w'' [AStr path] [e]),
                   snd (socketFS_RemoveSocketDir env path (s1\<lparr>sf_host := h2\<rparr>)))
              | (None, h2) \<Rightarrow>
                  (case applyPermissions env path spec (s1\<lparr>sf_host := h2\<rparr>) of
                     (Ok _, s3) \<Rightarrow> (Ok (), s3)
                   | (Err e, s3) \<Rightarrow>
                       (Err (Errorf ''apply permissions to %q: %w'' [AStr path] [e]),
                        snd (socketFS_RemoveSocketDir env path s3))
                   | (Panic m, s3) \<Rightarrow> (Panic m, s3))))"

definition socketFS_iface :: "os_env \<Rightarrow> socketFS SocketFS" where
  "socketFS_iface env =
     \<lparr>CreateSocketDir = socketFS_CreateSocketDir env, RemoveSocketDir = socketFS_RemoveSocketDir env\<rparr>"

lemmas socketfs_defs [go_defs] =
  newUserResolver_def ResolveUID_def ResolveGID_def applyOwnership_def validateSELinuxLabel_def
  applySELinuxLabel_def acl_spec_def applyACLs_def applyPermissions_def
  socketFS_RemoveSocketDir_def socketFS_CreateSocketDir_def socketFS_iface_def socket_dir_mode_def

section \<open>Lemmas on identities\<close>

text \<open>What a resolver knows about an identity: a number speaks for itself, a name needs a cache entry.\<close>

definition known_uid :: "userResolver \<Rightarrow> UserGroupID \<Rightarrow> int option" where
  "known_uid r u = (if IsName u then userCache r (ios_StrVal u) else Some (sint (ios_IntVal u)))"

definition known_gid :: "userResolver \<Rightarrow> UserGroupID \<Rightarrow> int option" where
  "known_gid r u = (if IsName u then groupCache r (ios_StrVal u) else Some (sint (ios_IntVal u)))"

lemma GetID_Ok: "\<not> IsName u \<Longrightarrow> GetID u = Ok (sint (ios_IntVal u))"
  by (cases "ios_Type u") (auto simp: GetID_def IsName_def)

lemma GetName_Ok: "IsName u \<Longrightarrow> GetName u = Ok (ios_StrVal u)"
  by (simp add: GetName_def IsName_def)

lemmas resolve_simps = GetID_Ok GetName_Ok known_uid_def known_gid_def Let_def

lemma ResolveUID_cases:
  assumes "ResolveUID env (Some u) s = (r, s')"
  shows "files (sf_host s') = files (sf_host s)" and "\<And>m. r \<noteq> Panic m"
    and "groupCache (resolver s') = groupCache (resolver s)"
    and "\<And>x. r = Ok x \<Longrightarrow> x = known_uid (resolver s') u \<and> x \<noteq> None"
  using assms
  by (auto simp: ResolveUID_def resolve_simps split: if_splits option.splits)

lemma ResolveGID_cases:
  assumes "ResolveGID env (Some u) s = (r, s')"
  shows "files (sf_host s') = files (sf_host s)" and "\<And>m. r \<noteq> Panic m"
    and "userCache (resolver s') = userCache (resolver s)"
    and "\<And>x. r = Ok x \<Longrightarrow> x = known_gid (resolver s') u \<and> x \<noteq> None"
  using assms
  by (auto simp: ResolveGID_def resolve_simps split: if_splits option.splits)

section \<open>Lemmas on permissions\<close>

text \<open>A step that touches attributes of one path only.\<close>

definition attr_step :: "string \<Rightarrow> socketFS \<Rightarrow> socketFS \<Rightarrow> bool" where
  "attr_step p s s' \<longleftrightarrow>
     (\<forall>q. q \<noteq> p \<longrightarrow> files (sf_host s') q = files (sf_host s) q) \<and>
     (\<forall>q. dir_at (sf_host s') q = dir_at (sf_host s) q)"

lemma attr_step_refl: "files (sf_host s') = files (sf_host s) \<Longrightarrow> attr_step p s s'"
  by (simp add: attr_step_def dir_at_def)

lemma attr_step_trans: "attr_step p s s' \<Longrightarrow> attr_step p s' s'' \<Longrightarrow> attr_step p s s''"
  by (simp add: attr_step_def)

lemma attr_step_update:
  assumes "update_inode env c p f h0 = (r, h)" and "\<And>i. is_dir (f i) = is_dir i"
    and "sf_host s = h0" and "sf_host s' = h"
  shows "attr_step p s s'"
  using update_inode_frame [OF assms(1)] update_inode_dir [OF assms(1,2)] assms(3,4)
  by (simp add: attr_step_def)

lemma applyOwnership_step:
  assumes "applyOwnership env dir spec s = (r, s')"
  shows "attr_step dir s s' \<and> (\<forall>m. r \<noteq> Panic m)"
proof -
  obtain ru s1 where u: "ResolveUID env (Some (vu_User spec)) s = (ru, s1)" by fastforce
  obtain rg s2 where g: "ResolveGID env (Some (vu_Group spec)) s1 = (rg, s2)" by fastforce
  have s2: "files (sf_host s2) = files (sf_host s)"
    using ResolveUID_cases(1) [OF u] ResolveGID_cases(1) [OF g] by simp
  show ?thesis
  proof (cases "\<exists>x y. ru = Ok x \<and> rg = Ok y")
    case False
    then show ?thesis
      using assms u g s2 ResolveUID_cases(1,2) [OF u] ResolveGID_cases(2) [OF g]
      by (auto simp: applyOwnership_def intro!: attr_step_refl split: res.splits)
  next
    case True
    then obtain x y where xy: "ru = Ok x" "rg = Ok y" by blast
    from ResolveUID_cases(4) [OF u xy(1)] obtain i where x: "x = Some i" by auto
    obtain r3 h3 where c: "unix_Chown env dir i (case y of None \<Rightarrow> - 1 | Some j \<Rightarrow> j) (sf_host s2) = (r3, h3)"
      by fastforce
    have "attr_step dir s2 (s2\<lparr>sf_host := h3\<rparr>)"
      by (rule attr_step_update [OF c [unfolded unix_Chown_def]]) simp_all
    then have "attr_step dir s (s2\<lparr>sf_host := h3\<rparr>)"
      using attr_step_refl [OF s2] attr_step_trans by blast
    then show ?thesis
      using assms u g xy x c by (auto simp: applyOwnership_def Let_def split: option.splits)
  qed
qed

lemma applySELinuxLabel_step:
  assumes "applySELinuxLabel env dir l s = (r, s')"
  shows "attr_step dir s s' \<and> (\<forall>m. r \<noteq> Panic m)"
proof -
  have st: "attr_step dir s (s\<lparr>sf_host := h\<rparr>)"
    if "unix_Setxattr env dir a v (sf_host s) = (x, h)" for a v x h
    using that [unfolded unix_Setxattr_def] by (rule attr_step_update) simp_all
  show ?thesis
    using assms by (auto simp: applySELinuxLabel_def intro: attr_step_refl st
        split: option.splits if_splits prod.splits)
qed

lemma applyACLs_step:
  assumes "applyACLs env dir us s = (r, s')"
  shows "attr_step dir s s' \<and> (\<forall>m. r \<noteq> Panic m)"
proof -
  have st: "attr_step dir s (s\<lparr>sf_host := h'\<rparr>)"
    if "run_setfacl env bin d a dir h = (x, h')" and "attr_step dir s (s\<lparr>sf_host := h\<rparr>)" for bin d a h x h'
  proof -
    have "attr_step dir (s\<lparr>sf_host := h\<rparr>) (s\<lparr>sf_host := h'\<rparr>)"
      by (rule attr_step_update [OF that(1) [unfolded run_setfacl_def]]) simp_all
    with that(2) show ?thesis by (rule attr_step_trans)
  qed
  have init: "attr_step dir s (s\<lparr>sf_host := sf_host s\<rparr>)" by (rule attr_step_refl) simp
  show ?thesis
    using assms
    by (auto simp: applyACLs_def Let_def intro: attr_step_refl st [OF _ init] st [OF _ st [OF _ init]]
        split: option.splits if_splits prod.splits)
qed

lemma applyPermissions_step:
  assumes "applyPermissions env dir spec s = (r, s')"
  shows "attr_step dir s s' \<and> (\<forall>m. r \<noteq> Panic m)"
proof (cases spec)
  case None
  with assms show ?thesis by (auto simp: applyPermissions_def intro: attr_step_refl)
next
  case (Some sp)
  obtain r1 s1 where 1: "applyOwnership env dir sp s = (r1, s1)" by fastforce
  obtain r2 s2 where 2: "applySELinuxLabel env dir (SelinuxLabel sp) s1 = (r2, s2)" by fastforce
  obtain r3 s3 where 3: "applyACLs env dir (ACLUsers sp) s2 = (r3, s3)" by fastforce
  have a1: "attr_step dir s s1" and p1: "\<And>m. r1 \<noteq> Panic m"
    using applyOwnership_step [OF 1] by auto
  have a2: "attr_step dir s s2" and p2: "\<And>m. r2 \<noteq> Panic m"
    using applySELinuxLabel_step [OF 2] attr_step_trans [OF a1] by auto
  have a3: "attr_step dir s s3" and p3: "\<And>m. r3 \<noteq> Panic m"
    using applyACLs_step [OF 3] attr_step_trans [OF a2] by auto
  show ?thesis
    using assms 1 2 3 Some a1 a2 a3 p1 p2 p3
    by (auto simp: applyPermissions_def split: res.splits)
qed

section \<open>Lemmas on creation and removal\<close>

lemma RemoveSocketDir_cases:
  assumes "socketFS_RemoveSocketDir env p s = (r, s')"
  shows "\<And>m. r \<noteq> Panic m" and "r = Ok () \<Longrightarrow> \<not> dir_at (sf_host s') p"
    and "\<And>q. unrelated p q \<Longrightarrow> files (sf_host s') q = files (sf_host s) q"
    and "resolver s' = resolver s"
  using assms os_RemoveAll_ok os_RemoveAll_frame
  by (auto simp: socketFS_RemoveSocketDir_def split: prod.splits option.splits)

lemma attr_step_files: "attr_step p s s' \<Longrightarrow> q \<noteq> p \<Longrightarrow> files (sf_host s') q = files (sf_host s) q"
  by (simp add: attr_step_def)

lemma attr_step_dir: "attr_step p s s' \<Longrightarrow> dir_at (sf_host s') q = dir_at (sf_host s) q"
  by (simp add: attr_step_def)

lemma Chmod_step:
  "os_Chmod env p perm (sf_host s) = (r, h) \<Longrightarrow> attr_step p s (s\<lparr>sf_host := h\<rparr>)"
  unfolding os_Chmod_def by (erule attr_step_update) simp_all

text \<open>
  The four ways a creation can go: the directory could not be made; its mode or its
  permissions could not be set, and it was removed again; it stands with its permissions.
\<close>

lemma CreateSocketDir_cases:
  assumes "socketFS_CreateSocketDir env p spec s = (r, s')"
  obtains (mkdir) e h f where "os_MkdirAll env p socket_dir_mode (sf_host s) = (Some e, h)"
      "r = Err f" "s' = s\<lparr>sf_host := h\<rparr>"
  | (undone) h s1 f where "os_MkdirAll env p socket_dir_mode (sf_host s) = (None, h)"
      "attr_step p (s\<lparr>sf_host := h\<rparr>) s1" "r = Err f" "s' = snd (socketFS_RemoveSocketDir env p s1)"
  | (created) h h2 where "os_MkdirAll env p socket_dir_mode (sf_host s) = (None, h)"
      "os_Chmod env p socket_dir_mode h = (None, h2)"
      "applyPermissions env p spec (s\<lparr>sf_host := h2\<rparr>) = (Ok (), s')" "r = Ok ()"
proof -
  obtain rm h where m: "os_MkdirAll env p socket_dir_mode (sf_host s) = (rm, h)" by fastforce
  show ?thesis
  proof (cases rm)
    case (Some e)
    with m assms show ?thesis by (intro mkdir) (auto simp: socketFS_CreateSocketDir_def)
  next
    case None
    obtain rc h2 where c: "os_Chmod env p socket_dir_mode h = (rc, h2)" by fastforce
    have st: "attr_step p (s\<lparr>sf_host := h\<rparr>) (s\<lparr>sf_host := h2\<rparr>)"
      using c Chmod_step [of env p socket_dir_mode "s\<lparr>sf_host := h\<rparr>"] by simp
    obtain rp s3 where a: "applyPermissions env p spec (s\<lparr>sf_host := h2\<rparr>) = (rp, s3)" by fastforce
    note ap = applyPermissions_step [OF a]
    have st3: "attr_step p (s\<lparr>sf_host := h\<rparr>) s3" using st ap attr_step_trans by blast
    show ?thesis
    proof (cases rc)
      case (Some e)
      with None m c assms st show ?thesis
        by (intro undone [of h "s\<lparr>sf_host := h2\<rparr>"]) (auto simp: socketFS_CreateSocketDir_def)
    next
      case rcN: None
      show ?thesis
      proof (cases rp)
        case (Ok u)
        with None rcN m c a assms show ?thesis
          by (intro created [of h h2]) (auto simp: socketFS_CreateSocketDir_def)
      next
        case (Err e)
        with None rcN m c a assms st3 show ?thesis
          by (intro undone [of h s3]) (auto simp: socketFS_CreateSocketDir_def)
      next
        case (Panic m')
        with ap show ?thesis by simp
      qed
    qed
  qed
qed

lemma CreateSocketDir_ok_dir:
  assumes "socketFS_CreateSocketDir env p spec s = (Ok (), s')" and "p \<noteq> []"
  shows "dir_at (sf_host s') p"
  using assms(1)
proof (cases rule: CreateSocketDir_cases)
  case (created h h2)
  have "attr_step p (s\<lparr>sf_host := h\<rparr>) (s\<lparr>sf_host := h2\<rparr>)"
    using created(2) Chmod_step [of env p socket_dir_mode "s\<lparr>sf_host := h\<rparr>"] by simp
  then have "attr_step p (s\<lparr>sf_host := h\<rparr>) s'"
    using applyPermissions_step [OF created(3)] attr_step_trans by blast
  with os_MkdirAll_ok [OF created(1) assms(2)] show ?thesis by (simp add: attr_step_dir)
qed simp_all

lemma CreateSocketDir_frame:
  assumes "socketFS_CreateSocketDir env p spec s = (r, s')" and q: "unrelated p q"
  shows "files (sf_host s') q = files (sf_host s) q"
  using assms(1)
proof (cases rule: CreateSocketDir_cases)
  case (mkdir e h)
  then show ?thesis using os_MkdirAll_frame [OF mkdir(1) q] by simp
next
  case (undone h s1)
  obtain r' where "socketFS_RemoveSocketDir env p s1 = (r', s')" using undone(4) by (metis prod.collapse)
  then have "files (sf_host s') q = files (sf_host s1) q" using q by (rule RemoveSocketDir_cases(3))
  also have "\<dots> = files h q" using attr_step_files [OF undone(2)] unrelated_below [OF q] by simp
  finally show ?thesis using os_MkdirAll_frame [OF undone(1) q] by simp
next
  case (created h h2)
  have "q \<noteq> p" using unrelated_below [OF q] by simp
  then have "files (sf_host s') q = files h2 q"
    using applyPermissions_step [OF created(3)] by (simp add: attr_step_files)
  also have "\<dots> = files h q"
    using created(2) \<open>q \<noteq> p\<close> unfolding os_Chmod_def by (rule update_inode_frame)
  finally show ?thesis using os_MkdirAll_frame [OF created(1) q] by simp
qed

lemma CreateSocketDir_err_gone:
  assumes "socketFS_CreateSocketDir env p spec s = (Err e, s')"
    and rm: "\<And>s. fst (socketFS_RemoveSocketDir env p s) = Ok ()"
  shows "\<not> dir_at (sf_host s') p"
  using assms(1)
proof (cases rule: CreateSocketDir_cases)
  case (mkdir e h)
  then show ?thesis using os_MkdirAll_err by simp
next
  case (undone h s1)
  then have "socketFS_RemoveSocketDir env p s1 = (Ok (), s')" using rm [of s1] by (metis prod.collapse)
  then show ?thesis using RemoveSocketDir_cases(2) by blast
qed simp_all

lemma CreateSocketDir_no_panic: "fst (socketFS_CreateSocketDir env p spec s) \<noteq> Panic m"
proof
  assume "fst (socketFS_CreateSocketDir env p spec s) = Panic m"
  then have "socketFS_CreateSocketDir env p spec s = (Panic m, snd (socketFS_CreateSocketDir env p spec s))"
    by (metis prod.collapse)
  then show False by (cases rule: CreateSocketDir_cases) simp_all
qed

section \<open>The contract of a socket directory provider\<close>

text \<open>
  What the device state relies on: a directory stands after a successful creation, is
  gone after a successful removal, is not left behind by a failed creation as long as
  removals work, and no operation touches a directory at an unrelated path.
\<close>

locale socket_dirs =
  fixes create :: "string \<Rightarrow> VhostUserSpec option \<Rightarrow> 'w \<Rightarrow> unit res \<times> 'w"
    and remove :: "string \<Rightarrow> 'w \<Rightarrow> unit res \<times> 'w"
    and has_dir :: "'w \<Rightarrow> string \<Rightarrow> bool"
  assumes create_ok: "create p sp w = (Ok (), w') \<Longrightarrow> p \<noteq> [] \<Longrightarrow> has_dir w' p"
    and create_err: "create p sp w = (Err e, w') \<Longrightarrow> (\<And>v. fst (remove p v) = Ok ()) \<Longrightarrow> \<not> has_dir w' p"
    and create_frame: "create p sp w = (r, w') \<Longrightarrow> unrelated p q \<Longrightarrow> has_dir w' q = has_dir w q"
    and create_no_panic: "fst (create p sp w) \<noteq> Panic m"
    and remove_ok: "remove p w = (Ok (), w') \<Longrightarrow> \<not> has_dir w' p"
    and remove_frame: "remove p w = (r, w') \<Longrightarrow> unrelated p q \<Longrightarrow> has_dir w' q = has_dir w q"
    and remove_mono: "remove p w = (r, w') \<Longrightarrow> has_dir w' q \<Longrightarrow> has_dir w q"
    and remove_no_panic: "fst (remove p w) \<noteq> Panic m"
begin

lemma create_cases:
  obtains (ok) w' where "create p sp w = (Ok (), w')" | (err) e w' where "create p sp w = (Err e, w')"
proof -
  obtain r w' where "create p sp w = (r, w')" by fastforce
  with create_no_panic [of p sp w] show ?thesis using ok err by (cases r) auto
qed

text \<open>A directory made and removed again leaves every unrelated path as it was and nothing at its own.\<close>

lemma create_remove:
  assumes "create p sp w = (Ok (), w1)" and "remove p w1 = (Ok (), w2)"
  shows "\<not> has_dir w2 p" and "unrelated p q \<Longrightarrow> has_dir w2 q = has_dir w q"
  using remove_ok [OF assms(2)] create_frame [OF assms(1)] remove_frame [OF assms(2)] by simp_all

end

interpretation sfs: socket_dirs "socketFS_CreateSocketDir env" "socketFS_RemoveSocketDir env"
  "\<lambda>s. dir_at (sf_host s)" for env
proof unfold_locales
  fix p sp w w' assume "socketFS_CreateSocketDir env p sp w = (Ok (), w')" and "p \<noteq> []"
  then show "dir_at (sf_host w') p" by (rule CreateSocketDir_ok_dir)
next
  fix p sp w e w' assume "socketFS_CreateSocketDir env p sp w = (Err e, w')"
    and "\<And>v. fst (socketFS_RemoveSocketDir env p v) = Ok ()"
  then show "\<not> dir_at (sf_host w') p" by (rule CreateSocketDir_err_gone)
next
  fix p sp w r w' q assume "socketFS_CreateSocketDir env p sp w = (r, w')" and "unrelated p q"
  then show "dir_at (sf_host w') q = dir_at (sf_host w) q"
    by (simp add: dir_at_def CreateSocketDir_frame)
next
  fix p sp w m show "fst (socketFS_CreateSocketDir env p sp w) \<noteq> Panic m"
    by (rule CreateSocketDir_no_panic)
next
  fix p w w' assume "socketFS_RemoveSocketDir env p w = (Ok (), w')"
  then show "\<not> dir_at (sf_host w') p" using RemoveSocketDir_cases(2) by blast
next
  fix p w r w' q assume "socketFS_RemoveSocketDir env p w = (r, w')" and "unrelated p q"
  then show "dir_at (sf_host w') q = dir_at (sf_host w) q"
    by (simp add: dir_at_def RemoveSocketDir_cases(3))
next
  fix p w r w' q assume "socketFS_RemoveSocketDir env p w = (r, w')" and "dir_at (sf_host w') q"
  then show "dir_at (sf_host w) q"
    by (auto simp: socketFS_RemoveSocketDir_def os_RemoveAll_def dir_at_def split: prod.splits option.splits if_splits)
next
  fix p w m show "fst (socketFS_RemoveSocketDir env p w) \<noteq> Panic m"
    by (simp add: socketFS_RemoveSocketDir_def split: prod.split option.split)
qed

section \<open>Attributes of a created directory\<close>

lemma update_inode_ok:
  "update_inode env c p f h = (None, h') \<Longrightarrow> \<exists>i. files h p = Some i \<and> files h' p = Some (f i)"
  by (auto simp: update_inode_def split: option.splits)

lemma update_inode_err: "update_inode env c p f h = (Some e, h') \<Longrightarrow> files h' = files h"
  by (auto simp: update_inode_def split: option.splits)

definition chown_id :: "int \<Rightarrow> int \<Rightarrow> int" where
  "chown_id old new = (if new = - 1 then old else new)"

lemma applyOwnership_ok:
  assumes "applyOwnership env dir sp s = (Ok (), s')"
  shows "\<exists>i u g. files (sf_host s) dir = Some i
     \<and> files (sf_host s') dir = Some (i\<lparr>i_uid := chown_id (i_uid i) u, i_gid := chown_id (i_gid i) g\<rparr>)
     \<and> known_uid (resolver s') (vu_User sp) = Some u \<and> known_gid (resolver s') (vu_Group sp) = Some g"
proof -
  obtain ru s1 where u: "ResolveUID env (Some (vu_User sp)) s = (ru, s1)" by fastforce
  obtain rg s2 where g: "ResolveGID env (Some (vu_Group sp)) s1 = (rg, s2)" by fastforce
  from assms u g obtain x y where xy: "ru = Ok x" "rg = Ok y"
    by (auto simp: applyOwnership_def split: res.splits)
  from ResolveUID_cases(4) [OF u xy(1)] obtain i where
    i: "x = Some i" "known_uid (resolver s1) (vu_User sp) = Some i" by auto
  from ResolveGID_cases(4) [OF g xy(2)] obtain j where
    j: "y = Some j" "known_gid (resolver s2) (vu_Group sp) = Some j" by auto
  have k: "known_uid (resolver s2) (vu_User sp) = Some i"
    using i(2) ResolveGID_cases(3) [OF g] by (simp add: known_uid_def split: if_splits)
  from assms u g xy i(1) j(1) obtain h where
    h: "unix_Chown env dir i j (sf_host s2) = (None, h)" "s' = s2\<lparr>sf_host := h\<rparr>"
    by (auto simp: applyOwnership_def Let_def split: option.splits prod.splits)
  from update_inode_ok [OF h(1) [unfolded unix_Chown_def]] obtain n where
    n: "files (sf_host s2) dir = Some n"
       "files h dir = Some (n\<lparr>i_uid := chown_id (i_uid n) i, i_gid := chown_id (i_gid n) j\<rparr>)"
    by (auto simp: chown_id_def)
  have "files (sf_host s2) = files (sf_host s)"
    using ResolveUID_cases(1) [OF u] ResolveGID_cases(1) [OF g] by simp
  with n h(2) k j(2) show ?thesis by auto
qed

lemma applySELinuxLabel_ok:
  assumes "applySELinuxLabel env dir l s = (Ok (), s')" and "files (sf_host s) dir = Some i"
  shows "\<exists>lb. files (sf_host s') dir = Some (i\<lparr>i_label := lb\<rparr>)" and "resolver s' = resolver s"
proof -
  have "files (sf_host s') dir = Some i \<or> (\<exists>v. files (sf_host s') dir = Some (i\<lparr>i_label := Some v\<rparr>))"
    using assms
    by (auto simp: applySELinuxLabel_def unix_Setxattr_def dest: update_inode_err dest!: update_inode_ok
        split: option.splits if_splits prod.splits)
  moreover have "i = i\<lparr>i_label := i_label i\<rparr>" by simp
  ultimately show "\<exists>lb. files (sf_host s') dir = Some (i\<lparr>i_label := lb\<rparr>)" by metis
  show "resolver s' = resolver s"
    using assms(1) by (auto simp: applySELinuxLabel_def split: option.splits if_splits prod.splits)
qed

lemma applyACLs_ok:
  assumes "applyACLs env dir us s = (Ok (), s')" and "files (sf_host s) dir = Some i"
  shows "files (sf_host s') dir = Some (if us = [] then i else
           i\<lparr>i_acl := acl_spec us # i_acl i, i_default_acl := acl_spec us # i_default_acl i\<rparr>)"
    and "resolver s' = resolver s"
proof -
  show "files (sf_host s') dir = Some (if us = [] then i else
           i\<lparr>i_acl := acl_spec us # i_acl i, i_default_acl := acl_spec us # i_default_acl i\<rparr>)"
    using assms
    by (auto simp: applyACLs_def run_setfacl_def Let_def dest!: update_inode_ok
        split: option.splits if_splits prod.splits)
  show "resolver s' = resolver s"
    using assms(1) by (auto simp: applyACLs_def Let_def split: option.splits if_splits prod.splits)
qed

lemma CreateSocketDir_attributes_aux:
  assumes "socketFS_CreateSocketDir env p (Some sp) s = (Ok (), s')" and "p \<noteq> []"
  shows "\<exists>i u g. files (sf_host s') p = Some i \<and> is_dir i \<and> i_mode i = socket_dir_mode
     \<and> known_uid (resolver s') (vu_User sp) = Some u \<and> (u \<noteq> - 1 \<longrightarrow> i_uid i = u)
     \<and> known_gid (resolver s') (vu_Group sp) = Some g \<and> (g \<noteq> - 1 \<longrightarrow> i_gid i = g)
     \<and> (ACLUsers sp \<noteq> [] \<longrightarrow>
          acl_spec (ACLUsers sp) \<in> set (i_acl i) \<and> acl_spec (ACLUsers sp) \<in> set (i_default_acl i))"
  using assms(1)
proof (cases rule: CreateSocketDir_cases)
  case (created h h2)
  from update_inode_ok [OF created(2) [unfolded os_Chmod_def]] obtain i0 where
    i0: "files h2 p = Some (i0\<lparr>i_mode := socket_dir_mode\<rparr>)" by auto
  from created(3) obtain s1 s2 where
    1: "applyOwnership env p sp (s\<lparr>sf_host := h2\<rparr>) = (Ok (), s1)" and
    2: "applySELinuxLabel env p (SelinuxLabel sp) s1 = (Ok (), s2)" and
    3: "applyACLs env p (ACLUsers sp) s2 = (Ok (), s')"
    by (auto simp: applyPermissions_def split: res.splits prod.splits)
  from applyOwnership_ok [OF 1] i0 obtain u g where
    f1: "files (sf_host s1) p = Some (i0\<lparr>i_mode := socket_dir_mode, i_uid := chown_id (i_uid i0) u,
           i_gid := chown_id (i_gid i0) g\<rparr>)" and
    k: "known_uid (resolver s1) (vu_User sp) = Some u" "known_gid (resolver s1) (vu_Group sp) = Some g"
    by auto
  from applySELinuxLabel_ok [OF 2 f1] obtain lb where
    f2: "files (sf_host s2) p = Some (i0\<lparr>i_mode := socket_dir_mode, i_uid := chown_id (i_uid i0) u,
           i_gid := chown_id (i_gid i0) g, i_label := lb\<rparr>)" and r2: "resolver s2 = resolver s1"
    by auto
  note f3 = applyACLs_ok [OF 3 f2]
  have "dir_at (sf_host s') p" using assms by (rule CreateSocketDir_ok_dir)
  with f3 r2 k show ?thesis
    by (auto simp: dir_at_def chown_id_def split: if_splits)
qed simp_all

section \<open>A sample directory\<close>

text \<open>Concrete inputs for the witnesses below: a fresh host, and two configurations.\<close>

definition fresh_socketFS :: socketFS where
  "fresh_socketFS = \<lparr>resolver = newUserResolver, sf_host = \<lparr>files = Map.empty, clock = 0\<rparr>\<rparr>"

definition sample_spec :: VhostUserSpec where
  "sample_spec = \<lparr>ContainerRootPath = [], vu_User = NewUserGroupIDFromID 107,
     vu_Group = NewUserGroupIDFromID 107, SelinuxLabel = Some ''u:r:t:s0'', ACLUsers = [''qemu'']\<rparr>"

definition no_chown_env :: os_env where
  "no_chown_env = calm_env\<lparr>fault := (\<lambda>t c. case c of SChown p u g \<Rightarrow> Some ''EPERM'' | _ \<Rightarrow> None)\<rparr>"

section \<open>Properties\<close>

text \<open>
  C34. A successful creation leaves at the path a directory with mode 0775 whatever the
  umask, owned by the numbers the configured user and group resolve to (-1 keeps the old
  owner), and, when ACL users are configured, with one access and one default entry
  that grant them rwx.
\<close>

theorem CreateSocketDir_attributes:
  assumes "socketFS_CreateSocketDir env p (Some sp) s = (Ok (), s')" and "p \<noteq> []"
  shows "\<exists>i u g. files (sf_host s') p = Some i \<and> is_dir i \<and> i_mode i = socket_dir_mode
     \<and> known_uid (resolver s') (vu_User sp) = Some u \<and> (u \<noteq> - 1 \<longrightarrow> i_uid i = u)
     \<and> known_gid (resolver s') (vu_Group sp) = Some g \<and> (g \<noteq> - 1 \<longrightarrow> i_gid i = g)
     \<and> (ACLUsers sp \<noteq> [] \<longrightarrow>
          acl_spec (ACLUsers sp) \<in> set (i_acl i) \<and> acl_spec (ACLUsers sp) \<in> set (i_default_acl i))"
  using assms by (rule CreateSocketDir_attributes_aux)

theorem CreateSocketDir_attributes_witness:
  "\<exists>i. files (sf_host (snd (socketFS_CreateSocketDir calm_env ''/var/x'' (Some sample_spec) fresh_socketFS)))
         ''/var/x'' = Some i \<and> is_dir i \<and> i_mode i = socket_dir_mode"
proof -
  have "socketFS_CreateSocketDir calm_env ''/var/x'' (Some sample_spec) fresh_socketFS
      = (Ok (), snd (socketFS_CreateSocketDir calm_env ''/var/x'' (Some sample_spec) fresh_socketFS))"
    by (rule prod_eqI) (code_simp, simp)
  from CreateSocketDir_attributes [OF this] show ?thesis by auto
qed

text \<open>
  C35. A creation that fails, at whatever step, leaves no socket directory behind as long as
  recursive removal works, and in every case leaves all unrelated paths untouched.
\<close>

theorem CreateSocketDir_failure_clean:
  assumes "socketFS_CreateSocketDir env p spec s = (Err e, s')"
  shows "((\<forall>t. fault env t (SRemoveAll p) = None) \<and> p \<noteq> ''.'' \<and> \<not> suffix ''/.'' p
            \<longrightarrow> \<not> dir_at (sf_host s') p)
       \<and> (\<forall>q. unrelated p q \<longrightarrow> files (sf_host s') q = files (sf_host s) q)"
proof (intro conjI impI allI)
  assume env: "(\<forall>t. fault env t (SRemoveAll p) = None) \<and> p \<noteq> ''.'' \<and> \<not> suffix ''/.'' p"
  have "fst (socketFS_RemoveSocketDir env p v) = Ok ()" for v
    using env by (simp add: socketFS_RemoveSocketDir_def os_RemoveAll_def)
  with assms show "\<not> dir_at (sf_host s') p" by (rule sfs.create_err)
next
  fix q assume "unrelated p q"
  with assms show "files (sf_host s') q = files (sf_host s) q" by (rule CreateSocketDir_frame)
qed

theorem CreateSocketDir_failure_clean_witness:
  "\<not> dir_at (sf_host (snd (socketFS_CreateSocketDir no_chown_env ''/var/x'' (Some sample_spec) fresh_socketFS)))
       ''/var/x''"
proof -
  let ?run = "socketFS_CreateSocketDir no_chown_env ''/var/x'' (Some sample_spec) fresh_socketFS"
  have "\<exists>e. fst ?run = Err e"
    by (simp add: go_defs Let_def no_chown_env_def fresh_socketFS_def sample_spec_def upt_rec)
  then obtain e where "?run = (Err e, snd ?run)" by (metis prod.collapse)
  from CreateSocketDir_failure_clean [OF this] show ?thesis
    by (simp add: no_chown_env_def suffix_def)
qed

text \<open>
  An omitted \<open>user\<close> or \<open>group\<close> is not "leave it as it is": the zero identity that
  decoding leaves in the spec resolves to 0, so a successful creation hands the directory
  to root, even one that belonged to somebody else before.
\<close>

theorem omitted_owner_becomes_root:
  assumes "socketFS_CreateSocketDir env p (Some sp) s = (Ok (), s')" and "p \<noteq> []"
    and "vu_User sp = zero_UserGroupID" and "vu_Group sp = zero_UserGroupID"
  shows "\<exists>i. files (sf_host s') p = Some i \<and> i_uid i = 0 \<and> i_gid i = 0"
  using CreateSocketDir_attributes_aux [OF assms(1,2)] assms(3,4)
  by (auto simp: known_uid_def known_gid_def zero_UserGroupID_def IsName_def)

theorem omitted_owner_becomes_root_witness:
  "\<exists>i. files (sf_host (snd (socketFS_CreateSocketDir calm_env ''/var/x''
          (Some (sample_spec\<lparr>vu_User := zero_UserGroupID, vu_Group := zero_UserGroupID\<rparr>)) fresh_socketFS)))
         ''/var/x'' = Some i \<and> i_uid i = 0 \<and> i_gid i = 0"
proof -
  let ?sp = "sample_spec\<lparr>vu_User := zero_UserGroupID, vu_Group := zero_UserGroupID\<rparr>"
  have "socketFS_CreateSocketDir calm_env ''/var/x'' (Some ?sp) fresh_socketFS
      = (Ok (), snd (socketFS_CreateSocketDir calm_env ''/var/x'' (Some ?sp) fresh_socketFS))"
    by (rule prod_eqI) (code_simp, simp)
  from omitted_owner_becomes_root [OF this] show ?thesis by simp
qed

text \<open>
  \<^verbatim>\<open>validateSELinuxLabel\<close> accepts a label exactly when it is four non-empty components
  joined by colons, the language of the pattern that the CRD declares for the field.
\<close>

theorem validateSELinuxLabel_iff:
  "validateSELinuxLabel label = None \<longleftrightarrow>
     (\<exists>u r t l. label = u @ '':'' @ r @ '':'' @ t @ '':'' @ l
        \<and> list_all (\<lambda>c. c \<noteq> [] \<and> CHR '':'' \<notin> set c) [u, r, t, l])"
  (is "?L = ?R")
proof
  assume ?L
  then obtain u r t l where parts: "strings_Split (CHR '':'') label = [u, r, t, l]"
    and ne: "u \<noteq> []" "r \<noteq> []" "t \<noteq> []" "l \<noteq> []"
    by (auto simp: validateSELinuxLabel_def Let_def length_Suc_conv eval_nat_numeral split: if_splits)
  have "label = u @ '':'' @ r @ '':'' @ t @ '':'' @ l"
    using strings_Join_Split [of "CHR '':''" label] parts by simp
  moreover have "\<forall>c \<in> {u, r, t, l}. CHR '':'' \<notin> set c"
    using strings_Split_no_sep [of _ "CHR '':''" label] parts by auto
  ultimately show ?R using ne by auto
next
  assume ?R
  then obtain u r t l where "label = u @ '':'' @ r @ '':'' @ t @ '':'' @ l"
    and c: "list_all (\<lambda>c. c \<noteq> [] \<and> CHR '':'' \<notin> set c) [u, r, t, l]" by blast
  then have "strings_Split (CHR '':'') label = [u, r, t, l]"
    by (simp add: strings_Split_append strings_Split_plain)
  with c show ?L by (auto simp: validateSELinuxLabel_def)
qed

end
