(* ===== verification/Pci.thy ===== *)
theory Pci
  imports ApiTypes
begin

text \<open>
  \<^verbatim>\<open>pkg/pci/pci.go\<close>: the PCI address in a DPDK devargs string, and the NUMA node that sysfs
  reports for a PCI address. Reading a file is an argument: a function from paths to
  contents or a read error.
\<close>

section \<open>Definitions\<close>

definition SysfsBaseDir :: string where
  "SysfsBaseDir = ''/sys''"

definition NodeForPCIAddr :: "(string \<Rightarrow> error + string) \<Rightarrow> string \<Rightarrow> error + int" where
  "NodeForPCIAddr readFile pciAddr =
     (let path = filepath_Join [SysfsBaseDir, ''bus'', ''pci'', ''devices'', pciAddr, ''numa_node'']
      in case readFile path of
           Inl err \<Rightarrow> Inl (Errorf ''read numa_node for PCI device %q: %w'' [AStr pciAddr] [err])
         | Inr data \<Rightarrow>
             (case strconv_Atoi (strings_TrimSpace data) of
                None \<Rightarrow> Inl (Errorf ''parse numa_node for PCI device %q: %w'' [AStr pciAddr]
                              [External ''strconv.Atoi''])
              | Some node \<Rightarrow> Inr node))"

definition is_hex :: "char \<Rightarrow> bool" where
  "is_hex c \<longleftrightarrow>
     (let n = (of_char c :: nat)
      in (48 \<le> n \<and> n \<le> 57) \<or> (97 \<le> n \<and> n \<le> 102) \<or> (65 \<le> n \<and> n \<le> 70))"

text \<open>
  The regular expression for DDDD:BB:SS.F: anchored at both ends, so it
  accepts exactly the strings of twelve characters with hexadecimal digits around two
  colons and a dot.
\<close>

definition pciAddrRe :: "string \<Rightarrow> bool" where
  "pciAddrRe s \<longleftrightarrow>
     (case s of
        [d1, d2, d3, d4, c1, b1, b2, c2, s1, s2, dt, f] \<Rightarrow>
          is_hex d1 \<and> is_hex d2 \<and> is_hex d3 \<and> is_hex d4 \<and> c1 = CHR '':'' \<and>
          is_hex b1 \<and> is_hex b2 \<and> c2 = CHR '':'' \<and> is_hex s1 \<and> is_hex s2 \<and>
          dt = CHR ''.'' \<and> is_hex f
      | _ \<Rightarrow> False)"

text \<open>\<^verbatim>\<open>fields[0]\<close> exists, because a split never gives an empty slice.\<close>

definition ParseDevargs :: "string \<Rightarrow> error + string" where
  "ParseDevargs devargs =
     (let fields = strings_Split (CHR '','') devargs
      in if pciAddrRe (hd fields) then Inr (hd fields)
         else Inl (Errorf ''unrecognized devargs format: %s'' [AStr devargs] []))"

section \<open>Lemmas\<close>

lemmas pci_defs [go_defs] =
  SysfsBaseDir_def NodeForPCIAddr_def is_hex_def pciAddrRe_def ParseDevargs_def

lemma pciAddrRe_cases:
  assumes "pciAddrRe s"
  obtains d1 d2 d3 d4 b1 b2 s1 s2 f where
    "s = [d1, d2, d3, d4, CHR '':'', b1, b2, CHR '':'', s1, s2, CHR ''.'', f]"
    and "\<forall>c \<in> {d1, d2, d3, d4, b1, b2, s1, s2, f}. is_hex c"
  using assms unfolding pciAddrRe_def by (auto split: list.splits)

lemma is_hex_not_sep: "is_hex c \<Longrightarrow> c \<noteq> CHR ''/'' \<and> c \<noteq> CHR '','' \<and> c \<noteq> CHR ''.''"
  by (auto simp: is_hex_def)

lemma pciAddrRe_plain: "pciAddrRe s \<Longrightarrow> plain_comp s \<and> CHR '','' \<notin> set s"
  by (erule pciAddrRe_cases) (auto simp: plain_comp_def dest: is_hex_not_sep)

lemma sysfs_path:
  assumes "plain_comp a"
  shows "filepath_Join [SysfsBaseDir, ''bus'', ''pci'', ''devices'', a, ''numa_node'']
       = ''/sys/bus/pci/devices/'' @ a @ ''/numa_node''"
proof -
  have "strings_Join ''/'' [SysfsBaseDir, ''bus'', ''pci'', ''devices'', a, ''numa_node'']
      = abs_path [''sys'', ''bus'', ''pci'', ''devices'', a, ''numa_node'']"
    by (simp add: SysfsBaseDir_def abs_path_def)
  moreover have "filepath_Clean (abs_path [''sys'', ''bus'', ''pci'', ''devices'', a, ''numa_node''])
      = abs_path [''sys'', ''bus'', ''pci'', ''devices'', a, ''numa_node'']"
    using assms by (intro filepath_Clean_abs_path) (auto simp: plain_comp_def)
  ultimately show ?thesis
    by (simp add: filepath_Join_def SysfsBaseDir_def abs_path_def)
qed

lemma dropWhile_space_digit: "digit_val (hd s) \<noteq> None \<Longrightarrow> s \<noteq> [] \<Longrightarrow> dropWhile is_space s = s"
  by (cases s) (auto simp: digit_val_def is_space_def Let_def split: if_splits)

lemma last_fmt_nat_digit: "digit_val (last (fmt_nat n)) \<noteq> None"
  by (subst fmt_nat.simps) (auto simp: digit_val_digit_char)

lemma fmt_int_edges:
  "hd (fmt_int i) = CHR ''-'' \<or> digit_val (hd (fmt_int i)) \<noteq> None"
  "digit_val (last (fmt_int i)) \<noteq> None" "fmt_int i \<noteq> []"
  using hd_fmt_nat_digit last_fmt_nat_digit by (auto simp: fmt_int_def)

lemma dropWhile_edge: "s \<noteq> [] \<Longrightarrow> \<not> P (hd s) \<Longrightarrow> dropWhile P (s @ t) = s @ t"
  by (cases s) auto

lemma TrimSpace_fmt_int: "strings_TrimSpace (fmt_int i @ ''\<newline>'') = fmt_int i"
proof -
  have edges: "\<not> is_space (hd (fmt_int i))" "\<not> is_space (last (fmt_int i))"
    using fmt_int_edges [of i] by (auto simp: is_space_def digit_val_def Let_def split: if_splits)
  then have "dropWhile is_space (fmt_int i @ ''\<newline>'') = fmt_int i @ ''\<newline>''"
    using fmt_int_edges(3) by (intro dropWhile_edge)
  moreover have "dropWhile is_space (rev (fmt_int i)) = rev (fmt_int i)"
    using dropWhile_edge [of "rev (fmt_int i)" is_space "[]"] edges fmt_int_edges(3) [of i]
    by (simp add: hd_rev)
  moreover have "is_space (CHR ''\<newline>'')" by (simp add: is_space_def)
  ultimately show ?thesis by (simp add: strings_TrimSpace_def)
qed

section \<open>Properties\<close>

text \<open>
  \<^verbatim>\<open>ParseDevargs\<close> succeeds exactly on devargs whose part before the first comma has the
  form of a canonical PCI address, and then returns that part unchanged.
\<close>

theorem ParseDevargs_iff:
  "ParseDevargs devargs = Inr a \<longleftrightarrow>
     a = takeWhile (\<lambda>c. c \<noteq> CHR '','') devargs \<and> pciAddrRe a"
  by (auto simp: ParseDevargs_def hd_strings_Split Let_def)

text \<open>
  Whatever the devargs of an OVS interface contain, the file that the NUMA lookup reads
  for a parsed address is the \<open>numa_node\<close> entry directly below that address in
  \<^verbatim>\<open>/sys/bus/pci/devices\<close>: path cleaning cannot lead out of the directory. A decimal
  node number followed by a newline, as the kernel prints it, is returned as it is, the
  value -1 included.
\<close>

theorem NodeForPCIAddr_reads_sysfs:
  assumes "ParseDevargs devargs = Inr a"
    and "readFile (''/sys/bus/pci/devices/'' @ a @ ''/numa_node'') = Inr (fmt_int n @ ''\<newline>'')"
    and "- (2 ^ 63) \<le> n" and "n < 2 ^ 63"
  shows "NodeForPCIAddr readFile a = Inr n"
proof -
  from assms(1) have "plain_comp a"
    by (auto simp: ParseDevargs_def Let_def split: if_splits dest: pciAddrRe_plain)
  with assms(2-4) show ?thesis
    by (simp add: NodeForPCIAddr_def sysfs_path TrimSpace_fmt_int strconv_Atoi_fmt_int)
qed

theorem NodeForPCIAddr_reads_sysfs_witness:
  "NodeForPCIAddr (\<lambda>p. if p = ''/sys/bus/pci/devices/0000:01:00.0/numa_node'' then Inr ''-1\<newline>''
                       else Inl (External ''ENOENT'')) ''0000:01:00.0'' = Inr (- 1)"
proof (rule NodeForPCIAddr_reads_sysfs [where devargs = "''0000:01:00.0,n_rxq=2''"])
  show "ParseDevargs ''0000:01:00.0,n_rxq=2'' = Inr ''0000:01:00.0''"
    by (simp add: ParseDevargs_def pciAddrRe_def is_hex_def)
  show "(if ''/sys/bus/pci/devices/'' @ ''0000:01:00.0'' @ ''/numa_node''
           = ''/sys/bus/pci/devices/0000:01:00.0/numa_node''
         then Inr ''-1\<newline>'' else Inl (External ''ENOENT'')) = Inr (fmt_int (- 1) @ ''\<newline>'')"
    by code_simp
qed simp_all

end
