(* ===== verification/Ovs.thy ===== *)
theory Ovs
  imports Pci "HOL-Library.Mapping" "HOL-Library.AList_Mapping"
begin

text \<open>
  \<^verbatim>\<open>pkg/ovs\<close>: the client of the Open vSwitch database. The library that talks to the
  database (libovsdb) is a parameter, a record of the calls that the client makes;
  the theory \<open>Ovsdb\<close> states what its documentation promises. Here are the row types
  (\<^verbatim>\<open>models.go\<close>), the port transactions, and the NUMA map that the interface events
  maintain (\<^verbatim>\<open>client.go\<close>).
\<close>

section \<open>Rows and events\<close>

record Bridge =
  br_UUID :: string
  br_Name :: string
  br_Ports :: "string list"
  br_DatapathType :: string

record Port =
  port_UUID :: string
  port_Name :: string
  port_Tag :: "int option"
  port_Interfaces :: "string list"
  port_ExternalIDs :: "string \<rightharpoonup> string"
  port_OtherConfig :: "string \<rightharpoonup> string"

record Interface =
  if_UUID :: string
  if_Name :: string
  if_Type :: string
  if_Options :: "string \<rightharpoonup> string"
  if_IngressPolicingRate :: int
  if_IngressPolicingBurst :: int
  if_MTURequest :: "int option"

datatype BridgeEventType = BridgeAdded | BridgeDeleted

record BridgeEvent =
  be_Name :: string
  be_Type :: BridgeEventType

record ifaceEvent =
  ev_uuid :: string
  ev_name :: string
  ev_devargs :: string
  ev_added :: bool

record OvsPortParams =
  ExternalIDs :: "string \<rightharpoonup> string"
  Vlan :: "int option"
  IngressRate :: int
  IngressBurst :: int
  Mtu :: int

section \<open>The client library\<close>

text \<open>
  The operations that the client asks the library to build: rows to create, the mutation
  of the port set of the bridge with a given name, and the two port queries.
\<close>

datatype Mutator = MutateOperationInsert | MutateOperationDelete

datatype ovs_call =
    CreateInterfaceRow Interface
  | CreatePortRow Port
  | MutateBridgePorts string Mutator "string list"
  | SelectPortByName string
  | SelectPortByInterface string

text \<open>
  \<open>'op\<close> and \<open>'res\<close> are the library's operations and results, \<open>'db\<close> the state of the
  connection, the server and the local cache. \<^verbatim>\<open>CheckOperationResults\<close> gives \<open>None\<close> when it
  finds no error, else the operation errors.
\<close>

record ('op, 'res, 'db) libovsdb =
  lib_build :: "ovs_call \<Rightarrow> error + 'op list"
  lib_Transact :: "'op list \<Rightarrow> 'db \<Rightarrow> (error + 'res list) \<times> 'db"
  lib_CheckOperationResults :: "'res list \<Rightarrow> 'op list \<Rightarrow> error list option"
  lib_GetSelectResults :: "'op list \<Rightarrow> 'res list \<Rightarrow> error + Port list"
  lib_GetBridge :: "string \<Rightarrow> 'db \<Rightarrow> error option"
  lib_ListBridgesWithPort :: "string \<Rightarrow> 'db \<Rightarrow> error + Bridge list"

text \<open>The methods of the Go interface \<^verbatim>\<open>ovs.Client\<close> that change the database, over any state.\<close>

record 'w Client =
  CreatePort :: "string \<Rightarrow> string \<Rightarrow> string \<Rightarrow> OvsPortParams \<Rightarrow> 'w \<Rightarrow> unit res \<times> 'w"
  DeletePort :: "string \<Rightarrow> string \<Rightarrow> 'w \<Rightarrow> unit res \<times> 'w"

section \<open>Ports\<close>

definition joinOpErrors :: "error list \<Rightarrow> error option" where
  "joinOpErrors opErrs = errors_Join opErrs"

definition opt_list :: "'a option \<Rightarrow> 'a list" where
  "opt_list x = (case x of None \<Rightarrow> [] | Some y \<Rightarrow> [y])"

definition new_iface :: "string \<Rightarrow> string \<Rightarrow> OvsPortParams \<Rightarrow> Interface" where
  "new_iface portName socketPath params =
     \<lparr>if_UUID = ''newiface'', if_Name = portName, if_Type = ''dpdkvhostuserclient'',
      if_Options = [''vhost-server-path'' \<mapsto> socketPath],
      if_IngressPolicingRate = IngressRate params, if_IngressPolicingBurst = IngressBurst params,
      if_MTURequest = Some (Mtu params)\<rparr>"

definition new_port :: "string \<Rightarrow> OvsPortParams \<Rightarrow> Port" where
  "new_port portName params =
     \<lparr>port_UUID = ''newport'', port_Name = portName, port_Tag = Vlan params,
      port_Interfaces = [''newiface''], port_ExternalIDs = ExternalIDs params,
      port_OtherConfig = [''transient'' \<mapsto> ''true'']\<rparr>"

definition ovsClient_CreatePort ::
  "('op, 'res, 'db) libovsdb \<Rightarrow> string \<Rightarrow> string \<Rightarrow> string \<Rightarrow> OvsPortParams \<Rightarrow> 'db \<Rightarrow> unit res \<times> 'db" where
  "ovsClient_CreatePort lib bridgeName portName socketPath params db =
     (case lib_build lib (CreateInterfaceRow (new_iface portName socketPath params)) of
        Inl err \<Rightarrow> (Err (Errorf ''build interface create op: %w'' [] [err]), db)
      | Inr ifaceOps \<Rightarrow>
     (case lib_build lib (CreatePortRow (new_port portName params)) of
        Inl err \<Rightarrow> (Err (Errorf ''build port create op: %w'' [] [err]), db)
      | Inr portOps \<Rightarrow>
     (case lib_build lib (MutateBridgePorts bridgeName MutateOperationInsert [''newport'']) of
        Inl err \<Rightarrow> (Err (Errorf ''build bridge mutate op: %w'' [] [err]), db)
      | Inr mutateOps \<Rightarrow>
          (let ops = ifaceOps @ portOps @ mutateOps
           in case lib_Transact lib ops db of
                (Inl err, db') \<Rightarrow> (Err (Errorf ''create port transaction: %w'' [] [err]), db')
              | (Inr results, db') \<Rightarrow>
                  (case lib_CheckOperationResults lib results ops of
                     Some opErrs \<Rightarrow>
                       (Err (Errorf ''create port %q on bridge %q: %w'' [AStr portName, AStr bridgeName]
                              (opt_list (joinOpErrors opErrs))), db')
                   | None \<Rightarrow> (Ok (), db'))))))"

definition findPortUUID ::
  "('op, 'res, 'db) libovsdb \<Rightarrow> string \<Rightarrow> 'db \<Rightarrow> (error + string) \<times> 'db" where
  "findPortUUID lib portName db =
     (case lib_build lib (SelectPortByName portName) of
        Inl err \<Rightarrow> (Inl (Errorf ''build select for port %q: %w'' [AStr portName] [err]), db)
      | Inr ops \<Rightarrow>
          (case lib_Transact lib ops db of
             (Inl err, db') \<Rightarrow> (Inl (Errorf ''select port %q: %w'' [AStr portName] [err]), db')
           | (Inr results, db') \<Rightarrow>
               (case lib_GetSelectResults lib ops results of
                  Inl err \<Rightarrow> (Inl (Errorf ''parse select results for port %q: %w'' [AStr portName] [err]), db')
                | Inr [] \<Rightarrow> (Inr [], db')
                | Inr (p # ps) \<Rightarrow> (Inr (port_UUID p), db'))))"

definition ovsClient_DeletePort ::
  "('op, 'res, 'db) libovsdb \<Rightarrow> string \<Rightarrow> string \<Rightarrow> 'db \<Rightarrow> unit res \<times> 'db" where
  "ovsClient_DeletePort lib bridgeName portName db =
     (case findPortUUID lib portName db of
        (Inl err, db1) \<Rightarrow> (Err err, db1)
      | (Inr portUUID, db1) \<Rightarrow>
          if portUUID = [] then (Err ErrPortNotFound, db1)
          else
            (case lib_build lib (MutateBridgePorts bridgeName MutateOperationDelete [portUUID]) of
               Inl err \<Rightarrow> (Err (Errorf ''build bridge mutate op: %w'' [] [err]), db1)
             | Inr ops \<Rightarrow>
                 (case lib_Transact lib ops db1 of
                    (Inl err, db2) \<Rightarrow> (Err (Errorf ''delete port transaction: %w'' [] [err]), db2)
                  | (Inr results, db2) \<Rightarrow>
                      (case lib_CheckOperationResults lib results ops of
                         Some opErrs \<Rightarrow>
                           (Err (Errorf ''delete port %q from bridge %q: %w''
                                  [AStr portName, AStr bridgeName] (opt_list (joinOpErrors opErrs))), db2)
                       | None \<Rightarrow> (Ok (), db2)))))"

definition ovsClient_BridgeExists ::
  "('op, 'res, 'db) libovsdb \<Rightarrow> string \<Rightarrow> 'db \<Rightarrow> error + bool" where
  "ovsClient_BridgeExists lib name db =
     (case lib_GetBridge lib name db of
        None \<Rightarrow> Inr True
      | Some err \<Rightarrow> if err = ErrClientNotFound then Inr False else Inl err)"

section \<open>From an interface to its bridge\<close>

definition findPortWithIface ::
  "('op, 'res, 'db) libovsdb \<Rightarrow> string \<Rightarrow> 'db \<Rightarrow> (error + Port) \<times> 'db" where
  "findPortWithIface lib ifaceUUID db =
     (case lib_build lib (SelectPortByInterface ifaceUUID) of
        Inl err \<Rightarrow> (Inl (Errorf ''build select for port with interface %q: %w'' [AStr ifaceUUID] [err]), db)
      | Inr ops \<Rightarrow>
          (case lib_Transact lib ops db of
             (Inl err, db') \<Rightarrow> (Inl (Errorf ''select port with interface %q: %w'' [AStr ifaceUUID] [err]), db')
           | (Inr results, db') \<Rightarrow>
               (case lib_GetSelectResults lib ops results of
                  Inl err \<Rightarrow> (Inl (Errorf ''parse select results for port with interface %q: %w''
                                    [AStr ifaceUUID] [err]), db')
                | Inr [] \<Rightarrow> (Inl ErrPortNotFound, db')
                | Inr [p] \<Rightarrow> (Inr p, db')
                | Inr (p # q # ps) \<Rightarrow>
                    (Inl (Errorf ''more than one port with interface %q'' [AStr ifaceUUID] []), db'))))"

definition findBridgeWithPort ::
  "('op, 'res, 'db) libovsdb \<Rightarrow> Port option \<Rightarrow> 'db \<Rightarrow> error + Bridge" where
  "findBridgeWithPort lib port db =
     (case port of
        None \<Rightarrow> Inl ErrBridgeNotFound
      | Some p \<Rightarrow>
          (case lib_ListBridgesWithPort lib (port_UUID p) db of
             Inl err \<Rightarrow> Inl err
           | Inr [] \<Rightarrow> Inl ErrBridgeNotFound
           | Inr [b] \<Rightarrow> Inr b
           | Inr (b # b' # bs) \<Rightarrow> Inl (Errorf ''more than one bridge with port %s'' [AStr (port_Name p)] [])))"

section \<open>The NUMA map and the events that change it\<close>

text \<open>
  The mutable part of the \<^verbatim>\<open>ovsClient\<close> struct: the map from bridge name and interface UUID
  to NUMA node, the buffered channel of interface events, and which callbacks are set.
\<close>

record ovsClient =
  numaMap :: "string \<rightharpoonup> (string, int) mapping"
  ifaceCh :: "ifaceEvent list"
  bridgeNotifier :: bool
  ifaceNotifier :: bool

definition ifaceCh_cap :: nat where
  "ifaceCh_cap = 16"

definition new_ovsClient :: ovsClient where
  "new_ovsClient = \<lparr>numaMap = Map.empty, ifaceCh = [], bridgeNotifier = False, ifaceNotifier = False\<rparr>"

text \<open>The \<open>select\<close> with a default case: a full channel drops the event.\<close>

definition send_iface :: "ifaceEvent \<Rightarrow> ovsClient \<Rightarrow> ovsClient" where
  "send_iface ev c = (if length (ifaceCh c) < ifaceCh_cap then c\<lparr>ifaceCh := ifaceCh c @ [ev]\<rparr> else c)"

definition getBridgeNotifier :: "ovsClient \<Rightarrow> bool" where
  [simp]: "getBridgeNotifier c = bridgeNotifier c"

definition getIfaceNotifier :: "ovsClient \<Rightarrow> bool" where
  [simp]: "getIfaceNotifier c = ifaceNotifier c"

datatype cache_row = BridgeRow Bridge | InterfaceRow Interface | OtherRow

text \<open>
  The cache handlers of \<^verbatim>\<open>startMonitor\<close>: the new state and the bridge events they hand to
  the notifier.
\<close>

definition monitor_AddFunc :: "cache_row \<Rightarrow> ovsClient \<Rightarrow> BridgeEvent list \<times> ovsClient" where
  "monitor_AddFunc row c =
     (case row of
        BridgeRow br \<Rightarrow>
          (if getBridgeNotifier c then [\<lparr>be_Name = br_Name br, be_Type = BridgeAdded\<rparr>] else [], c)
      | InterfaceRow i \<Rightarrow>
          ([], send_iface \<lparr>ev_uuid = if_UUID i, ev_name = if_Name i,
                 ev_devargs = (case if_Options i ''dpdk-devargs'' of None \<Rightarrow> [] | Some d \<Rightarrow> d),
                 ev_added = True\<rparr> c)
      | OtherRow \<Rightarrow> ([], c))"

definition monitor_DeleteFunc :: "cache_row \<Rightarrow> ovsClient \<Rightarrow> BridgeEvent list \<times> ovsClient" where
  "monitor_DeleteFunc row c =
     (case row of
        BridgeRow br \<Rightarrow>
          (if getBridgeNotifier c then [\<lparr>be_Name = br_Name br, be_Type = BridgeDeleted\<rparr>] else [],
           c\<lparr>numaMap := (numaMap c)(br_Name br := None)\<rparr>)
      | InterfaceRow i \<Rightarrow>
          ([], send_iface \<lparr>ev_uuid = if_UUID i, ev_name = if_Name i, ev_devargs = [], ev_added = False\<rparr> c)
      | OtherRow \<Rightarrow> ([], c))"

definition SetBridgeNotifier :: "bool \<Rightarrow> ovsClient \<Rightarrow> ovsClient" where
  "SetBridgeNotifier fn c = c\<lparr>bridgeNotifier := fn\<rparr>"

definition SetInterfaceNotifier :: "bool \<Rightarrow> ovsClient \<Rightarrow> ovsClient" where
  "SetInterfaceNotifier fn c = c\<lparr>ifaceNotifier := fn\<rparr>"

text \<open>
  \<^verbatim>\<open>handleInterfaceAdd\<close>: the bridges handed to the interface notifier, the client, and the
  database connection. Every error ends it without a change of the map.
\<close>

definition handleInterfaceAdd ::
  "(string \<Rightarrow> error + string) \<Rightarrow> ('op, 'res, 'db) libovsdb \<Rightarrow> ifaceEvent \<Rightarrow> ovsClient \<Rightarrow> 'db
   \<Rightarrow> string list \<times> ovsClient \<times> 'db" where
  "handleInterfaceAdd readFile lib ev c db =
     (case ParseDevargs (ev_devargs ev) of
        Inl _ \<Rightarrow> ([], c, db)
      | Inr pciAddr \<Rightarrow>
     (case NodeForPCIAddr readFile pciAddr of
        Inl _ \<Rightarrow> ([], c, db)
      | Inr numaNode \<Rightarrow>
     (case findPortWithIface lib (ev_uuid ev) db of
        (Inl _, db') \<Rightarrow> ([], c, db')
      | (Inr port, db') \<Rightarrow>
     (case findBridgeWithPort lib (Some port) db' of
        Inl _ \<Rightarrow> ([], c, db')
      | Inr bridge \<Rightarrow>
          (let old = (case numaMap c (br_Name bridge) of None \<Rightarrow> Mapping.empty | Some m \<Rightarrow> m);
               c' = c\<lparr>numaMap := (numaMap c)(br_Name bridge \<mapsto> Mapping.update (ev_uuid ev) numaNode old)\<rparr>
           in (if getIfaceNotifier c then [br_Name bridge] else [], c', db'))))))"

text \<open>
  \<^verbatim>\<open>handleInterfaceDelete\<close>: the loop over the map stops at the first bridge, in the order of
  the range, that knows the interface; an inner map that becomes empty is dropped.
\<close>

definition remove_iface :: "string \<Rightarrow> (string, int) mapping \<Rightarrow> (string, int) mapping option" where
  "remove_iface uuid m =
     (let m' = Mapping.delete uuid m in if Mapping.is_empty m' then None else Some m')"

definition handleInterfaceDelete ::
  "string list \<Rightarrow> ifaceEvent \<Rightarrow> ovsClient \<Rightarrow> string list \<times> ovsClient" where
  "handleInterfaceDelete order ev c =
     (case List.find (\<lambda>b. case numaMap c b of None \<Rightarrow> False | Some m \<Rightarrow> Mapping.lookup m (ev_uuid ev) \<noteq> None) order of
        None \<Rightarrow> ([], c)
      | Some b \<Rightarrow>
          (let m = the (numaMap c b);
               c' = c\<lparr>numaMap := (numaMap c)(b := remove_iface (ev_uuid ev) m)\<rparr>
           in if b = [] then ([], c')
              else (if getIfaceNotifier c then [b] else [], c')))"

text \<open>One round of \<^verbatim>\<open>processInterfaceEvents\<close>: it takes the oldest event, or blocks on an empty channel.\<close>

definition processInterfaceEvent ::
  "(string \<Rightarrow> error + string) \<Rightarrow> ('op, 'res, 'db) libovsdb \<Rightarrow> string list \<Rightarrow> ovsClient \<Rightarrow> 'db
   \<Rightarrow> (string list \<times> ovsClient \<times> 'db) option" where
  "processInterfaceEvent readFile lib order c db =
     (case ifaceCh c of
        [] \<Rightarrow> None
      | ev # evs \<Rightarrow>
          (let c1 = c\<lparr>ifaceCh := evs\<rparr>
           in if ev_added ev then Some (handleInterfaceAdd readFile lib ev c1 db)
              else (case handleInterfaceDelete order ev c1 of (ns, c2) \<Rightarrow> Some (ns, c2, db))))"

text \<open>\<^verbatim>\<open>BridgeNUMANodes\<close>: the nodes in the order of the range, each once.\<close>

fun dedup_nodes :: "(string, int) mapping \<Rightarrow> int list \<Rightarrow> string list \<Rightarrow> int list" where
  "dedup_nodes m seen [] = []"
| "dedup_nodes m seen (k # ks) =
     (case Mapping.lookup m k of
        None \<Rightarrow> dedup_nodes m seen ks
      | Some node \<Rightarrow> if node \<in> set seen then dedup_nodes m seen ks
                     else node # dedup_nodes m (node # seen) ks)"

definition ovsClient_BridgeNUMANodes ::
  "((string, int) mapping \<Rightarrow> string list) \<Rightarrow> string \<Rightarrow> ovsClient \<Rightarrow> int list" where
  "ovsClient_BridgeNUMANodes order bridgeName c =
     (case numaMap c bridgeName of
        None \<Rightarrow> []
      | Some ifaces \<Rightarrow> if Mapping.is_empty ifaces then [] else dedup_nodes ifaces [] (order ifaces))"

lemmas ovs_defs [go_defs] =
  joinOpErrors_def opt_list_def new_iface_def new_port_def ovsClient_CreatePort_def findPortUUID_def
  ovsClient_DeletePort_def ovsClient_BridgeExists_def findPortWithIface_def findBridgeWithPort_def
  ifaceCh_cap_def new_ovsClient_def send_iface_def monitor_AddFunc_def monitor_DeleteFunc_def
  SetBridgeNotifier_def SetInterfaceNotifier_def handleInterfaceAdd_def handleInterfaceDelete_def
  remove_iface_def processInterfaceEvent_def ovsClient_BridgeNUMANodes_def

section \<open>The client as a state machine\<close>

text \<open>
  The cache goroutine runs the monitor handlers, another goroutine consumes the channel,
  other goroutines set callbacks, and the database changes on its own. A step is one of
  these; the relation allows every interleaving.
\<close>

inductive ovs_step ::
  "(string \<Rightarrow> error + string) \<Rightarrow> ('op, 'res, 'db) libovsdb \<Rightarrow> ovsClient \<times> 'db \<Rightarrow> ovsClient \<times> 'db \<Rightarrow> bool"
  for readFile lib where
  row_added: "monitor_AddFunc row c = (es, c') \<Longrightarrow> ovs_step readFile lib (c, db) (c', db)"
| row_deleted: "monitor_DeleteFunc row c = (es, c') \<Longrightarrow> ovs_step readFile lib (c, db) (c', db)"
| event_consumed: "range_order (numaMap c) order \<Longrightarrow>
     processInterfaceEvent readFile lib order c db = Some (ns, c', db') \<Longrightarrow>
     ovs_step readFile lib (c, db) (c', db')"
| notifiers_set: "ovs_step readFile lib (c, db) (SetBridgeNotifier f (SetInterfaceNotifier g c), db)"
| database_changed: "ovs_step readFile lib (c, db) (c, db')"

inductive ovs_reachable ::
  "(string \<Rightarrow> error + string) \<Rightarrow> ('op, 'res, 'db) libovsdb \<Rightarrow> ovsClient \<times> 'db \<Rightarrow> bool"
  for readFile lib where
  ovs_start: "ovs_reachable readFile lib (new_ovsClient, db)"
| ovs_next: "ovs_reachable readFile lib s \<Longrightarrow> ovs_step readFile lib s s' \<Longrightarrow> ovs_reachable readFile lib s'"

text \<open>
  The invariant: finitely many bridges, none with an empty inner map, a channel within
  its capacity, and every node in the map read from sysfs for a well-formed address.
\<close>

definition sysfs_node :: "(string \<Rightarrow> error + string) \<Rightarrow> int \<Rightarrow> bool" where
  "sysfs_node readFile n \<longleftrightarrow>
     (\<exists>devargs a. ParseDevargs devargs = Inr a \<and> NodeForPCIAddr readFile a = Inr n)"

definition numa_inv :: "(string \<Rightarrow> error + string) \<Rightarrow> ovsClient \<Rightarrow> bool" where
  "numa_inv readFile c \<longleftrightarrow>
     finite (dom (numaMap c)) \<and> length (ifaceCh c) \<le> ifaceCh_cap \<and>
     (\<forall>b m. numaMap c b = Some m \<longrightarrow> \<not> Mapping.is_empty m \<and> finite (Mapping.keys m)) \<and>
     (\<forall>b m u n. numaMap c b = Some m \<longrightarrow> Mapping.lookup m u = Some n \<longrightarrow>
        sysfs_node readFile n)"

section \<open>Lemmas\<close>

lemma mapping_is_empty_iff: "Mapping.is_empty m \<longleftrightarrow> (\<forall>k. Mapping.lookup m k = None)"
  by (auto simp: Mapping.is_empty_def keys_dom_lookup)

lemma mapping_lookup_delete: "Mapping.lookup (Mapping.delete k m) x = (if x = k then None else Mapping.lookup m x)"
  by simp

lemma mapping_lookup_update: "Mapping.lookup (Mapping.update k v m) x = (if x = k then Some v else Mapping.lookup m x)"
  by simp

lemma numa_invD:
  assumes "numa_inv readFile c" and "numaMap c b = Some m"
  shows "\<not> Mapping.is_empty m" and "finite (Mapping.keys m)"
    and "Mapping.lookup m u = Some n \<Longrightarrow>
      sysfs_node readFile n"
  using assms by (auto simp: numa_inv_def)

text \<open>Replacing the inner map of one bridge by nothing or by a sound non-empty one keeps the invariant.\<close>

lemma numa_inv_update:
  assumes "numa_inv readFile c" and "length evs \<le> ifaceCh_cap"
    and "\<And>m. x = Some m \<Longrightarrow> \<not> Mapping.is_empty m \<and> finite (Mapping.keys m)"
    and "\<And>m u n. x = Some m \<Longrightarrow> Mapping.lookup m u = Some n \<Longrightarrow>
      sysfs_node readFile n"
  shows "numa_inv readFile (c\<lparr>ifaceCh := evs, numaMap := (numaMap c)(b := x)\<rparr>)"
proof -
  have "finite (dom ((numaMap c)(b := x)))"
    using assms(1) by (cases x) (auto simp: numa_inv_def)
  with assms show ?thesis unfolding numa_inv_def by auto
qed

lemma numa_inv_ch: "numa_inv readFile c \<Longrightarrow> length evs \<le> ifaceCh_cap \<Longrightarrow> numa_inv readFile (c\<lparr>ifaceCh := evs\<rparr>)"
  by (simp add: numa_inv_def)

lemma numa_inv_new: "numa_inv readFile new_ovsClient"
  by (simp add: numa_inv_def new_ovsClient_def)

lemma numa_inv_send: "numa_inv readFile c \<Longrightarrow> numa_inv readFile (send_iface ev c)"
  by (auto simp: send_iface_def ifaceCh_cap_def intro!: numa_inv_ch)

lemma numa_inv_AddFunc: "monitor_AddFunc row c = (es, c') \<Longrightarrow> numa_inv readFile c \<Longrightarrow> numa_inv readFile c'"
  by (auto simp: monitor_AddFunc_def intro: numa_inv_send split: cache_row.splits)

lemma numa_inv_DeleteFunc:
  assumes "monitor_DeleteFunc row c = (es, c')" and "numa_inv readFile c"
  shows "numa_inv readFile c'"
proof (cases row)
  case (BridgeRow br)
  have "numa_inv readFile (c\<lparr>ifaceCh := ifaceCh c, numaMap := (numaMap c)(br_Name br := None)\<rparr>)"
    using assms(2) by (intro numa_inv_update) (auto simp: numa_inv_def)
  with BridgeRow assms(1) show ?thesis by (auto simp: monitor_DeleteFunc_def)
qed (use assms in \<open>auto simp: monitor_DeleteFunc_def intro: numa_inv_send\<close>)

lemma numa_inv_InterfaceAdd:
  assumes "handleInterfaceAdd readFile lib ev c db = (ns, c', db')" and inv: "numa_inv readFile c"
  shows "numa_inv readFile c'"
proof (cases "c' = c")
  case True
  with inv show ?thesis by simp
next
  case False
  from assms(1) False obtain n b where a: "sysfs_node readFile n" and
    c': "c' = c\<lparr>numaMap := (numaMap c)(b \<mapsto> Mapping.update (ev_uuid ev) n
                 (case numaMap c b of None \<Rightarrow> Mapping.empty | Some m \<Rightarrow> m))\<rparr>"
    by (auto simp: handleInterfaceAdd_def Let_def sysfs_node_def split: sum.splits prod.splits)
  have "numa_inv readFile (c\<lparr>ifaceCh := ifaceCh c, numaMap := (numaMap c)(b := Some (Mapping.update (ev_uuid ev) n
                 (case numaMap c b of None \<Rightarrow> Mapping.empty | Some m \<Rightarrow> m)))\<rparr>)"
  proof (rule numa_inv_update [OF inv])
    show "length (ifaceCh c) \<le> ifaceCh_cap" using inv by (simp add: numa_inv_def)
  next
    fix m assume "Some (Mapping.update (ev_uuid ev) n
      (case numaMap c b of None \<Rightarrow> Mapping.empty | Some m \<Rightarrow> m)) = Some m"
    then show "\<not> Mapping.is_empty m \<and> finite (Mapping.keys m)"
      by (auto simp: mapping_is_empty_iff mapping_lookup_update dest: numa_invD(2) [OF inv]
          split: option.splits)
  next
    fix m u k assume "Some (Mapping.update (ev_uuid ev) n
      (case numaMap c b of None \<Rightarrow> Mapping.empty | Some m \<Rightarrow> m)) = Some m" and "Mapping.lookup m u = Some k"
    then show "sysfs_node readFile k"
      using a numa_invD(3) [OF inv] by (auto simp: mapping_lookup_update split: option.splits if_splits)
  qed
  with c' show ?thesis by simp
qed

lemma numa_inv_InterfaceDelete:
  assumes "handleInterfaceDelete order ev c = (ns, c')" and inv: "numa_inv readFile c"
  shows "numa_inv readFile c'"
proof (cases "c' = c")
  case True
  with inv show ?thesis by simp
next
  case False
  from assms(1) False obtain b where
    f: "List.find (\<lambda>b. case numaMap c b of None \<Rightarrow> False | Some m \<Rightarrow> Mapping.lookup m (ev_uuid ev) \<noteq> None) order = Some b"
    by (auto simp: handleInterfaceDelete_def split: option.splits)
  then obtain m where m: "numaMap c b = Some m"
    by (auto simp: find_Some_iff split: option.splits)
  have "numa_inv readFile (c\<lparr>ifaceCh := ifaceCh c, numaMap := (numaMap c)(b := remove_iface (ev_uuid ev) m)\<rparr>)"
    using inv numa_invD(2,3) [OF inv m]
    by (intro numa_inv_update)
      (auto simp: numa_inv_def remove_iface_def Let_def mapping_lookup_delete split: if_splits)
  with assms(1) f m show ?thesis by (auto simp: handleInterfaceDelete_def Let_def split: if_splits)
qed

lemma numa_inv_process:
  assumes "processInterfaceEvent readFile lib order c db = Some (ns, c', db')" and inv: "numa_inv readFile c"
  shows "numa_inv readFile c'"
proof -
  from assms(1) obtain ev evs where ch: "ifaceCh c = ev # evs"
    by (auto simp: processInterfaceEvent_def split: list.splits)
  with inv have "numa_inv readFile (c\<lparr>ifaceCh := evs\<rparr>)" by (intro numa_inv_ch) (auto simp: numa_inv_def)
  with assms(1) ch show ?thesis
    by (auto simp: processInterfaceEvent_def Let_def split: if_splits prod.splits
        dest: numa_inv_InterfaceAdd numa_inv_InterfaceDelete)
qed

lemma ovs_step_inv: "ovs_step readFile lib s s' \<Longrightarrow> numa_inv readFile (fst s) \<Longrightarrow> numa_inv readFile (fst s')"
proof (induction rule: ovs_step.induct)
  case (notifiers_set c db f g)
  then show ?case by (simp add: numa_inv_def SetBridgeNotifier_def SetInterfaceNotifier_def)
qed (auto dest: numa_inv_AddFunc numa_inv_DeleteFunc numa_inv_process)

lemma reachable_numa_inv: "ovs_reachable readFile lib s \<Longrightarrow> numa_inv readFile (fst s)"
  by (induction rule: ovs_reachable.induct) (auto intro: numa_inv_new ovs_step_inv)

lemma dedup_nodes_set:
  "set (dedup_nodes m seen ks) = {n. \<exists>k \<in> set ks. Mapping.lookup m k = Some n} - set seen"
  by (induction m seen ks rule: dedup_nodes.induct) (auto split: option.splits)

lemma dedup_nodes_distinct: "distinct (dedup_nodes m seen ks)"
  by (induction m seen ks rule: dedup_nodes.induct) (auto simp: dedup_nodes_set split: option.splits)

lemma BridgeNUMANodes_Some:
  assumes "numaMap c b = Some m" and "set (order m) = Mapping.keys m"
  shows "set (ovsClient_BridgeNUMANodes order b c) = {n. \<exists>u. Mapping.lookup m u = Some n}"
    and "distinct (ovsClient_BridgeNUMANodes order b c)"
proof -
  have "Mapping.lookup m u = Some n \<Longrightarrow> u \<in> Mapping.keys m" for u n
    by (auto simp: keys_dom_lookup)
  with assms show "set (ovsClient_BridgeNUMANodes order b c) = {n. \<exists>u. Mapping.lookup m u = Some n}"
    by (auto simp: ovsClient_BridgeNUMANodes_def dedup_nodes_set mapping_is_empty_iff)
  show "distinct (ovsClient_BridgeNUMANodes order b c)"
    using assms by (simp add: ovsClient_BridgeNUMANodes_def dedup_nodes_distinct)
qed

text \<open>Deleting an interface that the map did not know before it was added restores the inner map.\<close>

lemma delete_update_fresh:
  "Mapping.lookup m u = None \<Longrightarrow> Mapping.delete u (Mapping.update u n m) = m"
  by (rule mapping_eqI) (simp add: mapping_lookup_delete mapping_lookup_update)

lemma handleInterfaceDelete_unknown:
  assumes "\<And>b m. numaMap c b = Some m \<Longrightarrow> Mapping.lookup m (ev_uuid ev) = None"
  shows "handleInterfaceDelete order ev c = ([], c)"
proof -
  have "List.find (\<lambda>b. case numaMap c b of None \<Rightarrow> False | Some m \<Rightarrow> Mapping.lookup m (ev_uuid ev) \<noteq> None) order = None"
    using assms by (auto simp: find_None_iff split: option.splits)
  then show ?thesis by (simp add: handleInterfaceDelete_def)
qed

lemma handleInterfaceDelete_only:
  assumes "range_order (numaMap c) order" and "numaMap c b = Some m" and "Mapping.lookup m (ev_uuid ev) \<noteq> None"
    and "\<And>b' m'. numaMap c b' = Some m' \<Longrightarrow> b' \<noteq> b \<Longrightarrow> Mapping.lookup m' (ev_uuid ev) = None"
  shows "numaMap (snd (handleInterfaceDelete order ev c)) = (numaMap c)(b := remove_iface (ev_uuid ev) m)"
proof -
  let ?P = "\<lambda>b. case numaMap c b of None \<Rightarrow> False | Some m \<Rightarrow> Mapping.lookup m (ev_uuid ev) \<noteq> None"
  have "b \<in> set order" using assms(1,2) by (auto simp: range_order_def)
  moreover have "?P b" using assms(2,3) by simp
  ultimately obtain b' where b': "List.find ?P order = Some b'"
    by (metis (no_types, lifting) find_None_iff not_Some_eq)
  then have "?P b'" by (auto simp: find_Some_iff)
  then have "b' = b" using assms(4) [of b'] by (auto split: option.splits)
  with b' assms(2) show ?thesis by (simp add: handleInterfaceDelete_def Let_def)
qed

end
