(* ===== verification/Cdi.thy ===== *)
theory Cdi
  imports ApiTypes
begin

text \<open>
  \<^verbatim>\<open>pkg/cdi/cdi.go\<close>: the CDI spec file of a claim. The CDI library (spec cache, name
  generation, qualified names) is a parameter; the locale \<open>cdi_files\<close> states what its
  documentation promises about spec files and derives the contract of the handler.
\<close>

section \<open>Specs\<close>

record Mount =
  m_HostPath :: string
  m_ContainerPath :: string
  m_Options :: "string list"

record CdiDevice =
  cd_Name :: string
  cd_Mounts :: "Mount list"

record Spec =
  spec_Version :: string
  spec_Kind :: string
  spec_Devices :: "CdiDevice list"

text \<open>The functions of the library that the handler calls, over a state \<open>'w\<close> that holds the spec directory.\<close>

record 'w cdi_lib =
  cdi_WriteSpec :: "Spec \<Rightarrow> string \<Rightarrow> 'w \<Rightarrow> error option \<times> 'w"
  cdi_RemoveSpec :: "string \<Rightarrow> 'w \<Rightarrow> error option \<times> 'w"
  cdi_GenerateTransientSpecName :: "string \<Rightarrow> string \<Rightarrow> string \<Rightarrow> string"
  cdi_QualifiedName :: "string \<Rightarrow> string \<Rightarrow> string \<Rightarrow> string"

text \<open>The handler is the library's spec cache over the one directory; \<open>newCache\<close> is the library's constructor.\<close>

definition cdi_New :: "(string list \<Rightarrow> error + 'cache) \<Rightarrow> string \<Rightarrow> error + 'cache" where
  "cdi_New newCache cdiRoot =
     (case newCache [cdiRoot] of
        Inl err \<Rightarrow> Inl (Errorf ''unable to create a new CDI cache: %w'' [] [err])
      | Inr cache \<Rightarrow> Inr cache)"

definition cdiVendor :: string where
  "cdiVendor = DriverName"

definition cdiClass :: string where
  "cdiClass = ''vhost-user''"

definition cdiKind :: string where
  "cdiKind = cdiVendor @ ''/'' @ cdiClass"

section \<open>The handler\<close>

text \<open>The \<^verbatim>\<open>Sprintf("%s-%s-%s", ...)\<close> of both functions below.\<close>

definition device_name :: "string \<Rightarrow> string \<Rightarrow> string \<Rightarrow> string" where
  "device_name claimUID device request = claimUID @ ''-'' @ device @ ''-'' @ request"

definition DeviceID :: "'w cdi_lib \<Rightarrow> string \<Rightarrow> string \<Rightarrow> string \<Rightarrow> string" where
  "DeviceID lib claimUID device request =
     cdi_QualifiedName lib cdiVendor cdiClass (device_name claimUID device request)"

text \<open>One round of the loop; indexing an empty \<^verbatim>\<open>Requests\<close> slice panics.\<close>

definition cdi_device :: "string \<Rightarrow> PreparedDevice \<Rightarrow> CdiDevice res" where
  "cdi_device claimUID pd =
     (case kd_Requests (pd_Device pd) of
        [] \<Rightarrow> Panic ''index out of range [0] with length 0''
      | request # _ \<Rightarrow>
          Ok \<lparr>cd_Name = device_name claimUID (kd_DeviceName (pd_Device pd)) request,
              cd_Mounts = [\<lparr>m_HostPath = HostDir (pd_Mount pd), m_ContainerPath = ContainerDir (pd_Mount pd),
                            m_Options = [''bind'', ''rw'']\<rparr>]\<rparr>)"

fun cdi_devices :: "string \<Rightarrow> PreparedDevice list \<Rightarrow> CdiDevice list res" where
  "cdi_devices claimUID [] = Ok []"
| "cdi_devices claimUID (pd # pds) =
     (case cdi_device claimUID pd of
        Ok d \<Rightarrow> (case cdi_devices claimUID pds of Ok ds \<Rightarrow> Ok (d # ds) | Err e \<Rightarrow> Err e | Panic m \<Rightarrow> Panic m)
      | Err e \<Rightarrow> Err e
      | Panic m \<Rightarrow> Panic m)"

definition CreateClaimSpecFile :: "'w cdi_lib \<Rightarrow> PreparedDevice list \<Rightarrow> 'w \<Rightarrow> unit res \<times> 'w" where
  "CreateClaimSpecFile lib preparedDevices w =
     (case preparedDevices of
        [] \<Rightarrow> (Panic ''index out of range [0] with length 0'', w)
      | first # _ \<Rightarrow>
          (let claimUID = no_UID (ClaimNamespacedName first);
               specName = cdi_GenerateTransientSpecName lib cdiVendor cdiClass claimUID
           in case cdi_devices claimUID preparedDevices of
                Panic m \<Rightarrow> (Panic m, w)
              | Err e \<Rightarrow> (Err e, w)
              | Ok cdiDevices \<Rightarrow>
                  (let raw = \<lparr>spec_Version = ''0.6.0'', spec_Kind = cdiKind, spec_Devices = cdiDevices\<rparr>
                   in case cdi_WriteSpec lib raw specName w of
                        (Some err, w') \<Rightarrow> (Err (Errorf ''write CDI: %w'' [] [err]), w')
                      | (None, w') \<Rightarrow> (Ok (), w'))))"

definition DeleteClaimSpecFile :: "'w cdi_lib \<Rightarrow> string \<Rightarrow> 'w \<Rightarrow> unit res \<times> 'w" where
  "DeleteClaimSpecFile lib claimUID w =
     (let specName = cdi_GenerateTransientSpecName lib cdiVendor cdiClass claimUID
      in case cdi_RemoveSpec lib specName w of
           (Some err, w') \<Rightarrow> (Err (Errorf ''remove CDI spec for claim %s: %w'' [AStr claimUID] [err]), w')
         | (None, w') \<Rightarrow> (Ok (), w'))"

lemmas cdi_defs [go_defs] =
  cdiVendor_def cdiClass_def cdiKind_def device_name_def DeviceID_def cdi_device_def
  CreateClaimSpecFile_def DeleteClaimSpecFile_def

section \<open>Shape of the spec\<close>

definition has_request :: "PreparedDevice \<Rightarrow> bool" where
  "has_request pd \<longleftrightarrow> kd_Requests (pd_Device pd) \<noteq> []"

text \<open>The device that the loop makes when there is a request.\<close>

definition device_of :: "string \<Rightarrow> PreparedDevice \<Rightarrow> CdiDevice" where
  "device_of uid pd =
     \<lparr>cd_Name = device_name uid (kd_DeviceName (pd_Device pd)) (hd (kd_Requests (pd_Device pd))),
      cd_Mounts = [\<lparr>m_HostPath = HostDir (pd_Mount pd), m_ContainerPath = ContainerDir (pd_Mount pd),
                    m_Options = [''bind'', ''rw'']\<rparr>]\<rparr>"

definition spec_of :: "string \<Rightarrow> PreparedDevice list \<Rightarrow> Spec" where
  "spec_of uid pds = \<lparr>spec_Version = ''0.6.0'', spec_Kind = cdiKind, spec_Devices = map (device_of uid) pds\<rparr>"

lemma cdi_device_Ok: "has_request pd \<Longrightarrow> cdi_device uid pd = Ok (device_of uid pd)"
  by (auto simp: has_request_def cdi_device_def device_of_def split: list.split)

lemma cdi_devices_Ok: "list_all has_request pds \<Longrightarrow> cdi_devices uid pds = Ok (map (device_of uid) pds)"
  by (induction pds) (simp_all add: cdi_device_Ok)

lemma CreateClaimSpecFile_eq:
  assumes "pds \<noteq> []" and "list_all has_request pds" and "uid = no_UID (ClaimNamespacedName (hd pds))"
  shows "CreateClaimSpecFile lib pds w =
    (case cdi_WriteSpec lib (spec_of uid pds) (cdi_GenerateTransientSpecName lib cdiVendor cdiClass uid) w of
       (Some err, w') \<Rightarrow> (Err (Errorf ''write CDI: %w'' [] [err]), w')
     | (None, w') \<Rightarrow> (Ok (), w'))"
  using assms by (cases pds) (simp_all add: CreateClaimSpecFile_def Let_def cdi_devices_Ok cdi_device_Ok spec_of_def)

section \<open>The documented behaviour of the spec cache\<close>

text \<open>
  A spec written under a name is found under it; a removed one is gone; a failed call
  leaves the file with its old content or with the one it was asked for, and every call
  leaves other files alone. Transient names of different identifiers differ (the library
  only replaces slashes).
\<close>

locale cdi_files =
  fixes lib :: "'w cdi_lib" and specs :: "'w \<Rightarrow> string \<rightharpoonup> Spec"
  assumes write_ok: "cdi_WriteSpec lib s n w = (None, w') \<Longrightarrow> specs w' = (specs w)(n \<mapsto> s)"
    and write_err: "cdi_WriteSpec lib s n w = (Some e, w') \<Longrightarrow> specs w' \<in> {specs w, (specs w)(n \<mapsto> s)}"
    and remove_ok: "cdi_RemoveSpec lib n w = (None, w') \<Longrightarrow> specs w' = (specs w)(n := None)"
    and remove_err: "cdi_RemoveSpec lib n w = (Some e, w') \<Longrightarrow> specs w' \<in> {specs w, (specs w)(n := None)}"
    and names: "CHR ''/'' \<notin> set a \<Longrightarrow> CHR ''/'' \<notin> set b \<Longrightarrow>
      cdi_GenerateTransientSpecName lib v c a = cdi_GenerateTransientSpecName lib v c b \<Longrightarrow> a = b"
begin

abbreviation spec_name :: "string \<Rightarrow> string" where
  "spec_name uid \<equiv> cdi_GenerateTransientSpecName lib cdiVendor cdiClass uid"

lemma create_spec:
  assumes "pds \<noteq> []" and "list_all has_request pds" and "CreateClaimSpecFile lib pds w = (r, w')"
    and "uid = no_UID (ClaimNamespacedName (hd pds))"
  shows "r = Ok () \<Longrightarrow> specs w' = (specs w)(spec_name uid \<mapsto> spec_of uid pds)"
    and "r = Err e \<Longrightarrow> specs w' \<in> {specs w, (specs w)(spec_name uid \<mapsto> spec_of uid pds)}"
    and "r \<noteq> Panic m"
  using assms(3) unfolding CreateClaimSpecFile_eq [OF assms(1,2,4)]
  by (auto split: prod.splits option.splits dest: write_ok write_err)

lemma delete_spec:
  assumes "DeleteClaimSpecFile lib uid w = (r, w')"
  shows "r = Ok () \<Longrightarrow> specs w' = (specs w)(spec_name uid := None)"
    and "r = Err e \<Longrightarrow> specs w' \<in> {specs w, (specs w)(spec_name uid := None)}"
    and "r \<noteq> Panic m"
  using assms by (auto simp: DeleteClaimSpecFile_def Let_def split: prod.splits option.splits dest: remove_ok remove_err)

end

section \<open>A spec directory in memory\<close>

definition mem_cdi :: "(string \<rightharpoonup> Spec) cdi_lib" where
  "mem_cdi =
     \<lparr>cdi_WriteSpec = (\<lambda>s n m. if distinct (map cd_Name (spec_Devices s)) then (None, m(n \<mapsto> s))
        else (Some (External ''invalid spec, duplicate device''), m)),
      cdi_RemoveSpec = (\<lambda>n m. (None, m(n := None))),
      cdi_GenerateTransientSpecName = (\<lambda>v c i. v @ ''-'' @ c @ ''_'' @ map (\<lambda>x. if x = CHR ''/'' then CHR ''_'' else x) i),
      cdi_QualifiedName = (\<lambda>v c n. v @ ''/'' @ c @ ''='' @ n)\<rparr>"

lemma slash_free_map: "CHR ''/'' \<notin> set a \<Longrightarrow> map (\<lambda>x. if x = CHR ''/'' then CHR ''_'' else x) a = a"
  by (induction a) auto

interpretation mem: cdi_files mem_cdi "\<lambda>m. m"
  by unfold_locales (auto simp: mem_cdi_def slash_free_map split: if_splits)

end
