(* ===== verification/ClaimConfig.thy ===== *)
theory ClaimConfig
  imports ApiTypes
begin

text \<open>
  \<^verbatim>\<open>pkg/devicestate/config.go\<close> and \<^verbatim>\<open>pkg/devicestate/claimstatus.go\<close>: the port configuration of
  each request of a claim, read from the allocation, and the entries that the driver
  writes into the status of the claim.
\<close>

section \<open>Port configuration\<close>

record claimPortConfigs =
  byRequest :: "string \<rightharpoonup> OvsPortConfig"
  defaultCfg :: "OvsPortConfig option"

definition getConfig :: "claimPortConfigs \<Rightarrow> string \<Rightarrow> OvsPortConfig" where
  "getConfig c request =
     (case byRequest c request of
        Some cfg \<Rightarrow> cfg
      | None \<Rightarrow> (case defaultCfg c of Some cfg \<Rightarrow> cfg | None \<Rightarrow> DefaultOvsPortConfig))"

definition validatePortConfig :: "OvsPortConfig \<Rightarrow> error option" where
  "validatePortConfig config =
     (case pc_Vlan config of
        Some v \<Rightarrow>
          if v < 0 \<or> v > 4095 then Some (Errorf ''vlan %d out of range [0, 4095]'' [AInt v] [])
          else (case pc_Policing config of
                  Some p \<Rightarrow> if MaxRate p = None
                            then Some (Errorf ''policing.max_rate is required when policing is set'' [] []) else None
                | None \<Rightarrow> None)
      | None \<Rightarrow> (case pc_Policing config of
                  Some p \<Rightarrow> if MaxRate p = None
                            then Some (Errorf ''policing.max_rate is required when policing is set'' [] []) else None
                | None \<Rightarrow> None))"

text \<open>One round of the loop of \<^verbatim>\<open>parseClaimConfigs\<close>: skipped, refused, or the decoded configuration.\<close>

definition unmarshal_error :: error where
  "unmarshal_error = External ''json''"

definition parse_config :: "DeviceAllocationConfiguration \<Rightarrow> error + OvsPortConfig option" where
  "parse_config cfg =
     (case dc_Opaque cfg of
        None \<Rightarrow> Inr None
      | Some opaque \<Rightarrow>
          if oc_Driver opaque \<noteq> DriverName then Inr None
          else if dc_Source cfg = FromClass then Inr None
          else if dc_Source cfg \<noteq> FromClaim then Inl (Errorf ''unknown config source: %v'' (case dc_Source cfg of FromOther s \<Rightarrow> [AStr s] | _ \<Rightarrow> []) [])
          else
            (case OvsPortConfig_Unmarshal (oc_Raw opaque) of
               None \<Rightarrow> Inl (Errorf ''unmarshal OvsPortConfig: %w'' [] [unmarshal_error])
             | Some portConfig \<Rightarrow>
                 if pc_Kind portConfig \<noteq> KindOvsPortConfig then
                   Inl (Errorf ''unexpected kind %q in claim config: want %q''
                          [AStr (pc_Kind portConfig), AStr KindOvsPortConfig] [])
                 else if pc_APIVersion portConfig \<noteq> OvsPortAPIVersion then
                   Inl (Errorf ''unexpected apiVersion %q in claim config: want %q''
                          [AStr (pc_APIVersion portConfig), AStr OvsPortAPIVersion] [])
                 else
                   (case validatePortConfig portConfig of
                      Some err \<Rightarrow> Inl (Errorf ''OvsPortConfig validation failed: %w'' [] [err])
                    | None \<Rightarrow> Inr (Some portConfig))))"

definition add_config :: "string list \<Rightarrow> OvsPortConfig \<Rightarrow> claimPortConfigs \<Rightarrow> claimPortConfigs" where
  "add_config requests portConfig result =
     (if requests = [] then result\<lparr>defaultCfg := Some portConfig\<rparr>
      else result\<lparr>byRequest := fold (\<lambda>req m. m(req \<mapsto> portConfig)) requests (byRequest result)\<rparr>)"

fun parse_configs ::
  "claimPortConfigs \<Rightarrow> DeviceAllocationConfiguration list \<Rightarrow> error + claimPortConfigs" where
  "parse_configs result [] = Inr result"
| "parse_configs result (cfg # cfgs) =
     (case parse_config cfg of
        Inl err \<Rightarrow> Inl err
      | Inr None \<Rightarrow> parse_configs result cfgs
      | Inr (Some portConfig) \<Rightarrow> parse_configs (add_config (dc_Requests cfg) portConfig result) cfgs)"

definition parseClaimConfigs :: "DeviceAllocationConfiguration list \<Rightarrow> error + claimPortConfigs" where
  "parseClaimConfigs configs = parse_configs \<lparr>byRequest = Map.empty, defaultCfg = None\<rparr> configs"

section \<open>Status entries\<close>

record deviceStatusKey =
  key_driver :: string
  key_pool :: string
  key_device :: string
  key_shareID :: string

definition keyOf :: "AllocatedDeviceStatus \<Rightarrow> deviceStatusKey" where
  "keyOf status =
     \<lparr>key_driver = ads_Driver status, key_pool = ads_Pool status, key_device = ads_Device status,
      key_shareID = (case ads_ShareID status of None \<Rightarrow> [] | Some s \<Rightarrow> s)\<rparr>"

fun upsertDeviceStatus ::
  "AllocatedDeviceStatus list \<Rightarrow> AllocatedDeviceStatus \<Rightarrow> AllocatedDeviceStatus list" where
  "upsertDeviceStatus [] status = [status]"
| "upsertDeviceStatus (s # ss) status =
     (if keyOf s = keyOf status then status # ss else s # upsertDeviceStatus ss status)"

lemmas claimconfig_defs [go_defs] =
  getConfig_def validatePortConfig_def parse_config_def add_config_def parseClaimConfigs_def keyOf_def

section \<open>Lemmas\<close>

lemma fold_update_const: "fold (\<lambda>k m. m(k \<mapsto> v)) ks m = (\<lambda>x. if x \<in> set ks then Some v else m x)"
  by (induction ks arbitrary: m) (auto simp: fun_eq_iff)

lemma validatePortConfig_None:
  "validatePortConfig c = None \<longleftrightarrow>
     (case pc_Vlan c of None \<Rightarrow> True | Some v \<Rightarrow> 0 \<le> v \<and> v \<le> 4095) \<and>
     (case pc_Policing c of None \<Rightarrow> True | Some p \<Rightarrow> MaxRate p \<noteq> None)"
  by (auto simp: validatePortConfig_def split: option.splits)

lemma parse_config_valid: "parse_config cfg = Inr (Some pc) \<Longrightarrow> validatePortConfig pc = None"
  by (auto simp: parse_config_def split: option.splits if_splits)

text \<open>The decoded configurations of the entries that \<open>P\<close> selects, and the last of them.\<close>

definition payloads :: "(DeviceAllocationConfiguration \<Rightarrow> bool) \<Rightarrow> DeviceAllocationConfiguration list \<Rightarrow> OvsPortConfig list" where
  "payloads P cfgs =
     concat (map (\<lambda>c. case parse_config c of Inr (Some pc) \<Rightarrow> if P c then [pc] else [] | _ \<Rightarrow> []) cfgs)"

definition last_of :: "'a list \<Rightarrow> 'a option" where
  "last_of xs = (if xs = [] then None else Some (last xs))"

definition effective :: "(DeviceAllocationConfiguration \<Rightarrow> bool) \<Rightarrow> DeviceAllocationConfiguration list \<Rightarrow> OvsPortConfig option" where
  "effective P cfgs = last_of (payloads P cfgs)"

lemma effective_Nil [simp]: "effective P [] = None"
  by (simp add: effective_def payloads_def last_of_def)

lemma effective_Cons:
  "effective P (c # cfgs) =
     (case effective P cfgs of
        Some pc \<Rightarrow> Some pc
      | None \<Rightarrow> (case parse_config c of Inr (Some pc) \<Rightarrow> if P c then Some pc else None | _ \<Rightarrow> None))"
  by (auto simp: effective_def payloads_def last_of_def split: option.splits sum.splits)

lemma parse_configs_effective:
  assumes "parse_configs r0 cfgs = Inr r"
  shows "byRequest r req = (case effective (\<lambda>c. req \<in> set (dc_Requests c)) cfgs of Some pc \<Rightarrow> Some pc | None \<Rightarrow> byRequest r0 req)"
    and "defaultCfg r = (case effective (\<lambda>c. dc_Requests c = []) cfgs of Some pc \<Rightarrow> Some pc | None \<Rightarrow> defaultCfg r0)"
  using assms
  by (induction cfgs arbitrary: r0)
    (auto simp: effective_Cons add_config_def fold_update_const split: sum.splits option.splits if_splits)

lemma parse_configs_ok_iff:
  "(\<exists>r. parse_configs r0 cfgs = Inr r) \<longleftrightarrow> list_all (\<lambda>c. \<exists>pc. parse_config c = Inr pc) cfgs"
  by (induction cfgs arbitrary: r0) (auto split: sum.splits option.splits)

section \<open>Properties\<close>

text \<open>
  C36. Which port configuration a request gets: the one of the last accepted entry that
  names the request; when none names it, the one of the last accepted entry that names
  no request; else the default. Configuration from a device class or for another driver
  never takes part.
\<close>

theorem getConfig_effective:
  assumes "parseClaimConfigs cfgs = Inr r"
  shows "getConfig r req =
    (case effective (\<lambda>c. req \<in> set (dc_Requests c)) cfgs of
       Some pc \<Rightarrow> pc
     | None \<Rightarrow> (case effective (\<lambda>c. dc_Requests c = []) cfgs of Some pc \<Rightarrow> pc | None \<Rightarrow> DefaultOvsPortConfig))"
  using parse_configs_effective [OF assms [unfolded parseClaimConfigs_def]]
  by (simp add: getConfig_def split: option.splits)

definition sample_config :: "string list \<Rightarrow> string \<Rightarrow> DeviceAllocationConfiguration" where
  "sample_config reqs vlan =
     \<lparr>dc_Source = FromClaim, dc_Requests = reqs,
      dc_Opaque = Some \<lparr>oc_Driver = DriverName,
        oc_Raw = Some (JObj [(''kind'', JStr KindOvsPortConfig), (''apiVersion'', JStr OvsPortAPIVersion), (''vlan'', JNum vlan)])\<rparr>\<rparr>"

lemma sample_parse: "\<exists>r. parseClaimConfigs [sample_config [] ''7'', sample_config [''net''] ''9''] = Inr r"
  by (simp add: sample_config_def go_defs)

lemma sample_effective:
  "effective (\<lambda>c. ''net'' \<in> set (dc_Requests c)) [sample_config [] ''7'', sample_config [''net''] ''9'']
     = Some (DefaultOvsPortConfig\<lparr>pc_Kind := KindOvsPortConfig, pc_APIVersion := OvsPortAPIVersion, pc_Vlan := Some 9\<rparr>)"
  by (simp add: effective_def payloads_def last_of_def sample_config_def go_defs)

theorem getConfig_effective_witness:
  "\<exists>r. parseClaimConfigs [sample_config [] ''7'', sample_config [''net''] ''9''] = Inr r
     \<and> pc_Vlan (getConfig r ''net'') = Some 9"
proof -
  from sample_parse obtain r where r: "parseClaimConfigs [sample_config [] ''7'', sample_config [''net''] ''9''] = Inr r" ..
  from getConfig_effective [OF r, of "''net''"] r show ?thesis by (simp add: sample_effective)
qed

definition acceptable_config :: "DeviceAllocationConfiguration \<Rightarrow> bool" where
  "acceptable_config cfg =
     (case dc_Opaque cfg of
        None \<Rightarrow> True
      | Some opaque \<Rightarrow>
          oc_Driver opaque \<noteq> DriverName \<or> dc_Source cfg = FromClass \<or>
          (dc_Source cfg = FromClaim \<and>
           (case OvsPortConfig_Unmarshal (oc_Raw opaque) of
              None \<Rightarrow> False
            | Some pc \<Rightarrow> pc_Kind pc = KindOvsPortConfig \<and> pc_APIVersion pc = OvsPortAPIVersion \<and>
                (case pc_Vlan pc of None \<Rightarrow> True | Some v \<Rightarrow> 0 \<le> v \<and> v \<le> 4095) \<and>
                (case pc_Policing pc of None \<Rightarrow> True | Some p \<Rightarrow> MaxRate p \<noteq> None))))"

text \<open>
  A claim's configuration is accepted exactly when every entry is: an entry of another
  driver or of the class always; an entry of the claim when it decodes, has the right kind
  and version, a VLAN within 0..4095 if any, and a maximum rate if it has policing.
\<close>

theorem parseClaimConfigs_ok_iff:
  "(\<exists>r. parseClaimConfigs cfgs = Inr r) \<longleftrightarrow> list_all acceptable_config cfgs"
proof -
  have "(\<exists>pc. parse_config c = Inr pc) \<longleftrightarrow> acceptable_config c" for c
    by (auto simp: parse_config_def acceptable_config_def validatePortConfig_def
        split: option.splits if_splits)
  then show ?thesis by (simp add: parseClaimConfigs_def parse_configs_ok_iff)
qed

definition by_key :: "AllocatedDeviceStatus list \<Rightarrow> deviceStatusKey \<rightharpoonup> AllocatedDeviceStatus" where
  "by_key l = map_of (map (\<lambda>s. (keyOf s, s)) l)"

lemma upsert_keys:
  "map keyOf (upsertDeviceStatus l s) = (if keyOf s \<in> set (map keyOf l) then map keyOf l else map keyOf l @ [keyOf s])"
  by (induction l) auto

text \<open>
  \<^verbatim>\<open>upsertDeviceStatus\<close> is a map update: read as a map from composite keys, the list after
  the call has the new entry under its key and every other entry unchanged, and no key
  appears twice if none did before.
\<close>

theorem upsertDeviceStatus_map_update:
  "by_key (upsertDeviceStatus l s) = (by_key l)(keyOf s \<mapsto> s)
   \<and> (distinct (map keyOf (upsertDeviceStatus l s)) \<longleftrightarrow> distinct (map keyOf l))"
proof
  show "by_key (upsertDeviceStatus l s) = (by_key l)(keyOf s \<mapsto> s)"
    by (induction l) (auto simp: by_key_def fun_upd_twist)
  show "distinct (map keyOf (upsertDeviceStatus l s)) \<longleftrightarrow> distinct (map keyOf l)"
    unfolding upsert_keys by (auto simp del: set_map)
qed

end
