(* ===== verification/DeviceState.thy ===== *)
theory DeviceState
  imports SocketFS Ovs Cdi ClaimConfig
begin

text \<open>
  \<^verbatim>\<open>pkg/devicestate/devicestate.go\<close>: the devices that the node advertises, and the preparation
  of a claim: a socket directory and an OVS port per allocated device, and one CDI spec.
  The socket file system, the OVS client and the CDI library are records of operations
  over one state \<open>'w\<close>; the theory \<open>Node\<close> puts the models of the other packages there.
\<close>

section \<open>State\<close>

text \<open>
  \<^verbatim>\<open>resourceapi.Device\<close> and \<^verbatim>\<open>CapacityRequestPolicy\<close>, the fields that the driver sets.
  Quantities are their integer values.
\<close>

record CapacityRequestPolicy =
  crp_Default :: int
  crp_Min :: int
  crp_Step :: int

record DeviceCapacity =
  cap_Value :: int
  cap_RequestPolicy :: CapacityRequestPolicy

record Device =
  dev_Name :: string
  AllowMultipleAllocations :: "bool option"
  dev_Attributes :: "string \<rightharpoonup> DeviceAttribute"
  dev_Capacity :: "string \<rightharpoonup> DeviceCapacity"

record AllocatableDevice =
  ad_Device :: Device
  ad_BridgeSpec :: BridgeSpec

type_synonym AllocatableDevices = "string \<rightharpoonup> AllocatableDevice"

text \<open>The fields of the struct that change; \<open>republishCallback\<close> says whether one is set.\<close>

record DeviceState =
  allocatable :: AllocatableDevices
  vhostUserConfig :: "VhostUserSpec option"
  republishCallback :: bool

text \<open>The three components that a \<^verbatim>\<open>DeviceState\<close> holds on to.\<close>

record 'w backend =
  bk_cdi :: "'w cdi_lib"
  bk_socketFS :: "'w SocketFS"
  bk_ovsClient :: "'w Client"

section \<open>Allocatable devices and configuration\<close>

definition bridgeToDevice :: "BridgeSpec \<Rightarrow> AllocatableDevice" where
  "bridgeToDevice bridge =
     \<lparr>ad_Device =
        \<lparr>dev_Name = bs_Name bridge, AllowMultipleAllocations = Some True,
         dev_Attributes = [DriverName @ ''/'' @ ''bridgeName'' \<mapsto> StringValue (bs_Name bridge),
                           DriverName @ ''/'' @ ''mtu'' \<mapsto> IntValue (bs_Mtu bridge)],
         dev_Capacity = [DriverName @ ''/'' @ ''ports'' \<mapsto>
           \<lparr>cap_Value = DefaultBridgeCapacity,
            cap_RequestPolicy = \<lparr>crp_Default = 1, crp_Min = 1, crp_Step = 1\<rparr>\<rparr>]\<rparr>,
      ad_BridgeSpec = bridge\<rparr>"

definition computeAllocatableDevices :: "BridgeSpec list \<Rightarrow> AllocatableDevices" where
  "computeAllocatableDevices bridges =
     fold (\<lambda>bridge devices. devices(bs_Name bridge \<mapsto> bridgeToDevice bridge)) bridges Map.empty"

definition updateBridges :: "BridgeSpec list \<Rightarrow> DeviceState \<Rightarrow> DeviceState" where
  "updateBridges bridges d = d\<lparr>allocatable := computeAllocatableDevices bridges\<rparr>"

definition DeviceState_New :: DeviceState where
  "DeviceState_New =
     updateBridges [] \<lparr>allocatable = Map.empty, vhostUserConfig = None, republishCallback = False\<rparr>"

definition clearConfig :: "DeviceState \<Rightarrow> DeviceState" where
  "clearConfig d = d\<lparr>vhostUserConfig := None\<rparr>"

definition updateConfig :: "VhostUserSpec \<Rightarrow> DeviceState \<Rightarrow> DeviceState" where
  "updateConfig vhostUser d =
     d\<lparr>vhostUserConfig := Some
         (if ContainerRootPath vhostUser = [] then vhostUser\<lparr>ContainerRootPath := DefaultContainerRootPath\<rparr>
          else vhostUser)\<rparr>"

definition UpdateConfig :: "OvsDpdkConfigSpec option \<Rightarrow> DeviceState \<Rightarrow> unit res \<times> DeviceState" where
  "UpdateConfig spec d =
     (case spec of
        None \<Rightarrow> (Ok (), clearConfig d)
      | Some s \<Rightarrow> (case VhostUser s of
                    None \<Rightarrow> (Ok (), clearConfig d)
                  | Some v \<Rightarrow> (Ok (), updateConfig v d)))"

definition SetRepublishCallback :: "bool \<Rightarrow> DeviceState \<Rightarrow> DeviceState" where
  "SetRepublishCallback callback d = d\<lparr>republishCallback := callback\<rparr>"

definition GetAllocatableDevices :: "DeviceState \<Rightarrow> AllocatableDevices" where
  "GetAllocatableDevices d = allocatable d"

definition GetVhostUserConfig :: "DeviceState \<Rightarrow> VhostUserSpec option" where
  "GetVhostUserConfig d = vhostUserConfig d"

text \<open>The validation loop of \<^verbatim>\<open>UpdatePolicyDevices\<close>.\<close>

fun validate_bridges :: "string list \<Rightarrow> BridgeSpec list \<Rightarrow> error option" where
  "validate_bridges seen [] = None"
| "validate_bridges seen (b # bs) =
     (if bs_Name b \<in> set seen then
        Some (Errorf ''duplicate bridge name %q across OvsDpdkResourcePolicy objects'' [AStr (bs_Name b)] [])
      else if bs_Mtu b < 68 \<or> bs_Mtu b > 65535 then
        Some (Errorf ''bridge %q: mtu %d out of range [68, 65535]'' [AStr (bs_Name b), AInt (bs_Mtu b)] [])
      else validate_bridges (bs_Name b # seen) bs)"

text \<open>
  \<open>republish\<close> is the callback, with the state it sees (the lock is free by then) and the
  outside world as arguments.
\<close>

definition UpdatePolicyDevices ::
  "(DeviceState \<Rightarrow> 'w \<Rightarrow> error option \<times> 'w) \<Rightarrow> BridgeSpec list \<Rightarrow> DeviceState \<Rightarrow> 'w \<Rightarrow> unit res \<times> DeviceState \<times> 'w" where
  "UpdatePolicyDevices republish bridges d w =
     (case validate_bridges [] bridges of
        Some err \<Rightarrow> (Err err, d, w)
      | None \<Rightarrow>
          (let d' = updateBridges bridges d
           in if republishCallback d' then
                (case republish d' w of
                   (Some err, w') \<Rightarrow> (Err (Errorf ''republish callback: %w'' [] [err]), d', w')
                 | (None, w') \<Rightarrow> (Ok (), d', w'))
              else (Ok (), d', w)))"

section \<open>Names and parameters of a prepared device\<close>

definition getPodClaimName :: "ResourceClaim \<Rightarrow> string" where
  "getPodClaimName claim = (if rc_PodClaimName claim = [] then rc_Name claim else rc_PodClaimName claim)"

definition getContainerDir :: "string \<Rightarrow> ResourceClaim \<Rightarrow> string \<Rightarrow> string" where
  "getContainerDir root claim requestName = filepath_Join [root, getPodClaimName claim, requestName]"

definition getSocketDir :: "string \<Rightarrow> ResourceClaim \<Rightarrow> DeviceRequestAllocationResult \<Rightarrow> string" where
  "getSocketDir podUID claim result =
     filepath_Join [HostRootPath, podUID @ ''_'' @ getPodClaimName claim @ ''_'' @ dr_Request result]"

text \<open>Slicing a string beyond its length panics.\<close>

definition ovsPortName :: "string \<Rightarrow> string \<Rightarrow> string res" where
  "ovsPortName claimUID request =
     (let uid = strings_RemoveAll (CHR ''-'') claimUID
      in if length uid < 8 then Panic ''slice bounds out of range'' else Ok (take 8 uid @ ''-'' @ request))"

text \<open>\<^verbatim>\<open>claim.Status.ReservedFor[0]\<close>: indexing an empty slice panics.\<close>

definition ReservedFor_0 :: "ResourceClaim \<Rightarrow> ConsumerReference res" where
  "ReservedFor_0 claim =
     (case rc_ReservedFor claim of [] \<Rightarrow> Panic ''index out of range [0] with length 0'' | ref # _ \<Rightarrow> Ok ref)"

definition ovsPortParams :: "ResourceClaim \<Rightarrow> OvsPortConfig \<Rightarrow> BridgeSpec \<Rightarrow> OvsPortParams res" where
  "ovsPortParams claim portConfig bridge =
     (case ReservedFor_0 claim of
        Panic m \<Rightarrow> Panic m
      | Err e \<Rightarrow> Err e
      | Ok ref \<Rightarrow>
          Ok \<lparr>ExternalIDs = [''claim-uid'' \<mapsto> rc_UID claim, ''claim-name'' \<mapsto> rc_Name claim,
                             ''namespace'' \<mapsto> rc_Namespace claim, ''pod-name'' \<mapsto> cr_Name ref],
              Vlan = pc_Vlan portConfig,
              IngressRate = (case pc_Policing portConfig of
                               Some p \<Rightarrow> (case MaxRate p of Some r \<Rightarrow> uint r | None \<Rightarrow> 0)
                             | None \<Rightarrow> 0),
              IngressBurst = (case pc_Policing portConfig of
                                Some p \<Rightarrow> (case Burst p of Some b \<Rightarrow> uint b | None \<Rightarrow> 0)
                              | None \<Rightarrow> 0),
              Mtu = bs_Mtu bridge\<rparr>)"

definition deviceMetadataAttrs :: "string \<Rightarrow> OvsPortParams \<Rightarrow> string \<rightharpoonup> DeviceAttribute" where
  "deviceMetadataAttrs containerSocketPath params =
     (let attrs = [''vhost-user-path'' \<mapsto> StringValue containerSocketPath, ''mtu'' \<mapsto> IntValue (Mtu params)];
          attrs1 = (if IngressRate params > 0
                    then attrs(''ingress-policing-rate'' \<mapsto> IntValue (IngressRate params)) else attrs)
      in if IngressBurst params > 0
         then attrs1(''ingress-policing-burst'' \<mapsto> IntValue (IngressBurst params)) else attrs1)"

section \<open>Status of the claim\<close>

definition OvsPolicing_MarshalJSON :: "OvsPolicing \<Rightarrow> json" where
  "OvsPolicing_MarshalJSON p =
     JObj ([(''max_rate'', case MaxRate p of None \<Rightarrow> JNull | Some r \<Rightarrow> JNum (fmt_int (uint r)))] @
           (case Burst p of None \<Rightarrow> [] | Some b \<Rightarrow> [(''burst'', JNum (fmt_int (uint b)))]))"

definition OvsPortConfig_MarshalJSON :: "OvsPortConfig \<Rightarrow> json" where
  "OvsPortConfig_MarshalJSON c =
     JObj ((if pc_Kind c = [] then [] else [(''kind'', JStr (pc_Kind c))]) @
           (if pc_APIVersion c = [] then [] else [(''apiVersion'', JStr (pc_APIVersion c))]) @
           (case pc_Vlan c of None \<Rightarrow> [] | Some v \<Rightarrow> [(''vlan'', JNum (fmt_int v))]) @
           (case pc_Policing c of None \<Rightarrow> [] | Some p \<Rightarrow> [(''policing'', OvsPolicing_MarshalJSON p)]))"

definition deviceStatusData :: "PreparedDevice \<Rightarrow> json" where
  "deviceStatusData pd =
     JObj ([(''mount'', JObj [(''hostDir'', JStr (HostDir (pd_Mount pd))), (''containerDir'', JStr (ContainerDir (pd_Mount pd)))]),
            (''socket'', JObj [(''hostPath'', JStr (HostPath (pd_Socket pd))), (''containerPath'', JStr (ContainerPath (pd_Socket pd)))]),
            (''bridgeName'', JStr (BridgeName pd)),
            (''cdiDeviceID'', JArr (map JStr (kd_CDIDeviceIDs (pd_Device pd))))] @
           (case PortConfig pd of None \<Rightarrow> [] | Some c \<Rightarrow> [(''config'', OvsPortConfig_MarshalJSON c)]))"

text \<open>Encoding these structs cannot fail, so the error branch of the code is not reachable.\<close>

definition updateClaimStatus :: "DeviceRequestAllocationResult \<Rightarrow> PreparedDevice \<Rightarrow> ResourceClaim \<Rightarrow> ResourceClaim" where
  "updateClaimStatus allocResult pd claim =
     claim\<lparr>rc_Devices := upsertDeviceStatus (rc_Devices claim)
       \<lparr>ads_Driver = dr_Driver allocResult, ads_Pool = dr_Pool allocResult, ads_Device = dr_Device allocResult,
        ads_ShareID = dr_ShareID allocResult, ads_Data = Some (deviceStatusData pd)\<rparr>\<rparr>"

section \<open>Unprepare\<close>

text \<open>The error of the CDI removal is only logged.\<close>

definition unprepareDevice :: "'w backend \<Rightarrow> PreparedDevice \<Rightarrow> 'w \<Rightarrow> unit res \<times> 'w" where
  "unprepareDevice bk pd w =
     (case DeleteClaimSpecFile (bk_cdi bk) (no_UID (ClaimNamespacedName pd)) w of
        (Panic m, w1) \<Rightarrow> (Panic m, w1)
      | (_, w1) \<Rightarrow>
     (case DeletePort (bk_ovsClient bk) (BridgeName pd) (OVSPortName pd) w1 of
        (Panic m, w2) \<Rightarrow> (Panic m, w2)
      | (r, w2) \<Rightarrow>
          (let errs = (case r of Err err \<Rightarrow> if errors_Is err ErrPortNotFound then [] else [err] | _ \<Rightarrow> [])
           in case RemoveSocketDir (bk_socketFS bk) (HostDir (pd_Mount pd)) w2 of
                (Panic m, w3) \<Rightarrow> (Panic m, w3)
              | (Err err, w3) \<Rightarrow> (to_res (errors_Join (errs @ [err])), w3)
              | (Ok _, w3) \<Rightarrow> (to_res (errors_Join errs), w3))))"

text \<open>
  The loop that \<^verbatim>\<open>rollback\<close> and \<^verbatim>\<open>UnprepareResourceClaim\<close> share: every device is visited, the
  errors are collected under the given format.
\<close>

fun unprepare_all :: "'w backend \<Rightarrow> string \<Rightarrow> PreparedDevice list \<Rightarrow> 'w \<Rightarrow> error list res \<times> 'w" where
  "unprepare_all bk fmt [] w = (Ok [], w)"
| "unprepare_all bk fmt (pd # pds) w =
     (case unprepareDevice bk pd w of
        (Panic m, w1) \<Rightarrow> (Panic m, w1)
      | (r, w1) \<Rightarrow>
          (case unprepare_all bk fmt pds w1 of
             (Ok errs, w2) \<Rightarrow> (Ok ((case r of Err err \<Rightarrow> [Errorf fmt [] [err]] | _ \<Rightarrow> []) @ errs), w2)
           | (Err e, w2) \<Rightarrow> (Err e, w2)
           | (Panic m, w2) \<Rightarrow> (Panic m, w2)))"

definition rollback :: "'w backend \<Rightarrow> error \<Rightarrow> PreparedDevice list \<Rightarrow> 'w \<Rightarrow> 'a res \<times> 'w" where
  "rollback bk err devices w =
     (case unprepare_all bk ''rollback unprepare failed: %w'' devices w of
        (Ok errs, w') \<Rightarrow> (Err (Joined (err # errs)), w')
      | (Err e, w') \<Rightarrow> (Err e, w')
      | (Panic m, w') \<Rightarrow> (Panic m, w'))"

definition UnprepareResourceClaim :: "'w backend \<Rightarrow> PreparedDevice list \<Rightarrow> 'w \<Rightarrow> unit res \<times> 'w" where
  "UnprepareResourceClaim bk preparedDevices w =
     (case unprepare_all bk ''unprepare failed: %w'' preparedDevices w of
        (Ok errs, w') \<Rightarrow> (to_res (errors_Join errs), w')
      | (Err e, w') \<Rightarrow> (Err e, w')
      | (Panic m, w') \<Rightarrow> (Panic m, w'))"

section \<open>Prepare\<close>

text \<open>
  \<^verbatim>\<open>prepareDevice\<close> reads the device state three times, each under the lock: the
  configuration, the allocatable devices, and the configuration again for
  \<^verbatim>\<open>CreateSocketDir\<close>. \<open>d1\<close>, \<open>d2\<close> and \<open>d3\<close> are what the reads see; they differ when a
  controller updates the state in between.
\<close>

definition prepareDevice ::
  "'w backend \<Rightarrow> DeviceState \<Rightarrow> DeviceState \<Rightarrow> DeviceState \<Rightarrow> ResourceClaim \<Rightarrow> DeviceRequestAllocationResult
   \<Rightarrow> OvsPortConfig \<Rightarrow> 'w \<Rightarrow> PreparedDevice res \<times> 'w" where
  "prepareDevice bk d1 d2 d3 claim result portConfig w =
     (case ReservedFor_0 claim of
        Panic m \<Rightarrow> (Panic m, w)
      | Err e \<Rightarrow> (Err e, w)
      | Ok ref \<Rightarrow>
     (case GetVhostUserConfig d1 of
        None \<Rightarrow> (Err (Errorf ''missing VhostUser configuration'' [] []), w)
      | Some vhostConfig \<Rightarrow>
          (let podUID = cr_UID ref;
               bridgeSpec = (case allocatable d2 (dr_Device result) of
                               Some ad \<Rightarrow> ad_BridgeSpec ad | None \<Rightarrow> zero_BridgeSpec);
               socketDir = getSocketDir podUID claim result
           in case CreateSocketDir (bk_socketFS bk) socketDir (GetVhostUserConfig d3) w of
                (Panic m, w1) \<Rightarrow> (Panic m, w1)
              | (Err err, w1) \<Rightarrow> (Err (Errorf ''create socket directory %q: %w'' [AStr socketDir] [err]), w1)
              | (Ok _, w1) \<Rightarrow>
          (case ovsPortName (rc_UID claim) (dr_Request result) of
             Panic m \<Rightarrow> (Panic m, w1)
           | Err e \<Rightarrow> (Err e, w1)
           | Ok portName \<Rightarrow>
          (case ovsPortParams claim portConfig bridgeSpec of
             Panic m \<Rightarrow> (Panic m, w1)
           | Err e \<Rightarrow> (Err e, w1)
           | Ok params \<Rightarrow>
          (let hostSocketPath = filepath_Join [socketDir, VhostSocketFilename]
           in case CreatePort (bk_ovsClient bk) (dr_Device result) portName hostSocketPath params w1 of
                (Panic m, w2) \<Rightarrow> (Panic m, w2)
              | (Err err, w2) \<Rightarrow>
                  (Err (Errorf ''create OVS port %q on bridge %q: %w'' [AStr portName, AStr (dr_Device result)] [err]),
                   snd (RemoveSocketDir (bk_socketFS bk) socketDir w2))
              | (Ok _, w2) \<Rightarrow>
          (let cdiDeviceID = DeviceID (bk_cdi bk) (rc_UID claim) (dr_Device result) (dr_Request result);
               containerDir = getContainerDir (ContainerRootPath vhostConfig) claim (dr_Request result);
               containerSocketPath = filepath_Join [containerDir, VhostSocketFilename]
           in (Ok \<lparr>pd_Device = \<lparr>kd_Requests = [dr_Request result], kd_PoolName = dr_Pool result,
                                kd_DeviceName = dr_Device result, kd_CDIDeviceIDs = [cdiDeviceID],
                                kd_Attributes = deviceMetadataAttrs containerSocketPath params\<rparr>,
                   ClaimNamespacedName = \<lparr>no_Name = rc_Name claim, no_Namespace = rc_Namespace claim, no_UID = rc_UID claim\<rparr>,
                   BridgeName = dr_Device result, OVSPortName = portName,
                   pd_Mount = \<lparr>HostDir = socketDir, ContainerDir = containerDir\<rparr>,
                   pd_Socket = \<lparr>HostPath = hostSocketPath, ContainerPath = containerSocketPath\<rparr>,
                   PortConfig = Some portConfig\<rparr>, w2))))))))"

text \<open>
  The loop of \<^verbatim>\<open>PrepareResourceClaim\<close>. \<open>obs\<close> gives the device state at each of the reads;
  \<open>i\<close> counts them. A panic ends the loop without a rollback.
\<close>

fun prepare_results ::
  "'w backend \<Rightarrow> (nat \<Rightarrow> DeviceState) \<Rightarrow> nat \<Rightarrow> claimPortConfigs \<Rightarrow> DeviceRequestAllocationResult list
   \<Rightarrow> PreparedDevice list \<Rightarrow> ResourceClaim \<Rightarrow> 'w \<Rightarrow> PreparedDevice list res \<times> ResourceClaim \<times> 'w" where
  "prepare_results bk obs i portConfigs [] acc claim w = (Ok acc, claim, w)"
| "prepare_results bk obs i portConfigs (result # results) acc claim w =
     (if dr_Driver result \<noteq> DriverName then prepare_results bk obs i portConfigs results acc claim w
      else
        (case prepareDevice bk (obs i) (obs (i + 1)) (obs (i + 2)) claim result
                (getConfig portConfigs (dr_Request result)) w of
           (Panic m, w1) \<Rightarrow> (Panic m, claim, w1)
         | (Err err, w1) \<Rightarrow>
             (case rollback bk (Errorf ''error preparing device: %v'' [AErr err] []) acc w1 of
                (r, w2) \<Rightarrow> (r, claim, w2))
         | (Ok preparedDevice, w1) \<Rightarrow>
             prepare_results bk obs (i + 3) portConfigs results (acc @ [preparedDevice])
               (updateClaimStatus result preparedDevice claim) w1))"

definition PrepareResourceClaim ::
  "'w backend \<Rightarrow> (nat \<Rightarrow> DeviceState) \<Rightarrow> ResourceClaim \<Rightarrow> 'w \<Rightarrow> PreparedDevice list res \<times> ResourceClaim \<times> 'w" where
  "PrepareResourceClaim bk obs claim w =
     (case rc_Allocation claim of
        None \<Rightarrow> (Err (Errorf ''claim %s/%s has no allocation'' [AStr (rc_Namespace claim), AStr (rc_Name claim)] []), claim, w)
      | Some allocation \<Rightarrow>
          if length (rc_ReservedFor claim) = 0 then
            (Err (Errorf ''claim %s/%s has no ReservedFor entry'' [AStr (rc_Namespace claim), AStr (rc_Name claim)] []), claim, w)
          else if length (rc_ReservedFor claim) > 1 then
            (Err (Errorf ''multiple pods found for claim %s/%s not supported''
                    [AStr (rc_Namespace claim), AStr (rc_Name claim)] []), claim, w)
          else
            (case parseClaimConfigs (al_Config allocation) of
               Inl err \<Rightarrow> (Err (Errorf ''parse claim configs: %w'' [] [err]), claim, w)
             | Inr portConfigs \<Rightarrow>
                 (case prepare_results bk obs 0 portConfigs (al_Results allocation) [] claim w of
                    (Ok preparedDevices, claim1, w1) \<Rightarrow>
                      if preparedDevices = [] then
                        (Err (Errorf ''no allocation results for driver %s'' [AStr DriverName] []), claim1, w1)
                      else
                        (case CreateClaimSpecFile (bk_cdi bk) preparedDevices w1 of
                           (Panic m, w2) \<Rightarrow> (Panic m, claim1, w2)
                         | (Err err, w2) \<Rightarrow>
                             (case rollback bk (Errorf ''error creating CDI spec file: %v'' [AErr err] []) preparedDevices w2 of
                                (r, w3) \<Rightarrow> (r, claim1, w3))
                         | (Ok _, w2) \<Rightarrow> (Ok preparedDevices, claim1, w2))
                  | (r, claim1, w1) \<Rightarrow> (r, claim1, w1))))"

lemmas devicestate_defs [go_defs] =
  bridgeToDevice_def computeAllocatableDevices_def updateBridges_def DeviceState_New_def clearConfig_def
  updateConfig_def UpdateConfig_def SetRepublishCallback_def GetAllocatableDevices_def GetVhostUserConfig_def
  UpdatePolicyDevices_def getPodClaimName_def getContainerDir_def getSocketDir_def ovsPortName_def ReservedFor_0_def
  ovsPortParams_def deviceMetadataAttrs_def updateClaimStatus_def unprepareDevice_def rollback_def
  UnprepareResourceClaim_def prepareDevice_def PrepareResourceClaim_def

section \<open>The device state as a state machine\<close>

text \<open>
  The two controllers and the driver change the state, each change under the write lock.
  The relation allows every order of them.
\<close>

inductive ds_step :: "(DeviceState \<Rightarrow> 'w \<Rightarrow> error option \<times> 'w) \<Rightarrow> DeviceState \<times> 'w \<Rightarrow> DeviceState \<times> 'w \<Rightarrow> bool"
  for republish where
  config_changed: "UpdateConfig spec d = (r, d') \<Longrightarrow> ds_step republish (d, w) (d', w)"
| policy_changed: "UpdatePolicyDevices republish bridges d w = (r, d', w') \<Longrightarrow> ds_step republish (d, w) (d', w')"
| callback_set: "ds_step republish (d, w) (SetRepublishCallback f d, w)"
| world_changed: "ds_step republish (d, w) (d, w')"

inductive ds_reachable :: "(DeviceState \<Rightarrow> 'w \<Rightarrow> error option \<times> 'w) \<Rightarrow> DeviceState \<times> 'w \<Rightarrow> bool"
  for republish where
  ds_start: "ds_reachable republish (DeviceState_New, w)"
| ds_next: "ds_reachable republish s \<Longrightarrow> ds_step republish s s' \<Longrightarrow> ds_reachable republish s'"

inductive_cases ds_stepE: "ds_step republish s s'"

text \<open>What prepare relies on: consistent devices with an MTU in range, and a usable container root.\<close>

definition ds_inv :: "DeviceState \<Rightarrow> bool" where
  "ds_inv d \<longleftrightarrow>
     (\<forall>n ad. allocatable d n = Some ad \<longrightarrow>
        ad = bridgeToDevice (ad_BridgeSpec ad) \<and> bs_Name (ad_BridgeSpec ad) = n \<and>
        68 \<le> bs_Mtu (ad_BridgeSpec ad) \<and> bs_Mtu (ad_BridgeSpec ad) \<le> 65535) \<and>
     finite (dom (allocatable d)) \<and>
     (\<forall>v. vhostUserConfig d = Some v \<longrightarrow> ContainerRootPath v \<noteq> [])"

text \<open>The bridge lists that \<^verbatim>\<open>UpdatePolicyDevices\<close> takes.\<close>

definition valid_bridges :: "BridgeSpec list \<Rightarrow> bool" where
  "valid_bridges bs \<longleftrightarrow>
     distinct (map bs_Name bs) \<and> list_all (\<lambda>b. 68 \<le> bs_Mtu b \<and> bs_Mtu b \<le> 65535) bs"

lemma validate_bridges_iff:
  "validate_bridges seen bs = None \<longleftrightarrow> valid_bridges bs \<and> set seen \<inter> set (map bs_Name bs) = {}"
  by (induction bs arbitrary: seen) (auto simp: valid_bridges_def)

lemma fold_bridges:
  "distinct (map bs_Name bs) \<Longrightarrow>
   fold (\<lambda>b m. m(bs_Name b \<mapsto> bridgeToDevice b)) bs m n =
     (case List.find (\<lambda>b. bs_Name b = n) bs of Some b \<Rightarrow> Some (bridgeToDevice b) | None \<Rightarrow> m n)"
proof (induction bs arbitrary: m)
  case (Cons b bs)
  have "bs_Name b \<notin> bs_Name ` set bs" using Cons.prems by simp
  then have "List.find (\<lambda>x. bs_Name x = bs_Name b) bs = None"
    unfolding find_None_iff by (metis imageI)
  with Cons show ?case by (auto split: option.split)
qed simp

lemma computeAllocatableDevices_find:
  "distinct (map bs_Name bs) \<Longrightarrow>
   computeAllocatableDevices bs n = map_option bridgeToDevice (List.find (\<lambda>b. bs_Name b = n) bs)"
  by (simp add: computeAllocatableDevices_def fold_bridges split: option.split)

lemma computeAllocatableDevices_iff:
  assumes "distinct (map bs_Name bs)"
  shows "computeAllocatableDevices bs n = Some ad \<longleftrightarrow> (\<exists>b \<in> set bs. bs_Name b = n \<and> ad = bridgeToDevice b)"
proof
  assume "computeAllocatableDevices bs n = Some ad"
  then show "\<exists>b \<in> set bs. bs_Name b = n \<and> ad = bridgeToDevice b"
    unfolding computeAllocatableDevices_find [OF assms] by (auto simp: find_Some_iff dest: nth_mem)
next
  assume "\<exists>b \<in> set bs. bs_Name b = n \<and> ad = bridgeToDevice b"
  then obtain b where b: "b \<in> set bs" "bs_Name b = n" "ad = bridgeToDevice b" by blast
  then obtain b' where b': "List.find (\<lambda>b. bs_Name b = n) bs = Some b'"
    by (metis (mono_tags, lifting) find_None_iff not_Some_eq)
  then have "b' \<in> set bs" "bs_Name b' = n" by (auto simp: find_Some_iff dest: nth_mem)
  then have "b' = b" using b assms by (simp add: distinct_map inj_on_def)
  with b b' show "computeAllocatableDevices bs n = Some ad" by (simp add: computeAllocatableDevices_find [OF assms])
qed

lemma computeAllocatableDevices_dom: "dom (computeAllocatableDevices bs) = set (map bs_Name bs)"
proof -
  have "dom (fold (\<lambda>b m. m(bs_Name b \<mapsto> bridgeToDevice b)) bs m) = set (map bs_Name bs) \<union> dom m" for m
    by (induction bs arbitrary: m) auto
  from this [of Map.empty] show ?thesis by (simp add: computeAllocatableDevices_def)
qed

lemma ds_inv_New: "ds_inv DeviceState_New"
  by (simp add: ds_inv_def DeviceState_New_def updateBridges_def computeAllocatableDevices_def)

lemma ds_inv_UpdateConfig: "ds_inv d \<Longrightarrow> UpdateConfig spec d = (r, d') \<Longrightarrow> ds_inv d'"
  by (auto simp: ds_inv_def UpdateConfig_def clearConfig_def updateConfig_def DefaultContainerRootPath_def
      split: option.splits if_splits)

lemma ds_inv_updateBridges:
  assumes "ds_inv d" and "valid_bridges bs"
  shows "ds_inv (updateBridges bs d)"
proof -
  have "ad = bridgeToDevice (ad_BridgeSpec ad) \<and> bs_Name (ad_BridgeSpec ad) = n \<and>
        68 \<le> bs_Mtu (ad_BridgeSpec ad) \<and> bs_Mtu (ad_BridgeSpec ad) \<le> 65535"
    if "computeAllocatableDevices bs n = Some ad" for n ad
  proof -
    from that assms(2) obtain b where "b \<in> set bs" "bs_Name b = n" "ad = bridgeToDevice b"
      by (auto simp: valid_bridges_def computeAllocatableDevices_find find_Some_iff dest: nth_mem)
    with assms(2) show ?thesis by (auto simp: valid_bridges_def list_all_iff bridgeToDevice_def)
  qed
  with assms(1) show ?thesis by (auto simp: ds_inv_def updateBridges_def computeAllocatableDevices_dom)
qed

lemma UpdatePolicyDevices_cases:
  assumes "UpdatePolicyDevices republish bs d w = (r, d', w')"
  obtains (rejected) e where "\<not> valid_bridges bs" "r = Err e" "d' = d" "w' = w"
  | (updated) "valid_bridges bs" "d' = updateBridges bs d"
proof (cases "validate_bridges [] bs")
  case (Some e)
  then have "\<not> valid_bridges bs" using validate_bridges_iff [of "[]" bs] by simp
  with Some assms show ?thesis by (intro rejected) (auto simp: UpdatePolicyDevices_def)
next
  case None
  then have "valid_bridges bs" using validate_bridges_iff [of "[]" bs] by simp
  with None assms show ?thesis
    by (intro updated) (auto simp: UpdatePolicyDevices_def Let_def updateBridges_def split: prod.splits option.splits if_splits)
qed

lemma ds_inv_step: "ds_step republish s s' \<Longrightarrow> ds_inv (fst s) \<Longrightarrow> ds_inv (fst s')"
proof (induction rule: ds_step.induct)
  case (policy_changed bs d w r d' w')
  from policy_changed(1) show ?case
    by (cases rule: UpdatePolicyDevices_cases) (use policy_changed(2) in \<open>auto intro: ds_inv_updateBridges\<close>)
next
  case (callback_set d w f)
  then show ?case by (simp add: SetRepublishCallback_def ds_inv_def)
qed (auto intro: ds_inv_UpdateConfig)

lemma reachable_ds_inv: "ds_reachable republish s \<Longrightarrow> ds_inv (fst s)"
  by (induction rule: ds_reachable.induct) (auto intro: ds_inv_New ds_inv_step)

section \<open>Properties of the advertised devices\<close>

text \<open>
  C29. \<^verbatim>\<open>UpdatePolicyDevices\<close> is all or nothing: a list with a repeated name or an MTU outside
  68..65535 is refused, with the state and the world untouched and the callback not
  called; any other list replaces the devices by exactly one per bridge, whatever the
  callback reports.
\<close>

theorem UpdatePolicyDevices_all_or_nothing:
  "(case UpdatePolicyDevices republish bs d w of
      (r, d', w') \<Rightarrow>
        if valid_bridges bs
        then (\<forall>n. allocatable d' n = map_option bridgeToDevice (List.find (\<lambda>b. bs_Name b = n) bs)) \<and>
             vhostUserConfig d' = vhostUserConfig d \<and>
             w' = (if republishCallback d then snd (republish d' w) else w) \<and>
             (r = Ok ()) = (if republishCallback d then fst (republish d' w) = None else True)
        else d' = d \<and> w' = w \<and> (\<exists>e. r = Err e))"
proof -
  obtain r d' w' where u: "UpdatePolicyDevices republish bs d w = (r, d', w')" by (metis prod_cases3)
  show ?thesis
  proof (cases "valid_bridges bs")
    case False
    with u validate_bridges_iff [of "[]" bs] show ?thesis by (auto simp: UpdatePolicyDevices_def)
  next
    case True
    then have "validate_bridges [] bs = None" using validate_bridges_iff [of "[]" bs] by simp
    with True u show ?thesis
      by (auto simp: UpdatePolicyDevices_def Let_def updateBridges_def valid_bridges_def
          computeAllocatableDevices_find split: prod.splits option.splits)
  qed
qed

text \<open>
  C28. In every state that controller updates can reach, each advertised device is the one
  made from a bridge of that name with an MTU within 68..65535, and a configuration that
  is set has a container root.
\<close>

theorem reachable_devices_valid:
  assumes "ds_reachable republish (d, w)"
  shows "ds_inv d"
  using reachable_ds_inv [OF assms] by simp

definition sample_bridge :: BridgeSpec where
  "sample_bridge = \<lparr>bs_Name = ''br0'', TopologyResource = [], bs_Mtu = 1500\<rparr>"

definition sample_state :: DeviceState where
  "sample_state = updateConfig sample_spec (updateBridges [sample_bridge] DeviceState_New)"

lemma sample_reachable: "ds_reachable (\<lambda>d w. (None, w)) (sample_state, ())"
proof -
  have "UpdatePolicyDevices (\<lambda>d w. (None, w)) [sample_bridge] DeviceState_New () = (Ok (), updateBridges [sample_bridge] DeviceState_New, ())"
    by (simp add: UpdatePolicyDevices_def sample_bridge_def DeviceState_New_def updateBridges_def)
  then have "ds_reachable (\<lambda>d w. (None, w)) (updateBridges [sample_bridge] DeviceState_New, ())"
    by (rule ds_next [OF ds_start policy_changed])
  moreover have "UpdateConfig (Some \<lparr>VhostUser = Some sample_spec\<rparr>) (updateBridges [sample_bridge] DeviceState_New) = (Ok (), sample_state)"
    by (simp add: UpdateConfig_def sample_state_def)
  ultimately show ?thesis by (rule ds_next [OF _ config_changed])
qed

theorem reachable_devices_valid_witness: "ds_inv sample_state \<and> allocatable sample_state ''br0'' \<noteq> None"
proof
  show "ds_inv sample_state" using sample_reachable by (rule reachable_devices_valid)
  show "allocatable sample_state ''br0'' \<noteq> None"
    by (simp add: sample_state_def updateConfig_def updateBridges_def computeAllocatableDevices_def sample_bridge_def)
qed

end
