(* ===== verification/Ovsdb.thy ===== *)
theory Ovsdb
  imports Ovs
begin

text \<open>
  What the port operations of \<^verbatim>\<open>pkg/ovs/client.go\<close> achieve in the database. The database and
  its client library are outside the repository; the locale \<open>ovsdb_server\<close> states what the
  OVSDB protocol (RFC 7047) and the Open vSwitch schema document about a transaction:
  its operations take effect together or not at all, named UUIDs become fresh row UUIDs,
  indexed columns stay unique, and rows without a reference are collected. From this
  follows the contract \<open>ovs_ports\<close> that the device state relies on. An executable server
  with exactly these rules shows that the assumptions can be met, and runs the witnesses.
\<close>

section \<open>The tables\<close>

record ovs_tables =
  t_bridges :: "Bridge list"
  t_ports :: "Port list"
  t_ifaces :: "Interface list"

text \<open>
  Schema and referential integrity: indexed names and UUIDs are unique, references lead
  to rows, and every port and interface is referenced.
\<close>

definition wf_tables :: "ovs_tables \<Rightarrow> bool" where
  "wf_tables T \<longleftrightarrow>
     distinct (map br_Name (t_bridges T)) \<and>
     distinct (map port_Name (t_ports T)) \<and> distinct (map port_UUID (t_ports T)) \<and>
     list_all (\<lambda>p. port_UUID p \<noteq> []) (t_ports T) \<and>
     list_all (\<lambda>b. list_all (\<lambda>u. list_ex (\<lambda>p. port_UUID p = u) (t_ports T)) (br_Ports b)) (t_bridges T) \<and>
     list_all (\<lambda>p. list_ex (\<lambda>b. port_UUID p \<in> set (br_Ports b)) (t_bridges T)) (t_ports T) \<and>
     list_all (\<lambda>i. list_ex (\<lambda>p. if_UUID i \<in> set (port_Interfaces p)) (t_ports T)) (t_ifaces T)"

text \<open>The pairs of a bridge name and the name of a port on it.\<close>

definition attached_ports :: "ovs_tables \<Rightarrow> (string \<times> string) set" where
  "attached_ports T =
     {(br_Name b, port_Name p) | b p. b \<in> set (t_bridges T) \<and> p \<in> set (t_ports T) \<and> port_UUID p \<in> set (br_Ports b)}"

definition has_bridge :: "ovs_tables \<Rightarrow> string \<Rightarrow> bool" where
  "has_bridge T name \<longleftrightarrow> name \<in> set (map br_Name (t_bridges T))"

section \<open>Transactions\<close>

text \<open>The mutation of a set-valued column.\<close>

fun mutate_set :: "Mutator \<Rightarrow> string list \<Rightarrow> string list \<Rightarrow> string list" where
  "mutate_set MutateOperationInsert us xs = xs @ filter (\<lambda>u. u \<notin> set xs) us"
| "mutate_set MutateOperationDelete us xs = filter (\<lambda>u. u \<notin> set us) xs"

text \<open>Effect of one operation, with \<open>\<sigma>\<close> giving the row UUID for a named UUID.\<close>

fun apply_call :: "(string \<Rightarrow> string) \<Rightarrow> ovs_call \<Rightarrow> ovs_tables \<Rightarrow> ovs_tables" where
  "apply_call \<sigma> (CreateInterfaceRow i) T = T\<lparr>t_ifaces := t_ifaces T @ [i\<lparr>if_UUID := \<sigma> (if_UUID i)\<rparr>]\<rparr>"
| "apply_call \<sigma> (CreatePortRow p) T =
     T\<lparr>t_ports := t_ports T @ [p\<lparr>port_UUID := \<sigma> (port_UUID p), port_Interfaces := map \<sigma> (port_Interfaces p)\<rparr>]\<rparr>"
| "apply_call \<sigma> (MutateBridgePorts name m us) T =
     T\<lparr>t_bridges := map (\<lambda>b. if br_Name b = name
         then b\<lparr>br_Ports := mutate_set m (map \<sigma> us) (br_Ports b)\<rparr> else b) (t_bridges T)\<rparr>"
| "apply_call \<sigma> (SelectPortByName n) T = T"
| "apply_call \<sigma> (SelectPortByInterface u) T = T"

text \<open>Garbage collection at commit: ports that no bridge refers to, then interfaces that no port refers to.\<close>

definition gc :: "ovs_tables \<Rightarrow> ovs_tables" where
  "gc T =
     (let ps = filter (\<lambda>p. list_ex (\<lambda>b. port_UUID p \<in> set (br_Ports b)) (t_bridges T)) (t_ports T)
      in T\<lparr>t_ports := ps,
           t_ifaces := filter (\<lambda>i. list_ex (\<lambda>p. if_UUID i \<in> set (port_Interfaces p)) ps) (t_ifaces T)\<rparr>)"

fun named_uuids :: "ovs_call list \<Rightarrow> string list" where
  "named_uuids [] = []"
| "named_uuids (CreateInterfaceRow i # cs) = if_UUID i # named_uuids cs"
| "named_uuids (CreatePortRow p # cs) = port_UUID p # named_uuids cs"
| "named_uuids (MutateBridgePorts n m us # cs) = named_uuids cs"
| "named_uuids (SelectPortByName n # cs) = named_uuids cs"
| "named_uuids (SelectPortByInterface u # cs) = named_uuids cs"

definition fresh_naming :: "(string \<Rightarrow> string) \<Rightarrow> ovs_call list \<Rightarrow> ovs_tables \<Rightarrow> bool" where
  "fresh_naming \<sigma> cs T \<longleftrightarrow>
     (\<forall>u. u \<notin> set (named_uuids cs) \<longrightarrow> \<sigma> u = u) \<and>
     (\<forall>u. u \<in> set (named_uuids cs) \<longrightarrow> \<sigma> u \<notin> port_UUID ` set (t_ports T))"

definition committed :: "ovs_call list \<Rightarrow> ovs_tables \<Rightarrow> ovs_tables \<Rightarrow> bool" where
  "committed cs T T' \<longleftrightarrow> (\<exists>\<sigma>. fresh_naming \<sigma> cs T \<and> T' = gc (fold (apply_call \<sigma>) cs T))"

section \<open>Lemmas on tables\<close>

lemma gc_wf: "wf_tables T \<Longrightarrow> gc T = T"
proof -
  assume wf: "wf_tables T"
  then have "filter (\<lambda>p. list_ex (\<lambda>b. port_UUID p \<in> set (br_Ports b)) (t_bridges T)) (t_ports T) = t_ports T"
    by (auto simp: wf_tables_def list_all_iff)
  moreover from wf have "filter (\<lambda>i. list_ex (\<lambda>p. if_UUID i \<in> set (port_Interfaces p)) (t_ports T)) (t_ifaces T) = t_ifaces T"
    by (auto simp: wf_tables_def list_all_iff)
  ultimately show ?thesis by (simp add: gc_def)
qed

lemma attached_gc [simp]: "attached_ports (gc T) = attached_ports T"
  by (auto simp: attached_ports_def gc_def list_ex_iff)

lemma wf_bridge_ref:
  "wf_tables T \<Longrightarrow> b \<in> set (t_bridges T) \<Longrightarrow> u \<in> set (br_Ports b) \<Longrightarrow> u \<in> port_UUID ` set (t_ports T)"
  by (fastforce simp: wf_tables_def list_all_iff list_ex_iff)

lemma wf_port_unique:
  "wf_tables T \<Longrightarrow> p \<in> set (t_ports T) \<Longrightarrow> q \<in> set (t_ports T) \<Longrightarrow>
   port_UUID p = port_UUID q \<or> port_Name p = port_Name q \<Longrightarrow> p = q"
  by (auto simp: wf_tables_def distinct_map inj_on_def)

text \<open>The create transaction attaches the port to the bridge of that name, if there is one.\<close>

abbreviation create_calls :: "string \<Rightarrow> string \<Rightarrow> string \<Rightarrow> OvsPortParams \<Rightarrow> ovs_call list" where
  "create_calls b n s ps \<equiv>
     [CreateInterfaceRow (new_iface n s ps), CreatePortRow (new_port n ps),
      MutateBridgePorts b MutateOperationInsert [''newport'']]"

text \<open>
  Attached pairs after the bridges were rewritten by \<open>f\<close> (which keeps names) and ports
  \<open>qs\<close> were added.
\<close>

lemma attached_rewrite:
  assumes "\<And>b. br_Name (f b) = br_Name b"
  shows "attached_ports (T\<lparr>t_ifaces := js, t_ports := t_ports T @ qs, t_bridges := map f (t_bridges T)\<rparr>)
    = {(br_Name b, port_Name p) | b p. b \<in> set (t_bridges T) \<and> p \<in> set (t_ports T) \<union> set qs \<and> port_UUID p \<in> set (br_Ports (f b))}"
proof -
  have "attached_ports (T\<lparr>t_ifaces := js, t_ports := t_ports T @ qs, t_bridges := map f (t_bridges T)\<rparr>)
    = {(br_Name b, port_Name p) | b p. b \<in> f ` set (t_bridges T) \<and> p \<in> set (t_ports T) \<union> set qs \<and> port_UUID p \<in> set (br_Ports b)}"
    by (simp add: attached_ports_def)
  also have "\<dots> = {(br_Name (f b), port_Name p) | b p. b \<in> set (t_bridges T) \<and> p \<in> set (t_ports T) \<union> set qs \<and> port_UUID p \<in> set (br_Ports (f b))}"
    by blast
  finally show ?thesis by (simp only: assms)
qed

lemma committed_create:
  assumes "wf_tables T" and "committed (create_calls b n s ps) T T'"
  shows "attached_ports T' = attached_ports T \<union> (if has_bridge T b then {(b, n)} else {})"
proof -
  from assms(2) obtain \<sigma> where fresh: "\<sigma> ''newport'' \<notin> port_UUID ` set (t_ports T)"
    and T': "T' = gc (fold (apply_call \<sigma>) (create_calls b n s ps) T)"
    by (auto simp: committed_def fresh_naming_def new_iface_def new_port_def)
  define f where "f = (\<lambda>x :: Bridge. if br_Name x = b
    then x\<lparr>br_Ports := mutate_set MutateOperationInsert (map \<sigma> [''newport'']) (br_Ports x)\<rparr> else x)"
  define q where "q = (new_port n ps)\<lparr>port_UUID := \<sigma> ''newport'', port_Interfaces := [\<sigma> ''newiface'']\<rparr>"
  have name: "br_Name (f x) = br_Name x" for x by (simp add: f_def)
  have q: "port_UUID q = \<sigma> ''newport''" "port_Name q = n" by (simp_all add: q_def new_port_def)
  have old: "port_UUID p \<in> set (br_Ports (f x)) \<longleftrightarrow> port_UUID p \<in> set (br_Ports x)" if "p \<in> set (t_ports T)" for p x
  proof -
    from fresh that have "port_UUID p \<noteq> \<sigma> ''newport''" by (metis imageI)
    then show ?thesis by (simp add: f_def)
  qed
  have new: "port_UUID q \<in> set (br_Ports (f x)) \<longleftrightarrow> br_Name x = b" if "x \<in> set (t_bridges T)" for x
    using wf_bridge_ref [OF assms(1) that, of "\<sigma> ''newport''"] fresh by (auto simp: f_def q(1))
  have "attached_ports T' =
     {(br_Name x, port_Name p) | x p. x \<in> set (t_bridges T) \<and> p \<in> set (t_ports T) \<union> set [q] \<and> port_UUID p \<in> set (br_Ports (f x))}"
    unfolding T' attached_gc
    by (subst attached_rewrite [OF name, symmetric, where js = "t_ifaces T @ [(new_iface n s ps)\<lparr>if_UUID := \<sigma> (if_UUID (new_iface n s ps))\<rparr>]"])
       (simp add: f_def q_def new_port_def)
  also have "\<dots> =
     {(br_Name x, port_Name p) | x p. x \<in> set (t_bridges T) \<and> p \<in> set (t_ports T) \<and> port_UUID p \<in> set (br_Ports (f x))}
     \<union> {(br_Name x, port_Name q) | x. x \<in> set (t_bridges T) \<and> port_UUID q \<in> set (br_Ports (f x))}"
    by auto
  also have "\<dots> = attached_ports T \<union> {(br_Name x, n) | x. x \<in> set (t_bridges T) \<and> br_Name x = b}"
    by (simp add: attached_ports_def old new q(2) cong: conj_cong)
  also have "{(br_Name x, n) | x. x \<in> set (t_bridges T) \<and> br_Name x = b} = (if has_bridge T b then {(b, n)} else {})"
    by (auto simp: has_bridge_def)
  finally show ?thesis .
qed

lemma committed_delete:
  assumes "wf_tables T" and "committed [MutateBridgePorts b MutateOperationDelete [u]] T T'"
    and "p \<in> set (t_ports T)" and "port_UUID p = u" and "port_Name p = n"
  shows "attached_ports T' = attached_ports T - {(b, n)}"
proof -
  from assms(2) obtain \<sigma> where "\<And>x. \<sigma> x = x"
    and "T' = gc (apply_call \<sigma> (MutateBridgePorts b MutateOperationDelete [u]) T)"
    by (auto simp: committed_def fresh_naming_def)
  moreover from this(1) have "\<sigma> = id" by (simp add: fun_eq_iff)
  ultimately have T': "T' = gc (apply_call id (MutateBridgePorts b MutateOperationDelete [u]) T)" by simp
  define f where "f = (\<lambda>x :: Bridge. if br_Name x = b
    then x\<lparr>br_Ports := mutate_set MutateOperationDelete (map id [u]) (br_Ports x)\<rparr> else x)"
  have name: "br_Name (f x) = br_Name x" for x by (simp add: f_def)
  have un: "port_UUID q = u \<longleftrightarrow> port_Name q = n" if "q \<in> set (t_ports T)" for q
    using wf_port_unique [OF assms(1) that assms(3)] assms(4,5) by auto
  have ref: "port_UUID q \<in> set (br_Ports (f x)) \<longleftrightarrow> port_UUID q \<in> set (br_Ports x) \<and> (br_Name x, port_Name q) \<noteq> (b, n)"
    if "q \<in> set (t_ports T)" for q x
    using un [OF that] by (auto simp: f_def)
  have "attached_ports T' =
     {(br_Name x, port_Name p) | x p. x \<in> set (t_bridges T) \<and> p \<in> set (t_ports T) \<union> set [] \<and> port_UUID p \<in> set (br_Ports (f x))}"
    unfolding T' attached_gc
    by (subst attached_rewrite [OF name, symmetric, where js = "t_ifaces T"]) (simp add: f_def)
  also have "\<dots> = attached_ports T - {(b, n)}"
    using ref unfolding attached_ports_def by auto
  finally show ?thesis .
qed

text \<open>No operation of the driver adds, renames or removes a bridge.\<close>

lemma apply_call_bridges: "map br_Name (t_bridges (apply_call \<sigma> c T)) = map br_Name (t_bridges T)"
  by (cases c) (auto intro!: map_cong)

lemma committed_bridges: "committed cs T T' \<Longrightarrow> has_bridge T' = has_bridge T"
proof -
  have "map br_Name (t_bridges (fold (apply_call \<sigma>) cs T)) = map br_Name (t_bridges T)" for \<sigma>
    by (induction cs arbitrary: T) (simp_all add: apply_call_bridges)
  then show "committed cs T T' \<Longrightarrow> has_bridge T' = has_bridge T"
    by (auto simp: committed_def gc_def Let_def has_bridge_def fun_eq_iff simp del: set_map)
qed

section \<open>The contract of a port provider\<close>

text \<open>
  What the device state relies on. A creation that reports success attaches the port,
  provided the bridge exists; a deletion that reports success detaches it; the sentinel
  error means that it was not attached; any other error leaves the port in one of the
  two states and nothing else changed.
\<close>

locale ovs_ports =
  fixes create :: "string \<Rightarrow> string \<Rightarrow> string \<Rightarrow> OvsPortParams \<Rightarrow> 'w \<Rightarrow> unit res \<times> 'w"
    and delete :: "string \<Rightarrow> string \<Rightarrow> 'w \<Rightarrow> unit res \<times> 'w"
    and attached :: "'w \<Rightarrow> (string \<times> string) set"
    and bridge_in :: "'w \<Rightarrow> string \<Rightarrow> bool"
    and sound :: "'w \<Rightarrow> bool"
  assumes create_ok: "sound w \<Longrightarrow> create b n s ps w = (Ok (), w') \<Longrightarrow>
      attached w' = attached w \<union> (if bridge_in w b then {(b, n)} else {})"
    and create_err: "sound w \<Longrightarrow> create b n s ps w = (Err e, w') \<Longrightarrow>
      attached w' = attached w \<or> attached w' = insert (b, n) (attached w)"
    and create_sound: "sound w \<Longrightarrow> create b n s ps w = (r, w') \<Longrightarrow> sound w'"
    and create_bridges: "sound w \<Longrightarrow> create b n s ps w = (r, w') \<Longrightarrow> bridge_in w' = bridge_in w"
    and create_no_panic: "fst (create b n s ps w) \<noteq> Panic m"
    and delete_ok: "sound w \<Longrightarrow> delete b n w = (Ok (), w') \<Longrightarrow> attached w' = attached w - {(b, n)}"
    and delete_missing: "sound w \<Longrightarrow> delete b n w = (Err e, w') \<Longrightarrow> errors_Is e ErrPortNotFound \<Longrightarrow>
      attached w' = attached w \<and> (b, n) \<notin> attached w"
    and delete_err: "sound w \<Longrightarrow> delete b n w = (Err e, w') \<Longrightarrow>
      attached w' = attached w \<or> attached w' = attached w - {(b, n)}"
    and delete_sound: "sound w \<Longrightarrow> delete b n w = (r, w') \<Longrightarrow> sound w'"
    and delete_bridges: "sound w \<Longrightarrow> delete b n w = (r, w') \<Longrightarrow> bridge_in w' = bridge_in w"
    and delete_no_panic: "fst (delete b n w) \<noteq> Panic m"
begin

text \<open>Both operations, on every outcome.\<close>

lemma create_effect:
  assumes "sound w" and "create b n s ps w = (r, w')"
  shows "sound w' \<and>
    (case r of
       Ok _ \<Rightarrow> attached w' = attached w \<union> (if bridge_in w b then {(b, n)} else {})
     | Err _ \<Rightarrow> attached w' \<in> {attached w, insert (b, n) (attached w)}
     | Panic _ \<Rightarrow> False)"
proof (cases r)
  case (Ok u)
  with assms show ?thesis using create_ok [of w b n s ps w'] create_sound by simp
next
  case (Err e)
  with assms show ?thesis using create_err [of w b n s ps e w'] create_sound by simp
next
  case (Panic m)
  with assms(2) create_no_panic [of b n s ps w m] show ?thesis by simp
qed

lemma delete_effect:
  assumes "sound w" and "delete b n w = (r, w')"
  shows "sound w' \<and>
    (case r of
       Ok _ \<Rightarrow> attached w' = attached w - {(b, n)}
     | Err e \<Rightarrow> (if errors_Is e ErrPortNotFound then attached w' = attached w \<and> (b, n) \<notin> attached w
                else attached w' \<in> {attached w, attached w - {(b, n)}})
     | Panic _ \<Rightarrow> False)"
proof (cases r)
  case (Ok u)
  with assms show ?thesis using delete_ok [of w b n w'] delete_sound by simp
next
  case (Err e)
  with assms show ?thesis using delete_err [of w b n e w'] delete_missing [of w b n e w'] delete_sound by auto
next
  case (Panic m)
  with assms(2) delete_no_panic [of b n w m] show ?thesis by simp
qed

text \<open>The frame of both operations: other ports keep their state.\<close>

lemma create_frame:
  assumes "sound w" and "create b n s ps w = (r, w')" and "x \<noteq> (b, n)"
  shows "x \<in> attached w' \<longleftrightarrow> x \<in> attached w"
  using create_effect [OF assms(1,2)] assms(3) by (auto split: res.splits if_splits)

lemma delete_frame:
  assumes "sound w" and "delete b n w = (r, w')" and "x \<noteq> (b, n)"
  shows "x \<in> attached w' \<longleftrightarrow> x \<in> attached w"
  using delete_effect [OF assms(1,2)] assms(3) by (auto split: res.splits if_splits)

end

section \<open>The documented behaviour of the database\<close>

text \<open>
  \<open>calls\<close> reads the operations that the library built; \<open>tables\<close> is the content of the
  database. A transaction whose results carry no error has committed, one with an error
  has been aborted; when the connection breaks, either may have happened. The last four
  laws say that the driver's own sentinel never comes out of the library.
\<close>

locale ovsdb_server =
  fixes lib :: "('op, 'res, 'db) libovsdb"
    and calls :: "'op list \<Rightarrow> ovs_call list"
    and tables :: "'db \<Rightarrow> ovs_tables"
  assumes build: "lib_build lib c = Inr ops \<Longrightarrow> calls ops = [c]"
    and calls_append: "calls (ops @ ops') = calls ops @ calls ops'"
    and schema: "wf_tables (tables db) \<Longrightarrow> lib_Transact lib ops db = (r, db') \<Longrightarrow> wf_tables (tables db')"
    and commit: "lib_Transact lib ops db = (Inr res, db') \<Longrightarrow>
      lib_CheckOperationResults lib res ops = None \<Longrightarrow> committed (calls ops) (tables db) (tables db')"
    and abort: "lib_Transact lib ops db = (Inr res, db') \<Longrightarrow>
      lib_CheckOperationResults lib res ops = Some es \<Longrightarrow> tables db' = tables db"
    and broken: "lib_Transact lib ops db = (Inl e, db') \<Longrightarrow>
      tables db' = tables db \<or> committed (calls ops) (tables db) (tables db')"
    and select: "lib_Transact lib ops db = (Inr res, db') \<Longrightarrow> calls ops = [SelectPortByName n] \<Longrightarrow>
      lib_GetSelectResults lib ops res = Inr ps \<Longrightarrow>
      map port_UUID ps = map port_UUID (filter (\<lambda>p. port_Name p = n) (t_ports (tables db)))"
    and foreign_build: "lib_build lib c = Inl e \<Longrightarrow> \<not> errors_Is e ErrPortNotFound"
    and foreign_transact: "lib_Transact lib ops db = (Inl e, db') \<Longrightarrow> \<not> errors_Is e ErrPortNotFound"
    and foreign_check: "lib_CheckOperationResults lib res ops = Some es \<Longrightarrow>
      \<not> (\<exists>e \<in> set es. errors_Is e ErrPortNotFound)"
    and foreign_select: "lib_GetSelectResults lib ops res = Inl e \<Longrightarrow> \<not> errors_Is e ErrPortNotFound"
begin

lemma reads_unchanged:
  assumes "wf_tables (tables db)" and "lib_Transact lib ops db = (r, db')" and "\<And>\<sigma> T. fold (apply_call \<sigma>) (calls ops) T = T"
  shows "tables db' = tables db"
proof -
  have c: "T' = tables db" if "committed (calls ops) (tables db) T'" for T'
    using that assms(1,3) by (auto simp: committed_def gc_wf)
  show ?thesis
  proof (cases r)
    case (Inl e)
    with assms(2) broken c show ?thesis by blast
  next
    case (Inr res)
    with assms(2) abort commit c show ?thesis by (cases "lib_CheckOperationResults lib res ops") blast+
  qed
qed

lemma select_unchanged:
  assumes "wf_tables (tables db)" and "lib_Transact lib ops db = (r, db')" and "calls ops = [SelectPortByName n]"
  shows "tables db' = tables db"
  by (rule reads_unchanged [OF assms(1,2)]) (simp add: assms(3))

text \<open>The events of the NUMA map only read the database.\<close>

lemma findPortWithIface_unchanged:
  assumes "wf_tables (tables db)" and "findPortWithIface lib u db = (r, db')"
  shows "tables db' = tables db"
proof -
  have "tables db1 = tables db" if "lib_build lib (SelectPortByInterface u) = Inr ops" "lib_Transact lib ops db = (x, db1)" for ops x db1
    by (rule reads_unchanged [OF assms(1) that(2)]) (simp add: build [OF that(1)])
  with assms(2) show ?thesis by (auto simp: findPortWithIface_def split: sum.splits prod.splits list.splits)
qed

lemma processInterfaceEvent_unchanged:
  assumes "wf_tables (tables db)" and "processInterfaceEvent readFile lib order c db = Some (ns, c', db')"
  shows "tables db' = tables db"
  using assms findPortWithIface_unchanged [OF assms(1)]
  by (auto simp: processInterfaceEvent_def handleInterfaceAdd_def Let_def
      split: list.splits if_splits sum.splits prod.splits)

lemma findPortUUID_spec:
  assumes wf: "wf_tables (tables db)" and "findPortUUID lib n db = (r, db')"
  shows "tables db' = tables db"
    and "\<And>e. r = Inl e \<Longrightarrow> \<not> errors_Is e ErrPortNotFound"
    and "r = Inr [] \<Longrightarrow> \<not> (\<exists>p \<in> set (t_ports (tables db)). port_Name p = n)"
    and "\<And>u. r = Inr u \<Longrightarrow> u \<noteq> [] \<Longrightarrow> \<exists>p \<in> set (t_ports (tables db)). port_UUID p = u \<and> port_Name p = n"
proof -
  let ?hits = "filter (\<lambda>p. port_Name p = n) (t_ports (tables db))"
  have nonempty: "port_UUID p \<noteq> []" if "p \<in> set (t_ports (tables db))" for p
    using wf that by (simp add: wf_tables_def list_all_iff)
  consider (build) e where "lib_build lib (SelectPortByName n) = Inl e" "db' = db" "\<exists>f as. r = Inl (Errorf f as [e])"
    | (transact) e ops where "lib_build lib (SelectPortByName n) = Inr ops" "lib_Transact lib ops db = (Inl e, db')"
        "\<exists>f as. r = Inl (Errorf f as [e]) \<and> f \<noteq> []"
    | (parse) e ops res where "lib_build lib (SelectPortByName n) = Inr ops" "lib_Transact lib ops db = (Inr res, db')"
        "lib_GetSelectResults lib ops res = Inl e" "\<exists>f as. r = Inl (Errorf f as [e])"
    | (rows) ps ops res where "lib_build lib (SelectPortByName n) = Inr ops" "lib_Transact lib ops db = (Inr res, db')"
        "lib_GetSelectResults lib ops res = Inr ps" "r = Inr (case map port_UUID ps of [] \<Rightarrow> [] | u # us \<Rightarrow> u)"
    using assms(2) by (auto simp: findPortUUID_def split: sum.splits prod.splits list.splits)
  note cases = this
  from cases show "tables db' = tables db"
    by cases (use select_unchanged [OF wf] build in \<open>blast+\<close>)
  from cases show "\<not> errors_Is e ErrPortNotFound" if "r = Inl e" for e
    using that by cases (auto simp: errors_Is_Errorf dest: foreign_build foreign_transact foreign_select)
  have hits: "map port_UUID ps = map port_UUID ?hits"
    if "lib_build lib (SelectPortByName n) = Inr ops" "lib_Transact lib ops db = (Inr res, db')"
       "lib_GetSelectResults lib ops res = Inr ps" for ps ops res
    using select [OF that(2) build [OF that(1)] that(3)] .
  from cases show "\<not> (\<exists>p \<in> set (t_ports (tables db)). port_Name p = n)" if "r = Inr []"
  proof cases
    case (rows ps ops res)
    with that hits [OF rows(1-3)] have "?hits = []"
      using nonempty by (cases ?hits) (auto simp: filter_eq_Cons_iff)
    then show ?thesis by (auto simp: filter_empty_conv)
  qed (use that in auto)
  from cases show "\<exists>p \<in> set (t_ports (tables db)). port_UUID p = u \<and> port_Name p = n" if "r = Inr u" "u \<noteq> []" for u
  proof cases
    case (rows ps ops res)
    with that hits [OF rows(1-3)] obtain p where "p \<in> set ?hits" "port_UUID p = u"
      by (cases ?hits) auto
    then show ?thesis by auto
  qed (use that in auto)
qed

text \<open>How \<^verbatim>\<open>CreatePort\<close> can end, by what the transaction did.\<close>

lemma CreatePort_cases:
  assumes "ovsClient_CreatePort lib b n s ps db = (r, db')"
  obtains (unbuilt) e where "r = Err e" "db' = db"
  | (lost) ops e e' where "calls ops = create_calls b n s ps" "lib_Transact lib ops db = (Inl e', db')" "r = Err e"
  | (refused) ops res es e where "calls ops = create_calls b n s ps" "lib_Transact lib ops db = (Inr res, db')"
      "lib_CheckOperationResults lib res ops = Some es" "r = Err e"
  | (applied) ops res where "calls ops = create_calls b n s ps" "lib_Transact lib ops db = (Inr res, db')"
      "lib_CheckOperationResults lib res ops = None" "r = Ok ()"
proof -
  have ops: "calls (o1 @ o2 @ o3) = create_calls b n s ps"
    if "lib_build lib (CreateInterfaceRow (new_iface n s ps)) = Inr o1"
       "lib_build lib (CreatePortRow (new_port n ps)) = Inr o2"
       "lib_build lib (MutateBridgePorts b MutateOperationInsert [''newport'']) = Inr o3" for o1 o2 o3
    using that by (simp add: calls_append build)
  from assms show ?thesis
    unfolding ovsClient_CreatePort_def Let_def
    by (auto split: sum.splits prod.splits option.splits intro: unbuilt lost [OF ops] refused [OF ops] applied [OF ops])
qed

lemma DeletePort_cases:
  assumes wf: "wf_tables (tables db)" and "ovsClient_DeletePort lib b n db = (r, db')"
  obtains (failed) e where "r = Err e" "tables db' = tables db" "\<not> errors_Is e ErrPortNotFound"
  | (missing) "r = Err ErrPortNotFound" "tables db' = tables db"
      "\<not> (\<exists>p \<in> set (t_ports (tables db)). port_Name p = n)"
  | (lost) p e where "p \<in> set (t_ports (tables db))" "port_Name p = n" "r = Err e" "\<not> errors_Is e ErrPortNotFound"
      "tables db' = tables db \<or> committed [MutateBridgePorts b MutateOperationDelete [port_UUID p]] (tables db) (tables db')"
  | (applied) p where "p \<in> set (t_ports (tables db))" "port_Name p = n" "r = Ok ()"
      "committed [MutateBridgePorts b MutateOperationDelete [port_UUID p]] (tables db) (tables db')"
proof -
  obtain f db1 where f: "findPortUUID lib n db = (f, db1)" by (cases "findPortUUID lib n db")
  note find = findPortUUID_spec [OF wf f]
  show ?thesis
  proof (cases f)
    case (Inl e)
    with assms(2) f find(1,2) show ?thesis by (intro failed) (auto simp: ovsClient_DeletePort_def)
  next
    case (Inr u)
    show ?thesis
    proof (cases "u = []")
      case True
      with assms(2) f Inr find(1,3) show ?thesis by (intro missing) (auto simp: ovsClient_DeletePort_def)
    next
      case False
      with find(4) [OF Inr] obtain p where p: "p \<in> set (t_ports (tables db))" "port_UUID p = u" "port_Name p = n" by auto
      let ?c = "MutateBridgePorts b MutateOperationDelete [u]"
      consider (b) e where "lib_build lib ?c = Inl e" "r = Err (Errorf ''build bridge mutate op: %w'' [] [e])" "db' = db1"
        | (t) ops e where "lib_build lib ?c = Inr ops" "lib_Transact lib ops db1 = (Inl e, db')"
            "r = Err (Errorf ''delete port transaction: %w'' [] [e])"
        | (c) ops res es as where "lib_build lib ?c = Inr ops" "lib_Transact lib ops db1 = (Inr res, db')"
            "lib_CheckOperationResults lib res ops = Some es"
            "r = Err (Errorf ''delete port %q from bridge %q: %w'' as (opt_list (joinOpErrors es)))"
        | (d) ops res where "lib_build lib ?c = Inr ops" "lib_Transact lib ops db1 = (Inr res, db')"
            "lib_CheckOperationResults lib res ops = None" "r = Ok ()"
        using assms(2) f Inr False
        by (auto simp: ovsClient_DeletePort_def split: sum.splits prod.splits option.splits)
      then show ?thesis
      proof cases
        case b
        with find(1) show ?thesis by (intro failed) (auto simp: errors_Is_Errorf dest: foreign_build)
      next
        case t
        with p find(1) broken [OF t(2)] build [OF t(1)] show ?thesis
          by (intro lost [of p]) (auto simp: errors_Is_Errorf dest: foreign_transact)
      next
        case c
        with find(1) abort [OF c(2,3)] foreign_check [OF c(3)] show ?thesis
          by (intro failed) (auto simp: errors_Is_Errorf errors_Is_Joined opt_list_def joinOpErrors_def errors_Join_def list_ex_iff
              split: if_splits)
      next
        case d
        with p find(1) commit [OF d(2,3)] build [OF d(1)] show ?thesis by (intro applied [of p]) auto
      qed
    qed
  qed
qed

lemma CreatePort_sound:
  assumes "wf_tables (tables db)" and "ovsClient_CreatePort lib b n s ps db = (r, db')"
  shows "wf_tables (tables db')"
  using assms(2) by (cases rule: CreatePort_cases) (use assms(1) schema in blast)+

lemma transact_bridges:
  assumes "lib_Transact lib ops db = (r, db')"
  shows "has_bridge (tables db') = has_bridge (tables db)"
proof (cases r)
  case (Inl e)
  with broken assms show ?thesis using committed_bridges by metis
next
  case (Inr res)
  with assms show ?thesis
    by (cases "lib_CheckOperationResults lib res ops") (auto dest: commit abort committed_bridges)
qed

lemma CreatePort_bridges:
  "ovsClient_CreatePort lib b n s ps db = (r, db') \<Longrightarrow> has_bridge (tables db') = has_bridge (tables db)"
  by (elim CreatePort_cases) (use transact_bridges in blast)+

lemma DeletePort_bridges:
  assumes "wf_tables (tables db)" and "ovsClient_DeletePort lib b n db = (r, db')"
  shows "has_bridge (tables db') = has_bridge (tables db)"
  using assms by (cases rule: DeletePort_cases) (use committed_bridges in fastforce)+

lemma findPortUUID_sound:
  "wf_tables (tables db) \<Longrightarrow> findPortUUID lib n db = (r, db') \<Longrightarrow> wf_tables (tables db')"
  using findPortUUID_spec(1) by simp

lemma DeletePort_sound:
  assumes "wf_tables (tables db)" and "ovsClient_DeletePort lib b n db = (r, db')"
  shows "wf_tables (tables db')"
proof -
  obtain f db1 where f: "findPortUUID lib n db = (f, db1)" by (cases "findPortUUID lib n db")
  note wf1 = findPortUUID_sound [OF assms(1) f]
  from assms(2) f wf1 show ?thesis
    by (auto simp: ovsClient_DeletePort_def split: sum.splits prod.splits option.splits if_splits intro: schema [OF wf1])
qed

end

sublocale ovsdb_server \<subseteq> ports: ovs_ports "ovsClient_CreatePort lib" "ovsClient_DeletePort lib"
  "\<lambda>db. attached_ports (tables db)" "\<lambda>db. has_bridge (tables db)" "\<lambda>db. wf_tables (tables db)"
proof unfold_locales
  fix db b n s ps db' and e :: error
  assume wf: "wf_tables (tables db)"
  show "attached_ports (tables db') = attached_ports (tables db) \<union> (if has_bridge (tables db) b then {(b, n)} else {})"
    if "ovsClient_CreatePort lib b n s ps db = (Ok (), db')"
    using that
  proof (cases rule: CreatePort_cases)
    case (applied ops res)
    from commit [OF applied(2,3)] show ?thesis unfolding applied(1) by (rule committed_create [OF wf])
  qed simp_all
  show "attached_ports (tables db') = attached_ports (tables db) \<or>
      attached_ports (tables db') = insert (b, n) (attached_ports (tables db))"
    if "ovsClient_CreatePort lib b n s ps db = (Err e, db')"
    using that
  proof (cases rule: CreatePort_cases)
    case (lost ops e e')
    from broken [OF lost(2), unfolded lost(1)] show ?thesis
    proof
      assume "committed (create_calls b n s ps) (tables db) (tables db')"
      from committed_create [OF wf this] show ?thesis by (simp split: if_splits)
    qed simp
  qed (simp_all add: abort)
  show "attached_ports (tables db') = attached_ports (tables db) - {(b, n)}"
    if "ovsClient_DeletePort lib b n db = (Ok (), db')"
    using wf that by (cases rule: DeletePort_cases) (use committed_delete [OF wf] in fastforce)+
  show "attached_ports (tables db') = attached_ports (tables db) \<and> (b, n) \<notin> attached_ports (tables db)"
    if "ovsClient_DeletePort lib b n db = (Err e, db')" "errors_Is e ErrPortNotFound"
    using wf that(1) by (cases rule: DeletePort_cases) (use that(2) in \<open>auto simp: attached_ports_def\<close>)
  show "attached_ports (tables db') = attached_ports (tables db) \<or>
      attached_ports (tables db') = attached_ports (tables db) - {(b, n)}"
    if "ovsClient_DeletePort lib b n db = (Err e, db')"
    using wf that by (cases rule: DeletePort_cases) (use committed_delete [OF wf] in fastforce)+
next
  fix db b n s ps r db'
  assume "wf_tables (tables db)"
  then show "wf_tables (tables db')" if "ovsClient_CreatePort lib b n s ps db = (r, db')"
    using that by (rule CreatePort_sound)
  show "has_bridge (tables db') = has_bridge (tables db)" if "ovsClient_CreatePort lib b n s ps db = (r, db')"
    using that by (rule CreatePort_bridges)
next
  fix db b n r db'
  assume wf: "wf_tables (tables db)"
  then show "wf_tables (tables db')" if "ovsClient_DeletePort lib b n db = (r, db')"
    using that by (rule DeletePort_sound)
  show "has_bridge (tables db') = has_bridge (tables db)" if "ovsClient_DeletePort lib b n db = (r, db')"
    using wf that by (rule DeletePort_bridges)
next
  show "fst (ovsClient_CreatePort lib b n s ps db) \<noteq> Panic m" for b n s ps db m
    by (auto simp: ovsClient_CreatePort_def Let_def split: sum.splits prod.splits option.splits)
  show "fst (ovsClient_DeletePort lib b n db) \<noteq> Panic m" for b n db m
    by (auto simp: ovsClient_DeletePort_def split: sum.splits prod.splits option.splits)
qed

context ovsdb_server
begin

lemmas CreatePort_effect_law = ports.create_effect
lemmas DeletePort_effect_law = ports.delete_effect

end

section \<open>An executable server\<close>

text \<open>
  A server in memory that follows the documented rules: it checks the schema at commit
  and answers an aborted transaction with one error result.
\<close>

datatype ref_result = Done | Rows "Port list" | OperationError error

definition ref_naming :: "ovs_call list \<Rightarrow> ovs_tables \<Rightarrow> string \<Rightarrow> string" where
  "ref_naming cs T u = (if u \<in> set (named_uuids cs) then u @ ''@'' @ concat (map port_UUID (t_ports T)) else u)"

fun ref_result_of :: "ovs_tables \<Rightarrow> ovs_call \<Rightarrow> ref_result" where
  "ref_result_of T (SelectPortByName n) = Rows (filter (\<lambda>p. port_Name p = n) (t_ports T))"
| "ref_result_of T (SelectPortByInterface u) = Rows (filter (\<lambda>p. u \<in> set (port_Interfaces p)) (t_ports T))"
| "ref_result_of T _ = Done"

definition ref_Transact :: "ovs_call list \<Rightarrow> ovs_tables \<Rightarrow> (error + ref_result list) \<times> ovs_tables" where
  "ref_Transact cs T =
     (let T' = gc (fold (apply_call (ref_naming cs T)) cs T)
      in if wf_tables T' then (Inr (map (ref_result_of T) cs), T')
         else (Inr [OperationError (External ''constraint violation'')], T))"

fun result_errors :: "ref_result list \<Rightarrow> error list" where
  "result_errors [] = []"
| "result_errors (OperationError e # rs) = e # result_errors rs"
| "result_errors (Done # rs) = result_errors rs"
| "result_errors (Rows ps # rs) = result_errors rs"

fun result_rows :: "ref_result list \<Rightarrow> Port list" where
  "result_rows [] = []"
| "result_rows (Rows ps # rs) = ps @ result_rows rs"
| "result_rows (Done # rs) = result_rows rs"
| "result_rows (OperationError e # rs) = result_rows rs"

definition ref_lib :: "(ovs_call, ref_result, ovs_tables) libovsdb" where
  "ref_lib =
     \<lparr>lib_build = (\<lambda>c. Inr [c]), lib_Transact = ref_Transact,
      lib_CheckOperationResults = (\<lambda>rs cs. if result_errors rs = [] then None
        else Some (map (\<lambda>e. External ''operation failed'') (result_errors rs))),
      lib_GetSelectResults = (\<lambda>cs rs. if result_errors rs = [] then Inr (result_rows rs) else Inl (External ''operation failed'')),
      lib_GetBridge = (\<lambda>n T. if has_bridge T n then None else Some ErrClientNotFound),
      lib_ListBridgesWithPort = (\<lambda>u T. Inr (filter (\<lambda>b. u \<in> set (br_Ports b)) (t_bridges T)))\<rparr>"

lemma result_errors_ref [simp]: "result_errors (map (ref_result_of T) cs) = []"
proof (induction cs)
  case (Cons c cs)
  then show ?case by (cases c) simp_all
qed simp

lemma ref_naming_fresh: "fresh_naming (ref_naming cs T) cs T"
proof -
  have "length (port_UUID p) < length (u @ ''@'' @ concat (map port_UUID (t_ports T)))" if "p \<in> set (t_ports T)" for p u
  proof -
    from that obtain ps qs where "t_ports T = ps @ p # qs" by (auto simp: in_set_conv_decomp)
    then show ?thesis by simp
  qed
  then have "u @ ''@'' @ concat (map port_UUID (t_ports T)) \<notin> port_UUID ` set (t_ports T)" for u
    by (metis imageE less_irrefl)
  then show ?thesis by (simp add: fresh_naming_def ref_naming_def)
qed

interpretation ref: ovsdb_server ref_lib "\<lambda>cs. cs" "\<lambda>T. T"
proof unfold_locales
  show "committed cs T T'" if "lib_Transact ref_lib cs T = (Inr res, T')" "lib_CheckOperationResults ref_lib res cs = None" for cs T res T'
    using that ref_naming_fresh [of cs T]
    by (auto simp: ref_lib_def ref_Transact_def committed_def Let_def split: if_splits)
  show "map port_UUID ps = map port_UUID (filter (\<lambda>p. port_Name p = n) (t_ports T))"
    if "lib_Transact ref_lib cs T = (Inr res, T')" "cs = [SelectPortByName n]" "lib_GetSelectResults ref_lib cs res = Inr ps"
    for cs T res T' ps n
    using that by (auto simp: ref_lib_def ref_Transact_def Let_def split: if_splits)
qed (auto simp: ref_lib_def ref_Transact_def Let_def split: if_splits)

section \<open>Properties of the port operations\<close>

definition sample_tables :: ovs_tables where
  "sample_tables =
     \<lparr>t_bridges = [\<lparr>br_UUID = ''b0'', br_Name = ''br0'', br_Ports = [''p0''], br_DatapathType = ''netdev''\<rparr>],
      t_ports = [\<lparr>port_UUID = ''p0'', port_Name = ''dpdk0'', port_Tag = None, port_Interfaces = [''i0''],
                  port_ExternalIDs = Map.empty, port_OtherConfig = Map.empty\<rparr>],
      t_ifaces = []\<rparr>"

definition sample_params :: OvsPortParams where
  "sample_params = \<lparr>ExternalIDs = [''claim'' \<mapsto> ''ns/c''], Vlan = Some 7, IngressRate = 0, IngressBurst = 0, Mtu = 1500\<rparr>"

text \<open>
  C26. \<^verbatim>\<open>CreatePort\<close> against a database that follows the OVSDB rules: success attaches exactly
  the new port to an existing bridge, and attaches nothing when no bridge has that name
  (the mutation then matches no row and the new rows are collected); an error leaves the
  ports as they were or, if the connection was lost, with the new port.
\<close>

theorem CreatePort_effect:
  assumes "ovsdb_server lib calls tables" and "wf_tables (tables db)"
    and "ovsClient_CreatePort lib b n s ps db = (r, db')"
  shows "wf_tables (tables db') \<and>
    (case r of
       Ok _ \<Rightarrow> attached_ports (tables db') = attached_ports (tables db) \<union> (if has_bridge (tables db) b then {(b, n)} else {})
     | Err _ \<Rightarrow> attached_ports (tables db') \<in> {attached_ports (tables db), insert (b, n) (attached_ports (tables db))}
     | Panic _ \<Rightarrow> False)"
  using assms(2,3) by (rule ovsdb_server.CreatePort_effect_law [OF assms(1)])

lemma sample_create:
  "ovsClient_CreatePort ref_lib ''br0'' ''vhost-1-2'' ''/run/vhost.sock'' sample_params sample_tables
     = (Ok (), snd (ovsClient_CreatePort ref_lib ''br0'' ''vhost-1-2'' ''/run/vhost.sock'' sample_params sample_tables))"
  by (simp add: prod_eq_iff, code_simp)

theorem CreatePort_effect_witness:
  "attached_ports (snd (ovsClient_CreatePort ref_lib ''br0'' ''vhost-1-2'' ''/run/vhost.sock'' sample_params sample_tables))
     = attached_ports sample_tables \<union> {(''br0'', ''vhost-1-2'')}"
proof -
  have "wf_tables sample_tables" "has_bridge sample_tables ''br0''"
    by (simp_all add: sample_tables_def wf_tables_def has_bridge_def)
  with CreatePort_effect [OF ref.ovsdb_server_axioms _ sample_create] show ?thesis by simp
qed

text \<open>
  C27. \<^verbatim>\<open>DeletePort\<close> against such a database: success means that the port is not on the bridge
  any more and nothing else changed; the sentinel error means that it was not there; after
  any other error the port is still there or gone, and nothing else changed.
\<close>

theorem DeletePort_effect:
  assumes "ovsdb_server lib calls tables" and "wf_tables (tables db)"
    and "ovsClient_DeletePort lib b n db = (r, db')"
  shows "wf_tables (tables db') \<and>
    (case r of
       Ok _ \<Rightarrow> attached_ports (tables db') = attached_ports (tables db) - {(b, n)}
     | Err e \<Rightarrow> (if errors_Is e ErrPortNotFound
                then attached_ports (tables db') = attached_ports (tables db) \<and> (b, n) \<notin> attached_ports (tables db)
                else attached_ports (tables db') \<in> {attached_ports (tables db), attached_ports (tables db) - {(b, n)}})
     | Panic _ \<Rightarrow> False)"
  using assms(2,3) by (rule ovsdb_server.DeletePort_effect_law [OF assms(1)])

lemma sample_delete:
  "ovsClient_DeletePort ref_lib ''br0'' ''dpdk0'' sample_tables = (Ok (), snd (ovsClient_DeletePort ref_lib ''br0'' ''dpdk0'' sample_tables))"
  by (simp add: prod_eq_iff, code_simp)

theorem DeletePort_effect_witness:
  "attached_ports (snd (ovsClient_DeletePort ref_lib ''br0'' ''dpdk0'' sample_tables)) = attached_ports sample_tables - {(''br0'', ''dpdk0'')}"
proof -
  have "wf_tables sample_tables" by (simp add: sample_tables_def wf_tables_def)
  with DeletePort_effect [OF ref.ovsdb_server_axioms _ sample_delete] show ?thesis by simp
qed

end
