(* ===== verification/Prepare.thy ===== *)
theory Prepare
  imports DeviceState Ovsdb
begin

text \<open>
  The contract of the three components that the device state drives, and what the
  preparation of a claim achieves under it. \<open>prepare_backend\<close> joins the contracts of socket
  directories, ports and spec files over one world and says that they do not interfere.
  Its lemmas are proved once; the theory \<open>Node\<close> interprets it on the models of the
  packages and states the properties there.
\<close>

section \<open>Keys of a prepared device\<close>

abbreviation port_key :: "PreparedDevice \<Rightarrow> string \<times> string" where
  "port_key pd \<equiv> (BridgeName pd, OVSPortName pd)"

abbreviation dir_key :: "PreparedDevice \<Rightarrow> string" where
  "dir_key pd \<equiv> HostDir (pd_Mount pd)"

abbreviation uid_key :: "PreparedDevice \<Rightarrow> string" where
  "uid_key pd \<equiv> no_UID (ClaimNamespacedName pd)"

text \<open>The allocation results that belong to this driver.\<close>

definition own_results :: "DeviceRequestAllocationResult list \<Rightarrow> DeviceRequestAllocationResult list" where
  "own_results rs = filter (\<lambda>r. dr_Driver r = DriverName) rs"

text \<open>The pod that a claim is reserved for, of a claim that has one.\<close>

definition pod_ref :: "ResourceClaim \<Rightarrow> ConsumerReference" where
  "pod_ref claim = hd (rc_ReservedFor claim)"

lemma ReservedFor_0_ok [simp]: "rc_ReservedFor claim \<noteq> [] \<Longrightarrow> ReservedFor_0 claim = Ok (pod_ref claim)"
  by (cases "rc_ReservedFor claim") (simp_all add: ReservedFor_0_def pod_ref_def)

lemma ReservedFor_0_panic: "rc_ReservedFor claim = [] \<Longrightarrow> \<exists>m. ReservedFor_0 claim = Panic m"
  by (simp add: ReservedFor_0_def)

lemma ovsPortParams_ok: "rc_ReservedFor claim \<noteq> [] \<Longrightarrow> \<exists>ps. ovsPortParams claim pc br = Ok ps"
  by (simp add: ovsPortParams_def)

definition claim_dir :: "ResourceClaim \<Rightarrow> DeviceRequestAllocationResult \<Rightarrow> string" where
  "claim_dir claim r = getSocketDir (cr_UID (pod_ref claim)) claim r"

definition port_name :: "ResourceClaim \<Rightarrow> DeviceRequestAllocationResult \<Rightarrow> string" where
  "port_name claim r = take 8 (strings_RemoveAll (CHR ''-'') (rc_UID claim)) @ ''-'' @ dr_Request r"

text \<open>What a prepared device says about the allocation result that it was made for.\<close>

definition describes ::
  "'w cdi_lib \<Rightarrow> ResourceClaim \<Rightarrow> claimPortConfigs \<Rightarrow> DeviceRequestAllocationResult \<Rightarrow> PreparedDevice \<Rightarrow> bool" where
  "describes cdi claim cfgs r pd \<longleftrightarrow>
     kd_Requests (pd_Device pd) = [dr_Request r] \<and> kd_PoolName (pd_Device pd) = dr_Pool r \<and>
     kd_DeviceName (pd_Device pd) = dr_Device r \<and>
     kd_CDIDeviceIDs (pd_Device pd) = [DeviceID cdi (rc_UID claim) (dr_Device r) (dr_Request r)] \<and>
     ClaimNamespacedName pd = \<lparr>no_Name = rc_Name claim, no_Namespace = rc_Namespace claim, no_UID = rc_UID claim\<rparr> \<and>
     port_key pd = (dr_Device r, port_name claim r) \<and> dir_key pd = claim_dir claim r \<and>
     HostPath (pd_Socket pd) = filepath_Join [claim_dir claim r, VhostSocketFilename] \<and>
     ContainerPath (pd_Socket pd) = filepath_Join [ContainerDir (pd_Mount pd), VhostSocketFilename] \<and>
     PortConfig pd = Some (getConfig cfgs (dr_Request r))"

text \<open>Two paths that no operation on one confuses with the other.\<close>

definition separate :: "string \<Rightarrow> string \<Rightarrow> bool" where
  "separate p q \<longleftrightarrow> p = q \<or> unrelated p q"

section \<open>The contract\<close>

locale prepare_backend =
  dirs: socket_dirs "CreateSocketDir (bk_socketFS bk)" "RemoveSocketDir (bk_socketFS bk)" has_dir +
  ports: ovs_ports "CreatePort (bk_ovsClient bk)" "DeletePort (bk_ovsClient bk)" attached bridge_in sound +
  specs: cdi_files "bk_cdi bk" specs
  for bk :: "'w backend" and has_dir :: "'w \<Rightarrow> string \<Rightarrow> bool" and attached :: "'w \<Rightarrow> (string \<times> string) set"
    and bridge_in :: "'w \<Rightarrow> string \<Rightarrow> bool" and sound :: "'w \<Rightarrow> bool" and specs :: "'w \<Rightarrow> string \<rightharpoonup> Spec" +
  assumes create_dir_frame: "CreateSocketDir (bk_socketFS bk) p sp w = (r, w') \<Longrightarrow>
      attached w' = attached w \<and> bridge_in w' = bridge_in w \<and> sound w' = sound w \<and> specs w' = specs w"
    and remove_dir_frame: "RemoveSocketDir (bk_socketFS bk) p w = (r, w') \<Longrightarrow>
      attached w' = attached w \<and> bridge_in w' = bridge_in w \<and> sound w' = sound w \<and> specs w' = specs w"
    and create_port_frame: "CreatePort (bk_ovsClient bk) b n s ps w = (r, w') \<Longrightarrow> has_dir w' = has_dir w \<and> specs w' = specs w"
    and delete_port_frame: "DeletePort (bk_ovsClient bk) b n w = (r, w') \<Longrightarrow> has_dir w' = has_dir w \<and> specs w' = specs w"
    and write_spec_frame: "cdi_WriteSpec (bk_cdi bk) x y w = (e, w') \<Longrightarrow>
      attached w' = attached w \<and> bridge_in w' = bridge_in w \<and> sound w' = sound w \<and> has_dir w' = has_dir w"
    and remove_spec_frame: "cdi_RemoveSpec (bk_cdi bk) y w = (e, w') \<Longrightarrow>
      attached w' = attached w \<and> bridge_in w' = bridge_in w \<and> sound w' = sound w \<and> has_dir w' = has_dir w"
begin

lemma CreateClaimSpecFile_frame:
  "CreateClaimSpecFile (bk_cdi bk) pds w = (r, w') \<Longrightarrow>
   attached w' = attached w \<and> bridge_in w' = bridge_in w \<and> sound w' = sound w \<and> has_dir w' = has_dir w"
  using write_spec_frame
  by (auto simp: CreateClaimSpecFile_def Let_def split: list.splits res.splits prod.splits option.splits)

lemma DeleteClaimSpecFile_frame:
  "DeleteClaimSpecFile (bk_cdi bk) uid w = (r, w') \<Longrightarrow>
   attached w' = attached w \<and> bridge_in w' = bridge_in w \<and> sound w' = sound w \<and> has_dir w' = has_dir w"
  using remove_spec_frame by (auto simp: DeleteClaimSpecFile_def Let_def split: prod.splits option.splits)

text \<open>The result and the three steps of \<^verbatim>\<open>unprepareDevice\<close>; none of them can panic.\<close>

lemma unprepareDevice_steps:
  assumes "unprepareDevice bk pd w = (r, w')"
  obtains rc w1 rd w2 rr where "DeleteClaimSpecFile (bk_cdi bk) (uid_key pd) w = (rc, w1)"
    and "DeletePort (bk_ovsClient bk) (BridgeName pd) (OVSPortName pd) w1 = (rd, w2)"
    and "RemoveSocketDir (bk_socketFS bk) (dir_key pd) w2 = (rr, w')"
    and "\<And>m. r \<noteq> Panic m"
    and "r = Ok () \<longleftrightarrow> rr = Ok () \<and> (case rd of Err e \<Rightarrow> errors_Is e ErrPortNotFound | _ \<Rightarrow> True)"
proof -
  obtain rc w1 where 1: "DeleteClaimSpecFile (bk_cdi bk) (uid_key pd) w = (rc, w1)" by fastforce
  obtain rd w2 where 2: "DeletePort (bk_ovsClient bk) (BridgeName pd) (OVSPortName pd) w1 = (rd, w2)" by fastforce
  obtain rr w3 where 3: "RemoveSocketDir (bk_socketFS bk) (dir_key pd) w2 = (rr, w3)" by fastforce
  have no: "rc \<noteq> Panic m" "rd \<noteq> Panic m" "rr \<noteq> Panic m" for m
    using specs.delete_spec(3) [OF 1] ports.delete_no_panic [of "BridgeName pd" "OVSPortName pd" w1 m] 2
      dirs.remove_no_panic [of "dir_key pd" w2 m] 3 by auto
  let ?errs = "case rd of Err err \<Rightarrow> if errors_Is err ErrPortNotFound then [] else [err] | _ \<Rightarrow> []"
  have w': "w3 = w'" and r: "r = to_res (errors_Join (?errs @ (case rr of Err e \<Rightarrow> [e] | _ \<Rightarrow> [])))"
    using assms no 1 2 3 by (auto simp: unprepareDevice_def Let_def split: res.splits)
  show ?thesis
  proof (rule that [OF 1 2])
    show "RemoveSocketDir (bk_socketFS bk) (dir_key pd) w2 = (rr, w')" using 3 w' by simp
    show "r \<noteq> Panic m" for m using r by simp
    show "r = Ok () \<longleftrightarrow> rr = Ok () \<and> (case rd of Err e \<Rightarrow> errors_Is e ErrPortNotFound | _ \<Rightarrow> True)"
      using r no by (auto split: res.splits)
  qed
qed

lemma unprepareDevice_effect:
  assumes "sound w" and u: "unprepareDevice bk pd w = (r, w')"
  shows "sound w'" and "bridge_in w' = bridge_in w" and "\<And>m. r \<noteq> Panic m"
    and "attached w' \<subseteq> attached w" and "\<And>x. x \<noteq> port_key pd \<Longrightarrow> x \<in> attached w' \<longleftrightarrow> x \<in> attached w"
    and "\<And>q. has_dir w' q \<Longrightarrow> has_dir w q" and "\<And>q. unrelated (dir_key pd) q \<Longrightarrow> has_dir w' q = has_dir w q"
    and "specs w' \<in> {specs w, (specs w)(specs.spec_name (uid_key pd) := None)}"
    and "r = Ok () \<Longrightarrow> port_key pd \<notin> attached w' \<and> \<not> has_dir w' (dir_key pd)"
proof -
  obtain rc w1 rd w2 rr where 1: "DeleteClaimSpecFile (bk_cdi bk) (uid_key pd) w = (rc, w1)"
    and 2: "DeletePort (bk_ovsClient bk) (BridgeName pd) (OVSPortName pd) w1 = (rd, w2)"
    and 3: "RemoveSocketDir (bk_socketFS bk) (dir_key pd) w2 = (rr, w')"
    and np: "\<And>m. r \<noteq> Panic m"
    and ok: "r = Ok () \<longleftrightarrow> rr = Ok () \<and> (case rd of Err e \<Rightarrow> errors_Is e ErrPortNotFound | _ \<Rightarrow> True)"
    using unprepareDevice_steps [OF u] by blast
  note f1 = DeleteClaimSpecFile_frame [OF 1] and f2 = delete_port_frame [OF 2] and f3 = remove_dir_frame [OF 3]
  have s1: "sound w1" using f1 assms(1) by simp
  note d = ports.delete_effect [OF s1 2] and b = ports.delete_bridges [OF s1 2]
  show "sound w'" "bridge_in w' = bridge_in w" using d b f1 f3 by auto
  show "r \<noteq> Panic m" for m by (rule np)
  show "attached w' \<subseteq> attached w" using d f1 f3 by (auto split: res.splits if_splits)
  show "x \<in> attached w' \<longleftrightarrow> x \<in> attached w" if "x \<noteq> port_key pd" for x
    using ports.delete_frame [OF s1 2 that] f1 f3 by simp
  show "has_dir w q" if "has_dir w' q" for q using dirs.remove_mono [OF 3 that] f1 f2 by simp
  show "has_dir w' q = has_dir w q" if "unrelated (dir_key pd) q" for q
    using dirs.remove_frame [OF 3 that] f1 f2 by simp
  show "specs w' \<in> {specs w, (specs w)(specs.spec_name (uid_key pd) := None)}"
    using specs.delete_spec [OF 1] f2 f3 by (cases rc) auto
  show "port_key pd \<notin> attached w' \<and> \<not> has_dir w' (dir_key pd)" if "r = Ok ()"
  proof
    from that ok d f3 show "port_key pd \<notin> attached w'" by (auto split: res.splits)
    from that ok 3 dirs.remove_ok show "\<not> has_dir w' (dir_key pd)" by blast
  qed
qed

text \<open>All devices of a list: what is gone when no error was collected, and what is never touched.\<close>

lemma unprepare_all_effect:
  assumes "sound w" and "unprepare_all bk fmt pds w = (r, w')"
  shows "sound w' \<and> bridge_in w' = bridge_in w \<and> (\<exists>errs. r = Ok errs) \<and> attached w' \<subseteq> attached w
    \<and> (\<forall>x. x \<notin> port_key ` set pds \<longrightarrow> (x \<in> attached w' \<longleftrightarrow> x \<in> attached w))
    \<and> (\<forall>q. has_dir w' q \<longrightarrow> has_dir w q)
    \<and> (\<forall>q. (\<forall>pd \<in> set pds. unrelated (dir_key pd) q) \<longrightarrow> has_dir w' q = has_dir w q)
    \<and> (\<forall>n. n \<notin> (\<lambda>pd. specs.spec_name (uid_key pd)) ` set pds \<longrightarrow> specs w' n = specs w n)
    \<and> (\<forall>n. specs w' n \<in> {specs w n, None})
    \<and> (r = Ok [] \<longrightarrow> port_key ` set pds \<inter> attached w' = {} \<and> (\<forall>pd \<in> set pds. \<not> has_dir w' (dir_key pd)))"
  using assms
proof (induction pds arbitrary: w r w')
  case Nil
  then show ?case by auto
next
  case (Cons pd pds)
  obtain r1 w1 where 1: "unprepareDevice bk pd w = (r1, w1)" by fastforce
  obtain r2 w2 where 2: "unprepare_all bk fmt pds w1 = (r2, w2)" by fastforce
  note e1 = unprepareDevice_effect [OF Cons.prems(1) 1]
  note e2 = Cons.IH [OF e1(1) 2]
  then obtain errs where r2: "r2 = Ok errs" by (elim conjE exE) (rule that)
  have w': "w' = w2" and r: "r = Ok ((case r1 of Err err \<Rightarrow> [Errorf fmt [] [err]] | _ \<Rightarrow> []) @ errs)"
    using Cons.prems(2) 1 2 r2 e1(3) by (cases r1; simp)+
  have ok: "r1 = Ok () \<and> r2 = Ok []" if "r = Ok []"
    using that r r2 e1(3) by (cases r1; simp)
  show ?case
  proof (intro conjI)
    show "sound w'" "bridge_in w' = bridge_in w" "\<exists>errs. r = Ok errs" "attached w' \<subseteq> attached w"
      using e1(2,4) e2 w' r by auto
    show "\<forall>x. x \<notin> port_key ` set (pd # pds) \<longrightarrow> (x \<in> attached w' \<longleftrightarrow> x \<in> attached w)"
      using e1(5) e2 w' by simp
    show "\<forall>q. has_dir w' q \<longrightarrow> has_dir w q" using e1(6) e2 w' by simp
    show "\<forall>q. (\<forall>pd \<in> set (pd # pds). unrelated (dir_key pd) q) \<longrightarrow> has_dir w' q = has_dir w q"
      using e1(7) e2 w' by simp
    show "\<forall>n. n \<notin> (\<lambda>pd. specs.spec_name (uid_key pd)) ` set (pd # pds) \<longrightarrow> specs w' n = specs w n"
      using e1(8) e2 w' by auto
    show "\<forall>n. specs w' n \<in> {specs w n, None}"
    proof
      fix n
      have "specs w1 n \<in> {specs w n, None}" using e1(8) by (auto split: if_splits)
      moreover have "specs w' n \<in> {specs w1 n, None}" using e2 w' by simp
      ultimately show "specs w' n \<in> {specs w n, None}" by auto
    qed
    show "r = Ok [] \<longrightarrow> port_key ` set (pd # pds) \<inter> attached w' = {} \<and> (\<forall>pd \<in> set (pd # pds). \<not> has_dir w' (dir_key pd))"
    proof
      assume "r = Ok []"
      with ok e1(9) e2 w' show "port_key ` set (pd # pds) \<inter> attached w' = {} \<and> (\<forall>pd \<in> set (pd # pds). \<not> has_dir w' (dir_key pd))"
        by auto
    qed
  qed
qed

text \<open>What each outcome of \<^verbatim>\<open>prepareDevice\<close> tells.\<close>

lemma prepareDevice_cases:
  assumes "prepareDevice bk d1 d2 d3 claim result pc w = (r, w')"
  obtains (unreserved) m where "r = Panic m" "w' = w" "rc_ReservedFor claim = []"
  | (unconfigured) e where "r = Err e" "w' = w"
  | (no_dir) e e' where "r = Err e" "CreateSocketDir (bk_socketFS bk) (claim_dir claim result) (vhostUserConfig d3) w = (Err e', w')"
  | (short_uid) m where "r = Panic m" "length (strings_RemoveAll (CHR ''-'') (rc_UID claim)) < 8"
      "CreateSocketDir (bk_socketFS bk) (claim_dir claim result) (vhostUserConfig d3) w = (Ok (), w')"
  | (no_port) e e' w1 w2 s ps where "r = Err e"
      "CreateSocketDir (bk_socketFS bk) (claim_dir claim result) (vhostUserConfig d3) w = (Ok (), w1)"
      "CreatePort (bk_ovsClient bk) (dr_Device result) (port_name claim result) s ps w1 = (Err e', w2)"
      "w' = snd (RemoveSocketDir (bk_socketFS bk) (claim_dir claim result) w2)"
  | (prepared) pd w1 s ps where "r = Ok pd"
      "CreateSocketDir (bk_socketFS bk) (claim_dir claim result) (vhostUserConfig d3) w = (Ok (), w1)"
      "CreatePort (bk_ovsClient bk) (dr_Device result) (port_name claim result) s ps w1 = (Ok (), w')"
      "\<And>cfgs. getConfig cfgs (dr_Request result) = pc \<Longrightarrow> describes (bk_cdi bk) claim cfgs result pd"
proof (cases "rc_ReservedFor claim = [] \<or> vhostUserConfig d1 = None")
  case True
  with assms show ?thesis
    using ReservedFor_0_panic [of claim]
    by (cases "rc_ReservedFor claim = []") (auto simp: prepareDevice_def GetVhostUserConfig_def intro: unreserved unconfigured)
next
  case False
  then obtain v where Some: "rc_ReservedFor claim \<noteq> []" "vhostUserConfig d1 = Some v" by auto
  obtain c w1 where c: "CreateSocketDir (bk_socketFS bk) (claim_dir claim result) (vhostUserConfig d3) w = (c, w1)" by fastforce
  have c': "CreateSocketDir (bk_socketFS bk) (getSocketDir (cr_UID (pod_ref claim)) claim result) (vhostUserConfig d3) w = (c, w1)"
    using c by (simp add: claim_dir_def)
  show ?thesis
  proof (cases c)
    case (Err e)
    with Some c c' assms show ?thesis by (intro no_dir) (auto simp: prepareDevice_def GetVhostUserConfig_def Let_def)
  next
    case (Panic m)
    with c dirs.create_no_panic [of "claim_dir claim result" "vhostUserConfig d3" w m] show ?thesis by simp
  next
    case (Ok u)
    show ?thesis
    proof (cases "length (strings_RemoveAll (CHR ''-'') (rc_UID claim)) < 8")
      case True
      with Some c c' Ok assms show ?thesis
        by (intro short_uid) (auto simp: prepareDevice_def GetVhostUserConfig_def Let_def ovsPortName_def)
    next
      case False
      let ?s = "filepath_Join [claim_dir claim result, VhostSocketFilename]"
      obtain ps where ps: "ovsPortParams claim pc (case allocatable d2 (dr_Device result) of Some ad \<Rightarrow> ad_BridgeSpec ad | None \<Rightarrow> zero_BridgeSpec) = Ok ps"
        using ovsPortParams_ok [OF Some(1)] by blast
      obtain p w2 where p: "CreatePort (bk_ovsClient bk) (dr_Device result) (port_name claim result) ?s ps w1 = (p, w2)" by fastforce
      note unf = prepareDevice_def GetVhostUserConfig_def Let_def ovsPortName_def claim_dir_def port_name_def ps
      show ?thesis
      proof (cases p)
        case (Err e)
        with Some c Ok False p assms show ?thesis by (intro no_port) (auto simp: unf)
      next
        case (Panic m)
        with p ports.create_no_panic [of "dr_Device result" "port_name claim result" ?s ps w1 m] show ?thesis by simp
      next
        case (Ok u')
        with Some c \<open>c = Ok u\<close> False p assms show ?thesis
          by (intro prepared) (auto simp: unf describes_def)
      qed
    qed
  qed
qed
end

section \<open>Runs of the prepare loop\<close>

text \<open>
  The devices that a run of the loop prepares when no device fails: a relational view of
  \<open>prepare_results\<close>, for rule induction.
\<close>

inductive prep_run ::
  "'w backend \<Rightarrow> (nat \<Rightarrow> DeviceState) \<Rightarrow> claimPortConfigs \<Rightarrow> nat \<Rightarrow> DeviceRequestAllocationResult list \<Rightarrow> ResourceClaim \<Rightarrow> 'w
   \<Rightarrow> PreparedDevice list \<Rightarrow> ResourceClaim \<Rightarrow> 'w \<Rightarrow> bool"
  for bk obs cfgs where
  run_end: "prep_run bk obs cfgs i [] claim w [] claim w"
| run_skip: "dr_Driver r \<noteq> DriverName \<Longrightarrow> prep_run bk obs cfgs i rs claim w pds claim' w' \<Longrightarrow>
    prep_run bk obs cfgs i (r # rs) claim w pds claim' w'"
| run_device: "dr_Driver r = DriverName \<Longrightarrow>
    prepareDevice bk (obs i) (obs (i + 1)) (obs (i + 2)) claim r (getConfig cfgs (dr_Request r)) w = (Ok pd, w1) \<Longrightarrow>
    prep_run bk obs cfgs (i + 3) rs (updateClaimStatus r pd claim) w1 pds claim' w' \<Longrightarrow>
    prep_run bk obs cfgs i (r # rs) claim w (pd # pds) claim' w'"

lemma prepare_results_Ok:
  "prepare_results bk obs i cfgs rs acc claim w = (Ok out, claim', w') \<Longrightarrow>
   \<exists>pds. out = acc @ pds \<and> prep_run bk obs cfgs i rs claim w pds claim' w'"
proof (induction rs arbitrary: i acc claim w)
  case Nil
  then show ?case by (auto intro: run_end)
next
  case (Cons r rs)
  show ?case
  proof (cases "dr_Driver r = DriverName")
    case False
    with Cons.prems have "prepare_results bk obs i cfgs rs acc claim w = (Ok out, claim', w')" by simp
    from Cons.IH [OF this] False show ?thesis by (auto intro: run_skip)
  next
    case True
    obtain x w1 where x: "prepareDevice bk (obs i) (obs (i + 1)) (obs (i + 2)) claim r (getConfig cfgs (dr_Request r)) w = (x, w1)"
      by fastforce
    with True Cons.prems obtain pd where pd: "x = Ok pd"
      by (cases x) (auto simp: rollback_def split: prod.splits res.splits)
    with True Cons.prems x have "prepare_results bk obs (i + 3) cfgs rs (acc @ [pd]) (updateClaimStatus r pd claim) w1 = (Ok out, claim', w')"
      by simp
    from Cons.IH [OF this] obtain pds where "out = acc @ pd # pds"
      and "prep_run bk obs cfgs (i + 3) rs (updateClaimStatus r pd claim) w1 pds claim' w'" by auto
    with run_device [OF True x [unfolded pd]] show ?thesis by blast
  qed
qed

lemma prepare_results_Err:
  "prepare_results bk obs i cfgs rs acc claim w = (Err e, claim', w') \<Longrightarrow>
   \<exists>pre r post pds j w1 w2 err. rs = pre @ r # post \<and> dr_Driver r = DriverName
     \<and> prep_run bk obs cfgs i pre claim w pds claim' w1
     \<and> prepareDevice bk (obs j) (obs (j + 1)) (obs (j + 2)) claim' r (getConfig cfgs (dr_Request r)) w1 = (Err err, w2)
     \<and> rollback bk (Errorf ''error preparing device: %v'' [AErr err] []) (acc @ pds) w2 = ((Err e :: PreparedDevice list res), w')"
proof (induction rs arbitrary: i acc claim w)
  case Nil
  then show ?case by simp
next
  case (Cons r rs)
  show ?case
  proof (cases "dr_Driver r = DriverName")
    case False
    with Cons.prems have "prepare_results bk obs i cfgs rs acc claim w = (Err e, claim', w')" by simp
    from Cons.IH [OF this] obtain pre r' post pds j w1 w2 err where "rs = pre @ r' # post" "dr_Driver r' = DriverName"
      "prep_run bk obs cfgs i pre claim w pds claim' w1"
      "prepareDevice bk (obs j) (obs (j + 1)) (obs (j + 2)) claim' r' (getConfig cfgs (dr_Request r')) w1 = (Err err, w2)"
      "rollback bk (Errorf ''error preparing device: %v'' [AErr err] []) (acc @ pds) w2 = ((Err e :: PreparedDevice list res), w')"
      by (elim exE conjE) (rule that)
    with False show ?thesis
      by (intro exI [of _ "r # pre"] exI [of _ r'] exI [of _ post] exI [of _ pds] exI [of _ j] exI [of _ w1] exI [of _ w2] exI [of _ err])
         (auto intro: run_skip)
  next
    case True
    obtain x w1 where x: "prepareDevice bk (obs i) (obs (i + 1)) (obs (i + 2)) claim r (getConfig cfgs (dr_Request r)) w = (x, w1)"
      by fastforce
    show ?thesis
    proof (cases x)
      case (Ok pd)
      with True Cons.prems x have "prepare_results bk obs (i + 3) cfgs rs (acc @ [pd]) (updateClaimStatus r pd claim) w1 = (Err e, claim', w')"
        by simp
      from Cons.IH [OF this] obtain pre r' post pds j w2 w3 err where "rs = pre @ r' # post" "dr_Driver r' = DriverName"
        "prep_run bk obs cfgs (i + 3) pre (updateClaimStatus r pd claim) w1 pds claim' w2"
        "prepareDevice bk (obs j) (obs (j + 1)) (obs (j + 2)) claim' r' (getConfig cfgs (dr_Request r')) w2 = (Err err, w3)"
        "rollback bk (Errorf ''error preparing device: %v'' [AErr err] []) ((acc @ [pd]) @ pds) w3 = ((Err e :: PreparedDevice list res), w')"
        by (elim exE conjE) (rule that)
      with run_device [OF True x [unfolded Ok]] show ?thesis
        by (intro exI [of _ "r # pre"] exI [of _ r'] exI [of _ post] exI [of _ "pd # pds"] exI [of _ j] exI [of _ w2] exI [of _ w3] exI [of _ err])
           auto
    next
      case (Err err)
      with True Cons.prems x show ?thesis
        by (intro exI [of _ "[]"] exI [of _ r] exI [of _ rs] exI [of _ "[]"] exI [of _ i] exI [of _ w] exI [of _ w1] exI [of _ err])
           (auto intro: run_end split: prod.splits)
    next
      case (Panic m)
      with True Cons.prems x show ?thesis by simp
    qed
  qed
qed

text \<open>The status update leaves everything that preparation reads from the claim.\<close>

lemma updateClaimStatus_fields [simp]:
  "rc_UID (updateClaimStatus r pd claim) = rc_UID claim" "rc_Name (updateClaimStatus r pd claim) = rc_Name claim"
  "rc_Namespace (updateClaimStatus r pd claim) = rc_Namespace claim"
  "rc_PodClaimName (updateClaimStatus r pd claim) = rc_PodClaimName claim"
  "rc_ReservedFor (updateClaimStatus r pd claim) = rc_ReservedFor claim"
  "rc_Allocation (updateClaimStatus r pd claim) = rc_Allocation claim"
  "rc_ResourceVersion (updateClaimStatus r pd claim) = rc_ResourceVersion claim"
  by (simp_all add: updateClaimStatus_def)

lemma updateClaimStatus_names [simp]:
  "claim_dir (updateClaimStatus r pd claim) = claim_dir claim"
  "port_name (updateClaimStatus r pd claim) = port_name claim"
  "describes cdi (updateClaimStatus r pd claim) = describes cdi claim"
  by (simp_all add: claim_dir_def getSocketDir_def getPodClaimName_def pod_ref_def port_name_def describes_def fun_eq_iff)

lemma prep_run_claim:
  assumes "prep_run bk obs cfgs i rs claim w pds claim' w'"
  shows "claim_dir claim' = claim_dir claim" and "port_name claim' = port_name claim"
    and "describes cdi claim' = describes cdi claim" and "rc_UID claim' = rc_UID claim"
  using assms by (induction rule: prep_run.induct) simp_all

lemma filepath_Join_rooted: "is_rooted p \<Longrightarrow> filepath_Join (p # ps) \<noteq> []"
proof -
  assume "is_rooted p"
  then obtain q where p: "p = CHR ''/'' # q" by (auto simp: is_rooted_def split: list.splits)
  then have "is_rooted (strings_Join ''/'' (p # ps))" by (cases ps) (simp_all add: is_rooted_def)
  with p show ?thesis by (simp add: filepath_Join_def filepath_Clean_def Let_def)
qed

lemma claim_dir_nonempty [simp]: "claim_dir claim r \<noteq> []"
  by (simp add: claim_dir_def getSocketDir_def filepath_Join_rooted HostRootPath_def is_rooted_def)

section \<open>Errors that the code drops\<close>

text \<open>
  Three errors never reach the caller: of the removal of a directory after a failed port
  creation or directory creation, of the removal of a CDI spec, and of a port creation
  whose reply was lost. \<open>quiet\<close> says that none of them happens for the directories in \<open>D\<close>.
\<close>

definition quiet ::
  "'w backend \<Rightarrow> ('w \<Rightarrow> (string \<times> string) set) \<Rightarrow> ('w \<Rightarrow> bool) \<Rightarrow> string set \<Rightarrow> bool" where
  "quiet bk attached sound D \<longleftrightarrow>
     (\<forall>p \<in> D. \<forall>w. fst (RemoveSocketDir (bk_socketFS bk) p w) = Ok ()) \<and>
     (\<forall>b n s ps w e w'. sound w \<longrightarrow> CreatePort (bk_ovsClient bk) b n s ps w = (Err e, w') \<longrightarrow> attached w' = attached w) \<and>
     (\<forall>n w. fst (cdi_RemoveSpec (bk_cdi bk) n w) = None)"

context prepare_backend
begin

lemma prepareDevice_effect:
  assumes s: "sound w" and p: "prepareDevice bk d1 d2 d3 claim result pc w = (r, w')"
  shows "sound w'" and "bridge_in w' = bridge_in w" and "specs w' = specs w"
    and "\<And>q. unrelated (claim_dir claim result) q \<Longrightarrow> has_dir w' q = has_dir w q"
    and "\<And>x. x \<noteq> (dr_Device result, port_name claim result) \<Longrightarrow> x \<in> attached w' \<longleftrightarrow> x \<in> attached w"
    and "r = Ok pd \<Longrightarrow> attached w' = attached w \<union> (if bridge_in w (dr_Device result) then {(dr_Device result, port_name claim result)} else {})
           \<and> has_dir w' (claim_dir claim result)"
    and "r = Err e \<Longrightarrow> quiet bk attached sound {claim_dir claim result} \<Longrightarrow>
           attached w' = attached w \<and> (has_dir w' (claim_dir claim result) \<longrightarrow> has_dir w (claim_dir claim result))"
    and "r = Panic m \<Longrightarrow> rc_ReservedFor claim = [] \<or> length (strings_RemoveAll (CHR ''-'') (rc_UID claim)) < 8"
proof -
  let ?d = "claim_dir claim result" and ?k = "(dr_Device result, port_name claim result)"
  have "sound w' \<and> bridge_in w' = bridge_in w \<and> specs w' = specs w
     \<and> (\<forall>q. unrelated ?d q \<longrightarrow> has_dir w' q = has_dir w q)
     \<and> (\<forall>x. x \<noteq> ?k \<longrightarrow> (x \<in> attached w' \<longleftrightarrow> x \<in> attached w))
     \<and> (\<forall>pd. r = Ok pd \<longrightarrow> attached w' = attached w \<union> (if bridge_in w (dr_Device result) then {?k} else {}) \<and> has_dir w' ?d)
     \<and> (\<forall>e. r = Err e \<longrightarrow> quiet bk attached sound {?d} \<longrightarrow> attached w' = attached w \<and> (has_dir w' ?d \<longrightarrow> has_dir w ?d))
     \<and> (\<forall>m. r = Panic m \<longrightarrow> rc_ReservedFor claim = [] \<or> length (strings_RemoveAll (CHR ''-'') (rc_UID claim)) < 8)"
    using p
  proof (cases rule: prepareDevice_cases)
    case (unreserved m)
    with s show ?thesis by simp
  next
    case (unconfigured e)
    with s show ?thesis by simp
  next
    case (no_dir e e')
    have "\<not> has_dir w' ?d" if "quiet bk attached sound {?d}"
      using dirs.create_err [OF no_dir(2)] that by (simp add: quiet_def)
    with no_dir s create_dir_frame [OF no_dir(2)] dirs.create_frame [OF no_dir(2)] show ?thesis by simp
  next
    case (short_uid m)
    with s create_dir_frame [OF short_uid(3)] dirs.create_frame [OF short_uid(3)] show ?thesis by simp
  next
    case (no_port e e' w1 w2 s' ps)
    obtain x where x: "RemoveSocketDir (bk_socketFS bk) ?d w2 = (x, w')" using no_port(4) by (metis prod.collapse)
    note f1 = create_dir_frame [OF no_port(2)] and f2 = create_port_frame [OF no_port(3)] and f3 = remove_dir_frame [OF x]
    have s1: "sound w1" using f1 s by simp
    have q: "attached w' = attached w \<and> \<not> has_dir w' ?d" if "quiet bk attached sound {?d}"
    proof -
      have "fst (RemoveSocketDir (bk_socketFS bk) ?d w2) = Ok ()" using that by (simp add: quiet_def)
      with x have "RemoveSocketDir (bk_socketFS bk) ?d w2 = (Ok (), w')" by simp
      moreover have "attached w2 = attached w1" using that s1 no_port(3) unfolding quiet_def by blast
      ultimately show ?thesis using f1 f3 dirs.remove_ok by auto
    qed
    have "has_dir w' q = has_dir w q" if "unrelated ?d q" for q
      using dirs.create_frame [OF no_port(2) that] dirs.remove_frame [OF x that] f2 by simp
    with no_port(1) q f1 f2 f3 s ports.create_sound [OF s1 no_port(3)] ports.create_bridges [OF s1 no_port(3)]
      ports.create_frame [OF s1 no_port(3)]
    show ?thesis by simp
  next
    case (prepared pd w1 s' ps)
    note f1 = create_dir_frame [OF prepared(2)] and f2 = create_port_frame [OF prepared(3)]
    have s1: "sound w1" using f1 s by simp
    have "has_dir w' ?d" using dirs.create_ok [OF prepared(2)] f2 by simp
    with prepared(1) f1 f2 s ports.create_sound [OF s1 prepared(3)] ports.create_bridges [OF s1 prepared(3)]
      ports.create_frame [OF s1 prepared(3)] ports.create_ok [OF s1 prepared(3)] dirs.create_frame [OF prepared(2)]
    show ?thesis by simp
  qed
  note e = this
  show "sound w'" "bridge_in w' = bridge_in w" "specs w' = specs w" using e by simp_all
  show "has_dir w' q = has_dir w q" if "unrelated ?d q" for q using e that by simp
  show "x \<in> attached w' \<longleftrightarrow> x \<in> attached w" if "x \<noteq> ?k" for x using e that by (cases x) simp
  show "attached w' = attached w \<union> (if bridge_in w (dr_Device result) then {?k} else {}) \<and> has_dir w' ?d" if "r = Ok pd"
    using e that by simp
  show "attached w' = attached w \<and> (has_dir w' ?d \<longrightarrow> has_dir w ?d)" if "r = Err e" "quiet bk attached sound {?d}"
    using e that by simp
  show "rc_ReservedFor claim = [] \<or> length (strings_RemoveAll (CHR ''-'') (rc_UID claim)) < 8" if "r = Panic m" using e that by simp
qed

lemma prepareDevice_describes:
  assumes "prepareDevice bk d1 d2 d3 claim result (getConfig cfgs (dr_Request result)) w = (Ok pd, w')"
  shows "describes (bk_cdi bk) claim cfgs result pd"
  using assms by (cases rule: prepareDevice_cases) auto

section \<open>Effects of a run\<close>

lemma run_describes:
  "prep_run bk obs cfgs i rs claim w pds claim' w' \<Longrightarrow> list_all2 (describes (bk_cdi bk) claim cfgs) (own_results rs) pds"
  by (induction rule: prep_run.induct) (auto simp: own_results_def dest: prepareDevice_describes)

lemma run_sound:
  "prep_run bk obs cfgs i rs claim w pds claim' w' \<Longrightarrow> sound w \<Longrightarrow>
   sound w' \<and> bridge_in w' = bridge_in w \<and> specs w' = specs w"
proof (induction rule: prep_run.induct)
  case (run_device r i claim w pd w1 rs pds claim' w')
  from prepareDevice_effect(1-3) [OF run_device(5,2)] run_device(4) show ?case by simp
qed simp_all

lemma run_attached:
  "prep_run bk obs cfgs i rs claim w pds claim' w' \<Longrightarrow> sound w \<Longrightarrow>
   attached w' = attached w \<union> {x \<in> port_key ` set pds. bridge_in w (fst x)}"
proof (induction rule: prep_run.induct)
  case (run_device r i claim w pd w1 rs pds claim' w')
  note e = prepareDevice_effect [OF run_device(5,2)]
  have k: "port_key pd = (dr_Device r, port_name claim r)"
    using prepareDevice_describes [OF run_device(2)] by (simp add: describes_def)
  have "attached w1 = attached w \<union> (if bridge_in w (dr_Device r) then {port_key pd} else {})"
    using e(6) [OF refl] k by simp
  moreover have "attached w' = attached w1 \<union> {x \<in> port_key ` set pds. bridge_in w (fst x)}"
    using run_device(4) [OF e(1)] e(2) by simp
  ultimately show ?case using k by auto
qed auto

lemma run_other_dirs:
  "prep_run bk obs cfgs i rs claim w pds claim' w' \<Longrightarrow> sound w \<Longrightarrow>
   (\<forall>r \<in> set (own_results rs). unrelated (claim_dir claim r) q) \<Longrightarrow> has_dir w' q = has_dir w q"
proof (induction rule: prep_run.induct)
  case (run_device r i claim w pd w1 rs pds claim' w')
  with prepareDevice_effect(1,4) [OF run_device(5,2)] show ?case by (simp add: own_results_def)
qed (simp_all add: own_results_def)

text \<open>Directories that stand stay, as long as the paths of the claim are separate from each other.\<close>

lemma run_keeps_dir:
  "prep_run bk obs cfgs i rs claim w pds claim' w' \<Longrightarrow> sound w \<Longrightarrow>
   (\<forall>r \<in> set (own_results rs). separate (claim_dir claim r) q) \<Longrightarrow> has_dir w q \<Longrightarrow> has_dir w' q"
proof (induction rule: prep_run.induct)
  case (run_device r i claim w pd w1 rs pds claim' w')
  note e = prepareDevice_effect [OF run_device(5,2)]
  have "separate (claim_dir claim r) q" using run_device(1,6) by (simp add: own_results_def)
  then have "has_dir w1 q" using e(4) e(6) [OF refl] run_device(7) by (auto simp: separate_def)
  with run_device e(1) show ?case by (simp add: own_results_def)
qed (simp_all add: own_results_def)

lemma run_makes_dirs:
  "prep_run bk obs cfgs i rs claim w pds claim' w' \<Longrightarrow> sound w \<Longrightarrow>
   pairwise separate (claim_dir claim ` set (own_results rs)) \<Longrightarrow> pd \<in> set pds \<Longrightarrow> has_dir w' (dir_key pd)"
proof (induction rule: prep_run.induct)
  case (run_skip r i rs claim w pds claim' w')
  then show ?case by (simp add: own_results_def)
next
  case (run_device r i claim w pd' w1 rs pds claim' w')
  note e = prepareDevice_effect [OF run_device(5,2)]
  have d: "dir_key pd' = claim_dir claim r"
    using prepareDevice_describes [OF run_device(2)] by (simp add: describes_def)
  have own: "own_results (r # rs) = r # own_results rs" using run_device(1) by (simp add: own_results_def)
  have pw: "pairwise separate (claim_dir claim ` set (own_results rs))"
    using run_device(6) own by (simp add: pairwise_insert)
  have "\<forall>r' \<in> set (own_results rs). separate (claim_dir claim r') (claim_dir claim r)"
    using run_device(6) own by (auto simp: pairwise_insert separate_def)
  then have "has_dir w' (claim_dir claim r)"
    using run_keeps_dir [OF run_device(3) e(1), of "claim_dir claim r"] e(6) [OF refl] by simp
  with run_device(4) [OF e(1)] pw run_device(7) d show ?case by auto
qed simp
end

text \<open>An error of \<^verbatim>\<open>rollback\<close> that carries the failure of an unprepare.\<close>

definition rollback_failed :: "error \<Rightarrow> bool" where
  "rollback_failed e = (case e of Joined (err # errs) \<Rightarrow> errs \<noteq> [] | _ \<Rightarrow> False)"

context prepare_backend
begin

text \<open>A successful preparation.\<close>

lemma PrepareResourceClaim_ok:
  assumes s: "sound w" and p: "PrepareResourceClaim bk obs claim w = (Ok pds, claim', w')"
  obtains al cfgs w1 where "rc_Allocation claim = Some al" and "parseClaimConfigs (al_Config al) = Inr cfgs"
    and "pds \<noteq> []" and "prep_run bk obs cfgs 0 (al_Results al) claim w pds claim' w1"
    and "CreateClaimSpecFile (bk_cdi bk) pds w1 = (Ok (), w')"
proof -
  from p obtain al cfgs where al: "rc_Allocation claim = Some al" and c: "parseClaimConfigs (al_Config al) = Inr cfgs"
    by (auto simp: PrepareResourceClaim_def split: option.splits if_splits sum.splits)
  obtain x claim1 w1 where x: "prepare_results bk obs 0 cfgs (al_Results al) [] claim w = (x, claim1, w1)" by (metis prod_cases3)
  from p al c x obtain out where out: "x = Ok out" "out \<noteq> []"
    by (cases x) (auto simp: PrepareResourceClaim_def split: if_splits)
  obtain y w2 where y: "CreateClaimSpecFile (bk_cdi bk) out w1 = (y, w2)" by fastforce
  from p al c x out y have "y = Ok () \<and> out = pds \<and> claim1 = claim' \<and> w2 = w'"
    by (cases y) (auto simp: PrepareResourceClaim_def rollback_def split: if_splits prod.splits res.splits)
  with al c out y prepare_results_Ok [OF x [unfolded out]] show ?thesis by (intro that) auto
qed

lemma describes_request: "describes cdi claim cfgs r pd \<Longrightarrow> has_request pd"
  by (simp add: describes_def has_request_def)

lemma list_all2_describes:
  assumes "list_all2 (describes cdi claim cfgs) rs pds"
  shows "list_all has_request pds" and "pd \<in> set pds \<Longrightarrow> uid_key pd = rc_UID claim"
    and "pds \<noteq> [] \<Longrightarrow> uid_key (hd pds) = rc_UID claim"
    and "set (map dir_key pds) = claim_dir claim ` set rs"
    and "set (map port_key pds) = (\<lambda>r. (dr_Device r, port_name claim r)) ` set rs"
  using assms
proof (induction rule: list_all2_induct)
  case (Cons r rs pd pds)
  { case 1 with Cons show ?case by (simp add: describes_request) next
    case 2 with Cons show ?case by (auto simp: describes_def) next
    case 3 with Cons show ?case by (simp add: describes_def) next
    case 4 with Cons show ?case by (simp add: describes_def) next
    case 5 with Cons show ?case by (simp add: describes_def) }
qed simp_all

lemma prepare_success:
  assumes s: "sound w" and p: "PrepareResourceClaim bk obs claim w = (Ok pds, claim', w')"
    and al: "rc_Allocation claim = Some al" and c: "parseClaimConfigs (al_Config al) = Inr cfgs"
  shows "pds \<noteq> []" and "list_all2 (describes (bk_cdi bk) claim cfgs) (own_results (al_Results al)) pds"
    and "sound w'" and "bridge_in w' = bridge_in w"
    and "attached w' = attached w \<union> {x \<in> port_key ` set pds. bridge_in w (fst x)}"
    and "specs w' = (specs w)(specs.spec_name (rc_UID claim) \<mapsto> spec_of (rc_UID claim) pds)"
    and "\<And>q. (\<forall>r \<in> set (own_results (al_Results al)). unrelated (claim_dir claim r) q) \<Longrightarrow> has_dir w' q = has_dir w q"
    and "\<And>pd. pairwise separate (claim_dir claim ` set (own_results (al_Results al))) \<Longrightarrow> pd \<in> set pds \<Longrightarrow> has_dir w' (dir_key pd)"
proof -
  obtain w1 where ne: "pds \<noteq> []" and run: "prep_run bk obs cfgs 0 (al_Results al) claim w pds claim' w1"
    and w: "CreateClaimSpecFile (bk_cdi bk) pds w1 = (Ok (), w')"
    using PrepareResourceClaim_ok [OF s p] al c by (metis Inr_inject option.inject)
  note d = run_describes [OF run] and so = run_sound [OF run s] and f = CreateClaimSpecFile_frame [OF w]
  note l = list_all2_describes [OF d]
  show "pds \<noteq> []" "list_all2 (describes (bk_cdi bk) claim cfgs) (own_results (al_Results al)) pds" by (fact ne, fact d)
  show "sound w'" "bridge_in w' = bridge_in w" using so f by simp_all
  show "attached w' = attached w \<union> {x \<in> port_key ` set pds. bridge_in w (fst x)}" using run_attached [OF run s] f by simp
  show "specs w' = (specs w)(specs.spec_name (rc_UID claim) \<mapsto> spec_of (rc_UID claim) pds)"
    using specs.create_spec(1) [OF ne l(1) w refl refl] so l(3) [OF ne] by simp
  show "has_dir w' q = has_dir w q" if "\<forall>r \<in> set (own_results (al_Results al)). unrelated (claim_dir claim r) q" for q
    using run_other_dirs [OF run s that] f by simp
  show "has_dir w' (dir_key pd)" if "pairwise separate (claim_dir claim ` set (own_results (al_Results al)))" "pd \<in> set pds" for pd
    using run_makes_dirs [OF run s that] f by simp
qed

section \<open>Undoing a run\<close>

lemma rollback_eq:
  assumes "sound w" and "rollback bk err pds w = (r, w')"
  obtains errs where "unprepare_all bk ''rollback unprepare failed: %w'' pds w = (Ok errs, w')" and "r = Err (Joined (err # errs))"
proof -
  obtain x w2 where x: "unprepare_all bk ''rollback unprepare failed: %w'' pds w = (x, w2)" by fastforce
  from unprepare_all_effect [OF assms(1) x] obtain errs where "x = Ok errs" by (elim conjE exE) (rule that)
  with x assms(2) show ?thesis by (intro that) (auto simp: rollback_def)
qed

lemma unprepareDevice_spec_gone:
  assumes "\<And>n w. fst (cdi_RemoveSpec (bk_cdi bk) n w) = None" and "unprepareDevice bk pd w = (r, w')"
  shows "specs w' = (specs w)(specs.spec_name (uid_key pd) := None)"
proof -
  obtain rc w1 rd w2 rr where 1: "DeleteClaimSpecFile (bk_cdi bk) (uid_key pd) w = (rc, w1)"
    and 2: "DeletePort (bk_ovsClient bk) (BridgeName pd) (OVSPortName pd) w1 = (rd, w2)"
    and 3: "RemoveSocketDir (bk_socketFS bk) (dir_key pd) w2 = (rr, w')"
    using unprepareDevice_steps [OF assms(2)] by metis
  have "rc = Ok ()" using 1 assms(1)
    by (auto simp: DeleteClaimSpecFile_def Let_def split: prod.splits option.splits) (metis fst_conv option.distinct(1))
  with specs.delete_spec(1) [OF 1] delete_port_frame [OF 2] remove_dir_frame [OF 3] show ?thesis by simp
qed

lemma unprepare_all_specs_gone:
  assumes "\<And>n w. fst (cdi_RemoveSpec (bk_cdi bk) n w) = None" and "sound w" and "unprepare_all bk fmt pds w = (r, w')"
    and "pd \<in> set pds"
  shows "specs w' (specs.spec_name (uid_key pd)) = None"
  using assms(2-)
proof (induction pds arbitrary: w r)
  case (Cons x xs)
  obtain r1 w1 where 1: "unprepareDevice bk x w = (r1, w1)" by fastforce
  obtain r2 w2 where 2: "unprepare_all bk fmt xs w1 = (r2, w2)" by fastforce
  note e1 = unprepareDevice_effect [OF Cons.prems(1) 1]
  have w': "w' = w2" using Cons.prems(2) 1 2 e1(3) by (cases r1; cases r2; simp)
  have "specs w2 n \<in> {specs w1 n, None}" for n using unprepare_all_effect [OF e1(1) 2] by simp
  from this [of "specs.spec_name (uid_key x)"] unprepareDevice_spec_gone [OF assms(1) 1]
  have "specs w2 (specs.spec_name (uid_key x)) = None" by simp
  with w' Cons.IH [OF e1(1) 2 [folded w']] Cons.prems(3) show ?case by auto
qed simp

text \<open>
  A run of the loop followed by a clean rollback of its devices, with a failing step in
  between that changed no port and left no directory: everything is as at the start.
\<close>

lemma undo_run:
  assumes s: "sound w" and run: "prep_run bk obs cfgs i pre claim w pds claim' w1" and s2: "sound w2"
    and a: "attached w2 = attached w1"
    and D: "claim_dir claim ` set (own_results pre) \<subseteq> D"
    and d: "\<And>q. q \<in> D \<Longrightarrow> has_dir w2 q \<Longrightarrow> has_dir w1 q"
    and o: "\<And>q. \<forall>p \<in> D. unrelated p q \<Longrightarrow> has_dir w2 q = has_dir w1 q"
    and u: "unprepare_all bk fmt pds w2 = (Ok [], w')"
    and pw: "pairwise separate D"
    and fp: "\<And>r. r \<in> set (own_results pre) \<Longrightarrow> (dr_Device r, port_name claim r) \<notin> attached w"
    and fd: "\<And>q. q \<in> D \<Longrightarrow> \<not> has_dir w q"
  shows "attached w' = attached w" and "\<And>q. q \<in> D \<Longrightarrow> \<not> has_dir w' q"
    and "\<And>q. \<forall>p \<in> D. unrelated p q \<Longrightarrow> has_dir w' q = has_dir w q"
proof -
  note l = list_all2_describes [OF run_describes [OF run]] and e = unprepare_all_effect [OF s2 u]
  have keys: "x \<notin> attached w" if "x \<in> port_key ` set pds" for x using that l(5) fp by auto
  have gone: "port_key ` set pds \<inter> attached w' = {}" and dgone: "pd \<in> set pds \<Longrightarrow> \<not> has_dir w' (dir_key pd)" for pd
    using e by simp_all
  have same: "x \<in> attached w' \<longleftrightarrow> x \<in> attached w2" if "x \<notin> port_key ` set pds" for x
    using e that by (cases x) simp
  show "attached w' = attached w"
  proof (rule set_eqI)
    fix x show "x \<in> attached w' \<longleftrightarrow> x \<in> attached w"
      using gone same [of x] keys [of x] a run_attached [OF run s] by (cases "x \<in> port_key ` set pds") auto
  qed
  have mono: "has_dir w' q \<Longrightarrow> has_dir w2 q" for q using e by simp
  show "\<not> has_dir w' q" if q: "q \<in> D" for q
  proof
    assume h: "has_dir w' q"
    then have "q \<notin> set (map dir_key pds)" using dgone by auto
    then have "q \<notin> claim_dir claim ` set (own_results pre)" unfolding l(4) .
    have "\<forall>r \<in> set (own_results pre). unrelated (claim_dir claim r) q"
    proof
      fix r assume "r \<in> set (own_results pre)"
      then have "claim_dir claim r \<in> D" "claim_dir claim r \<noteq> q"
        using D \<open>q \<notin> claim_dir claim ` set (own_results pre)\<close> by auto
      with pairwiseD [OF pw _ q] show "unrelated (claim_dir claim r) q" by (auto simp: separate_def)
    qed
    with run_other_dirs [OF run s this] d [OF q mono [OF h]] fd [OF q] show False by simp
  qed
  show "has_dir w' q = has_dir w q" if q: "\<forall>p \<in> D. unrelated p q" for q
  proof -
    have "\<forall>r \<in> set (own_results pre). unrelated (claim_dir claim r) q" using q D by auto
    moreover have "unrelated (dir_key pd) q" if "pd \<in> set pds" for pd
    proof -
      have "dir_key pd \<in> set (map dir_key pds)" using that by simp
      then show ?thesis unfolding l(4) using q D by auto
    qed
    ultimately show ?thesis using e o [OF q] run_other_dirs [OF run s] by simp
  qed
qed
end

text \<open>Nothing of the claim is there yet.\<close>

definition fresh_claim ::
  "('w \<Rightarrow> (string \<times> string) set) \<Rightarrow> ('w \<Rightarrow> string \<Rightarrow> bool) \<Rightarrow> ResourceClaim \<Rightarrow> DeviceRequestAllocationResult list \<Rightarrow> 'w \<Rightarrow> bool" where
  "fresh_claim attached has_dir claim rs w \<longleftrightarrow>
     list_all (\<lambda>r. (dr_Device r, port_name claim r) \<notin> attached w \<and> \<not> has_dir w (claim_dir claim r)) rs"

context prepare_backend
begin

lemma PrepareResourceClaim_err:
  assumes p: "PrepareResourceClaim bk obs claim w = (Err e, claim', w')"
  obtains (early) "w' = w"
  | (empty) al cfgs where "rc_Allocation claim = Some al" "prep_run bk obs cfgs 0 (al_Results al) claim w [] claim' w'"
  | (device) al cfgs pre r post pds j w1 w2 err where "rc_Allocation claim = Some al"
      "al_Results al = pre @ r # post" "dr_Driver r = DriverName" "prep_run bk obs cfgs 0 pre claim w pds claim' w1"
      "prepareDevice bk (obs j) (obs (j + 1)) (obs (j + 2)) claim' r (getConfig cfgs (dr_Request r)) w1 = (Err err, w2)"
      "rollback bk (Errorf ''error preparing device: %v'' [AErr err] []) pds w2 = ((Err e :: PreparedDevice list res), w')"
  | (cdi) al cfgs pds w1 w2 err where "rc_Allocation claim = Some al"
      "prep_run bk obs cfgs 0 (al_Results al) claim w pds claim' w1" "pds \<noteq> []"
      "CreateClaimSpecFile (bk_cdi bk) pds w1 = (Err err, w2)"
      "rollback bk (Errorf ''error creating CDI spec file: %v'' [AErr err] []) pds w2 = ((Err e :: PreparedDevice list res), w')"
proof (cases "\<exists>al cfgs. rc_Allocation claim = Some al \<and> length (rc_ReservedFor claim) = 1 \<and> parseClaimConfigs (al_Config al) = Inr cfgs")
  case False
  have len: "length (rc_ReservedFor claim) = 0 \<or> length (rc_ReservedFor claim) > 1 \<or> length (rc_ReservedFor claim) = 1" by linarith
  from False p len have "w' = w"
    by (cases "rc_Allocation claim"; elim disjE; cases "parseClaimConfigs (al_Config (the (rc_Allocation claim)))")
       (auto simp: PrepareResourceClaim_def split: if_splits)
  then show ?thesis by (rule early)
next
  case True
  then obtain al cfgs where al: "rc_Allocation claim = Some al" and len: "length (rc_ReservedFor claim) = 1"
    and c: "parseClaimConfigs (al_Config al) = Inr cfgs" by blast
  obtain x claim1 w1 where x: "prepare_results bk obs 0 cfgs (al_Results al) [] claim w = (x, claim1, w1)" by (metis prod_cases3)
  have nz: "rc_ReservedFor claim \<noteq> []" using len by auto
  note unf = PrepareResourceClaim_def al c x
  show ?thesis
  proof (cases x)
    case (Panic m)
    with p len nz show ?thesis by (simp add: unf)
  next
    case (Err e')
    with p len nz have "prepare_results bk obs 0 cfgs (al_Results al) [] claim w = (Err e, claim', w')" by (simp add: unf)
    from prepare_results_Err [OF this] al show ?thesis by (elim exE conjE) (rule device, simp_all)
  next
    case (Ok out)
    obtain y w2 where y: "CreateClaimSpecFile (bk_cdi bk) out w1 = (y, w2)" by fastforce
    from prepare_results_Ok [OF x [unfolded Ok]] have run: "prep_run bk obs cfgs 0 (al_Results al) claim w out claim1 w1" by simp
    show ?thesis
    proof (cases "out = []")
      case True
      with p len nz Ok run show ?thesis by (intro empty [OF al]) (auto simp: unf)
    next
      case False
      with p len nz Ok y obtain err where y': "y = Err err" by (cases y) (auto simp: unf split: if_splits)
      obtain z w3 where z: "rollback bk (Errorf ''error creating CDI spec file: %v'' [AErr err] []) out w2 = ((z :: PreparedDevice list res), w3)" by fastforce
      from False p len nz Ok y y' z have "z = Err e" "w3 = w'" "claim1 = claim'" by (simp_all add: unf)
      with False run y y' z show ?thesis by (intro cdi [OF al]) auto
    qed
  qed
qed

lemma quiet_subset: "quiet bk attached sound D \<Longrightarrow> E \<subseteq> D \<Longrightarrow> quiet bk attached sound E"
  by (auto simp: quiet_def)

lemma own_results_append [simp]: "own_results (xs @ ys) = own_results xs @ own_results ys"
  by (simp add: own_results_def)

lemma rolled_back:
  assumes "sound w2" and "rollback bk err pds w2 = ((Err e :: PreparedDevice list res), w')" and "\<not> rollback_failed e"
  shows "unprepare_all bk ''rollback unprepare failed: %w'' pds w2 = (Ok [], w')"
proof -
  obtain errs where u: "unprepare_all bk ''rollback unprepare failed: %w'' pds w2 = (Ok errs, w')"
    and "(Err e :: PreparedDevice list res) = Err (Joined (err # errs))" by (rule rollback_eq [OF assms(1,2)])
  with assms(3) show ?thesis by (simp add: rollback_failed_def)
qed

text \<open>The rollback of a run takes a spec of the claim away, if there is one, and no other.\<close>

lemma undo_specs:
  assumes run: "prep_run bk obs cfgs i pre claim w pds claim' w1" and s: "sound w" and s2: "sound w2"
    and u: "unprepare_all bk fmt pds w2 = (Ok [], w')"
    and fs: "specs w (specs.spec_name (rc_UID claim)) = None"
    and other: "\<And>n. n \<noteq> specs.spec_name (rc_UID claim) \<Longrightarrow> specs w2 n = specs w1 n"
    and own: "specs w2 (specs.spec_name (rc_UID claim)) = None \<or> pds \<noteq> [] \<and> (\<forall>m v. fst (cdi_RemoveSpec (bk_cdi bk) m v) = None)"
  shows "specs w' = specs w"
proof
  fix n
  note l = list_all2_describes [OF run_describes [OF run]]
  have e: "specs w' m \<in> {specs w2 m, None}" "m \<notin> (\<lambda>pd. specs.spec_name (uid_key pd)) ` set pds \<Longrightarrow> specs w' m = specs w2 m" for m
    using unprepare_all_effect [OF s2 u] by simp_all
  have "specs w' (specs.spec_name (rc_UID claim)) = None"
    using own
  proof
    assume "specs w2 (specs.spec_name (rc_UID claim)) = None"
    with e(1) [of "specs.spec_name (rc_UID claim)"] show ?thesis by simp
  next
    assume a: "pds \<noteq> [] \<and> (\<forall>m v. fst (cdi_RemoveSpec (bk_cdi bk) m v) = None)"
    then have ne: "pds \<noteq> []" and "fst (cdi_RemoveSpec (bk_cdi bk) m v) = None" for m v by simp_all
    from unprepare_all_specs_gone [OF this(2) s2 u hd_in_set [OF ne], unfolded l(3) [OF ne]] show ?thesis .
  qed
  with e(2) [of n] other run_sound [OF run s] fs l(2) show "specs w' n = specs w n"
    by (cases "n = specs.spec_name (rc_UID claim)") auto
qed

lemma device_failure:
  assumes s: "sound w" and run: "prep_run bk obs cfgs 0 pre claim w pds claim' w1"
    and p: "prepareDevice bk d1 d2 d3 claim' r pc w1 = (Err err, w2)"
    and D: "claim_dir claim ` set (own_results pre) \<subseteq> D" "claim_dir claim r \<in> D"
    and pw: "pairwise separate D" and qu: "quiet bk attached sound D"
  shows "sound w2" and "attached w2 = attached w1" and "specs w2 = specs w1"
    and "\<And>q. q \<in> D \<Longrightarrow> has_dir w2 q \<Longrightarrow> has_dir w1 q"
    and "\<And>q. \<forall>p \<in> D. unrelated p q \<Longrightarrow> has_dir w2 q = has_dir w1 q"
proof -
  have cd: "claim_dir claim' = claim_dir claim" "port_name claim' = port_name claim" using prep_run_claim [OF run] by simp_all
  have s1: "sound w1" using run_sound [OF run s] by simp
  note ef = prepareDevice_effect [OF s1 p, unfolded cd]
  have qr: "quiet bk attached sound {claim_dir claim r}" using qu by (rule quiet_subset) (simp add: D)
  show "sound w2" "attached w2 = attached w1" "specs w2 = specs w1" using ef(1,3) ef(7) [OF refl qr] by simp_all
  show "has_dir w1 q" if "q \<in> D" "has_dir w2 q" for q
  proof (cases "q = claim_dir claim r")
    case True
    with ef(7) [OF refl qr] that(2) show ?thesis by simp
  next
    case False
    then have "unrelated (claim_dir claim r) q" using pairwiseD [OF pw D(2) that(1)] by (simp add: separate_def)
    with ef(4) that(2) show ?thesis by simp
  qed
  show "has_dir w2 q = has_dir w1 q" if "\<forall>p \<in> D. unrelated p q" for q using ef(4) that D(2) by simp
qed

lemma prepare_failure:
  assumes s: "sound w" and p: "PrepareResourceClaim bk obs claim w = (Err e, claim', w')"
    and al: "rc_Allocation claim = Some al" and nf: "\<not> rollback_failed e"
    and fr: "fresh_claim attached has_dir claim (own_results (al_Results al)) w"
    and fs: "specs w (specs.spec_name (rc_UID claim)) = None"
    and D: "D = claim_dir claim ` set (own_results (al_Results al))"
    and pw: "pairwise separate D" and qu: "quiet bk attached sound D"
  shows "attached w' = attached w \<and> specs w' = specs w \<and> (\<forall>q \<in> D. \<not> has_dir w' q)
    \<and> (\<forall>q. (\<forall>p \<in> D. unrelated p q) \<longrightarrow> has_dir w' q = has_dir w q)"
proof -
  have fp: "(dr_Device r, port_name claim r) \<notin> attached w" if "r \<in> set (own_results (al_Results al))" for r
    using fr that by (simp add: fresh_claim_def list_all_iff)
  have fd: "\<not> has_dir w q" if "q \<in> D" for q using fr that D by (auto simp: fresh_claim_def list_all_iff)
  from p show ?thesis
  proof (cases rule: PrepareResourceClaim_err)
    case early
    with fd show ?thesis by simp
  next
    case (empty al' cfgs)
    then have "own_results (al_Results al) = []" using run_describes [OF empty(2)] al by simp
    with run_attached [OF empty(2) s] run_sound [OF empty(2) s] run_other_dirs [OF empty(2) s] empty(1) al D
    show ?thesis by simp
  next
    case (device al' cfgs pre r post pds j w1 w2 err)
    have pre: "own_results (al_Results al) = own_results pre @ r # own_results post"
      using device(1-3) al by (simp add: own_results_def)
    have sub: "claim_dir claim ` set (own_results pre) \<subseteq> D" "claim_dir claim r \<in> D" by (auto simp: D pre)
    note df = device_failure [OF s device(4,5) sub pw qu]
    note u = rolled_back [OF df(1) device(6) nf]
    have "specs w2 (specs.spec_name (rc_UID claim)) = None" using df(3) fs run_sound [OF device(4) s] by simp
    with undo_specs [OF device(4) s df(1) u fs] df(3) have sp: "specs w' = specs w" by simp
    have "(dr_Device x, port_name claim x) \<notin> attached w" if "x \<in> set (own_results pre)" for x using that fp by (simp add: pre)
    note undo = undo_run [OF s device(4) df(1,2) sub(1) df(4,5) u pw this fd]
    show ?thesis using sp undo by blast
  next
    case (cdi al' cfgs pds w1 w2 err)
    note f = CreateClaimSpecFile_frame [OF cdi(4)] and l = list_all2_describes [OF run_describes [OF cdi(2)]]
    have s2: "sound w2" using f run_sound [OF cdi(2) s] by simp
    note u = rolled_back [OF s2 cdi(5) nf]
    have "specs w2 n = specs w1 n" if "n \<noteq> specs.spec_name (rc_UID claim)" for n
      using specs.create_spec(2) [OF cdi(3) l(1) cdi(4) refl refl] l(3) [OF cdi(3)] that by auto
    with undo_specs [OF cdi(2) s s2 u fs] cdi(3) qu have sp: "specs w' = specs w" by (simp add: quiet_def)
    note undo = undo_run [OF s cdi(2) s2 _ _ _ _ u pw _ fd]
    have "attached w' = attached w" "\<forall>q \<in> D. \<not> has_dir w' q" "\<forall>q. (\<forall>p \<in> D. unrelated p q) \<longrightarrow> has_dir w' q = has_dir w q"
      using undo f fp cdi(1) al D by auto
    with sp show ?thesis by simp
  qed
qed

text \<open>
  Unprepare may run on a later world \<open>v1\<close>, as long as it has the ports, directories and
  specs that prepare left.
\<close>

lemma prepare_unprepare_later:
  assumes s: "sound w" and p: "PrepareResourceClaim bk obs claim w = (Ok pds, claim', w1)"
    and later: "attached v1 = attached w1" "has_dir v1 = has_dir w1" "specs v1 = specs w1" "sound v1"
    and u: "UnprepareResourceClaim bk pds v1 = (Ok (), w2)"
    and al: "rc_Allocation claim = Some al"
    and fr: "fresh_claim attached has_dir claim (own_results (al_Results al)) w"
  shows "attached w2 = attached w \<and> sound w2
    \<and> (\<forall>r \<in> set (own_results (al_Results al)). \<not> has_dir w2 (claim_dir claim r))
    \<and> (\<forall>q. (\<forall>r \<in> set (own_results (al_Results al)). unrelated (claim_dir claim r) q) \<longrightarrow> has_dir w2 q = has_dir w q)
    \<and> (\<forall>n. n \<noteq> specs.spec_name (rc_UID claim) \<longrightarrow> specs w2 n = specs w n)
    \<and> ((\<forall>n w. fst (cdi_RemoveSpec (bk_cdi bk) n w) = None) \<longrightarrow> specs w2 (specs.spec_name (rc_UID claim)) = None)"
proof -
  obtain al' cfgs w' where "rc_Allocation claim = Some al'" and c: "parseClaimConfigs (al_Config al') = Inr cfgs"
    using PrepareResourceClaim_ok [OF s p] by metis
  with al have c: "parseClaimConfigs (al_Config al) = Inr cfgs" by simp
  note ok = prepare_success [OF s p al c] and l = list_all2_describes [OF prepare_success(2) [OF s p al c]]
  obtain x where x: "unprepare_all bk ''unprepare failed: %w'' pds v1 = (x, w2)"
    using u by (auto simp: UnprepareResourceClaim_def split: prod.splits res.splits)
  note e = unprepare_all_effect [OF later(4) x, unfolded later(1-3)]
  then obtain errs where "x = Ok errs" by (elim conjE exE) (rule that)
  with x u have x: "unprepare_all bk ''unprepare failed: %w'' pds v1 = (Ok [], w2)"
    by (simp add: UnprepareResourceClaim_def)
  note e = unprepare_all_effect [OF later(4) x, unfolded later(1-3)]
  have keys: "k \<notin> attached w" if "k \<in> port_key ` set pds" for k
    using that l(5) fr by (auto simp: fresh_claim_def list_all_iff)
  have same: "k \<in> attached w2 \<longleftrightarrow> k \<in> attached w1" if "k \<notin> port_key ` set pds" for k
    using e that by (cases k) simp
  have gone: "port_key ` set pds \<inter> attached w2 = {}" and dgone: "pd \<in> set pds \<Longrightarrow> \<not> has_dir w2 (dir_key pd)" for pd
    using e by simp_all
  have a: "attached w2 = attached w"
  proof (rule set_eqI)
    fix k show "k \<in> attached w2 \<longleftrightarrow> k \<in> attached w"
      using gone same [of k] keys [of k] ok(5) by (cases "k \<in> port_key ` set pds") auto
  qed
  have d: "\<not> has_dir w2 (claim_dir claim r)" if "r \<in> set (own_results (al_Results al))" for r
  proof -
    have "claim_dir claim r \<in> set (map dir_key pds)" unfolding l(4) using that by simp
    then show ?thesis using dgone by auto
  qed
  have q: "has_dir w2 q = has_dir w q" if "\<forall>r \<in> set (own_results (al_Results al)). unrelated (claim_dir claim r) q" for q
  proof -
    have "unrelated (dir_key pd) q" if "pd \<in> set pds" for pd
    proof -
      have "dir_key pd \<in> set (map dir_key pds)" using that by simp
      then show ?thesis unfolding l(4) using \<open>\<forall>r \<in> _. unrelated (claim_dir claim r) q\<close> by auto
    qed
    with e ok(7) [OF that] show ?thesis by simp
  qed
  have n: "specs w2 n = specs w n" if "n \<noteq> specs.spec_name (rc_UID claim)" for n
  proof -
    have "n \<notin> (\<lambda>pd. specs.spec_name (uid_key pd)) ` set pds" using that l(2) by auto
    with e ok(6) that show ?thesis by simp
  qed
  have g: "specs w2 (specs.spec_name (rc_UID claim)) = None" if "\<forall>n w. fst (cdi_RemoveSpec (bk_cdi bk) n w) = None"
    using unprepare_all_specs_gone [OF _ later(4) x hd_in_set [OF ok(1)]] that l(3) [OF ok(1)] by simp
  from a d q n g e show ?thesis by simp
qed

lemma prepare_results_no_panic:
  "sound w \<Longrightarrow> rc_ReservedFor claim \<noteq> [] \<Longrightarrow> 8 \<le> length (strings_RemoveAll (CHR ''-'') (rc_UID claim)) \<Longrightarrow>
   prepare_results bk obs i cfgs rs acc claim w = (r, claim', w') \<Longrightarrow> r \<noteq> Panic m"
proof (induction rs arbitrary: i acc claim w)
  case (Cons x rs)
  obtain y w1 where y: "prepareDevice bk (obs i) (obs (i + 1)) (obs (i + 2)) claim x (getConfig cfgs (dr_Request x)) w = (y, w1)"
    by fastforce
  note e = prepareDevice_effect [OF Cons.prems(1) y]
  show ?case
  proof (cases "dr_Driver x = DriverName")
    case False
    then show ?thesis using Cons.IH [OF Cons.prems(1-3), of i acc] Cons.prems(4) by simp
  next
    case True
    show ?thesis
    proof (cases y)
      case (Ok pd)
      have "prepare_results bk obs (i + 3) cfgs rs (acc @ [pd]) (updateClaimStatus x pd claim) w1 = (r, claim', w')"
        using True Ok y Cons.prems(4) by simp
      with Cons.IH [OF e(1), of "updateClaimStatus x pd claim"] Cons.prems(2,3) show ?thesis by simp
    next
      case (Err err)
      obtain z w2 where z: "rollback bk (Errorf ''error preparing device: %v'' [AErr err] []) acc w1 = ((z :: PreparedDevice list res), w2)" by fastforce
      with True Err y Cons.prems(4) have "r = z" by simp
      with rollback_eq [OF e(1) z] show ?thesis by auto
    next
      case (Panic m')
      with e(8) Cons.prems(2,3) show ?thesis by simp
    qed
  qed
qed auto

lemma PrepareResourceClaim_no_panic:
  assumes s: "sound w" and u: "8 \<le> length (strings_RemoveAll (CHR ''-'') (rc_UID claim))"
    and p: "PrepareResourceClaim bk obs claim w = (Panic m, claim', w')"
  shows False
proof -
  from p obtain al cfgs where al: "rc_Allocation claim = Some al" and nz: "rc_ReservedFor claim \<noteq> []"
    and c: "parseClaimConfigs (al_Config al) = Inr cfgs"
    by (auto simp: PrepareResourceClaim_def split: option.splits if_splits sum.splits)
  obtain x claim1 w1 where x: "prepare_results bk obs 0 cfgs (al_Results al) [] claim w = (x, claim1, w1)" by (metis prod_cases3)
  from p al c x prepare_results_no_panic [OF s nz u x] obtain out where out: "x = Ok out" "out \<noteq> []"
    by (cases x) (auto simp: PrepareResourceClaim_def split: if_splits)
  from prepare_results_Ok [OF x [unfolded out(1)]] have run: "prep_run bk obs cfgs 0 (al_Results al) claim w out claim1 w1" by simp
  obtain y w2 where y: "CreateClaimSpecFile (bk_cdi bk) out w1 = (y, w2)" by fastforce
  have ny: "y \<noteq> Panic m'" for m'
    using specs.create_spec(3) [OF out(2) list_all2_describes(1) [OF run_describes [OF run]] y refl] .
  have s2: "sound w2" using CreateClaimSpecFile_frame [OF y] run_sound [OF run s] by simp
  show False
  proof (cases y)
    case (Err err)
    obtain z w3 where z: "rollback bk (Errorf ''error creating CDI spec file: %v'' [AErr err] []) out w2 = ((z :: PreparedDevice list res), w3)" by fastforce
    from rollback_eq [OF s2 z] p al c x out y Err z show False by (auto simp: PrepareResourceClaim_def split: if_splits)
  qed (use p al c x out y ny in \<open>auto simp: PrepareResourceClaim_def split: if_splits\<close>)
qed
end

section \<open>Socket directories of different requests\<close>

definition dir_name :: "string \<Rightarrow> ResourceClaim \<Rightarrow> DeviceRequestAllocationResult \<Rightarrow> string" where
  "dir_name podUID claim r = podUID @ ''_'' @ getPodClaimName claim @ ''_'' @ dr_Request r"

definition slash_free :: "string \<Rightarrow> ResourceClaim \<Rightarrow> DeviceRequestAllocationResult \<Rightarrow> bool" where
  "slash_free podUID claim r \<longleftrightarrow>
     CHR ''/'' \<notin> set podUID \<and> CHR ''/'' \<notin> set (getPodClaimName claim) \<and> CHR ''/'' \<notin> set (dr_Request r)"

lemma plain_dir_name: "slash_free podUID claim r \<Longrightarrow> plain_comp (dir_name podUID claim r)"
  by (auto simp: slash_free_def plain_comp_def dir_name_def append_eq_Cons_conv)

lemma getSocketDir_eq:
  assumes "slash_free podUID claim r"
  shows "getSocketDir podUID claim r = HostRootPath @ CHR ''/'' # dir_name podUID claim r"
proof -
  have root: "HostRootPath = abs_path [''var'', ''run'', ''ovsdpdk'']" by (simp add: HostRootPath_def abs_path_def)
  have "filepath_Join [abs_path [''var'', ''run'', ''ovsdpdk''], dir_name podUID claim r]
      = abs_path [''var'', ''run'', ''ovsdpdk''] @ CHR ''/'' # dir_name podUID claim r"
    by (rule filepath_Join_abs_path) (simp_all add: plain_dir_name [OF assms], simp_all add: plain_comp_def)
  then show ?thesis by (simp add: getSocketDir_def root dir_name_def)
qed

lemma getSocketDir_separate:
  "slash_free p claim r \<Longrightarrow> slash_free p' claim' r' \<Longrightarrow> separate (getSocketDir p claim r) (getSocketDir p' claim' r')"
  using siblings_unrelated [OF plain_dir_name plain_dir_name, of p claim r p' claim' r' HostRootPath]
  by (auto simp: separate_def getSocketDir_eq)

lemma claim_dirs_separate:
  assumes "list_all (slash_free (cr_UID (pod_ref claim)) claim) rs"
  shows "pairwise separate (claim_dir claim ` set rs)"
  using assms by (auto simp: pairwise_def claim_dir_def list_all_iff intro: getSocketDir_separate)

lemma getSocketDir_unrelated:
  assumes "slash_free p claim r" and "slash_free p' claim' r'"
    and "CHR ''_'' \<notin> set p \<union> set p' \<union> set (getPodClaimName claim) \<union> set (getPodClaimName claim')"
    and "(p, getPodClaimName claim, dr_Request r) \<noteq> (p', getPodClaimName claim', dr_Request r')"
  shows "unrelated (getSocketDir p claim r) (getSocketDir p' claim' r')"
proof -
  have "dir_name p claim r \<noteq> dir_name p' claim' r'"
  proof
    assume "dir_name p claim r = dir_name p' claim' r'"
    then have e: "p @ CHR ''_'' # (getPodClaimName claim @ CHR ''_'' # dr_Request r)
        = p' @ CHR ''_'' # (getPodClaimName claim' @ CHR ''_'' # dr_Request r')" by (simp add: dir_name_def)
    have 1: "p = p' \<and> getPodClaimName claim @ CHR ''_'' # dr_Request r = getPodClaimName claim' @ CHR ''_'' # dr_Request r'"
      using append_sep_inject [OF e] assms(3) by simp
    then have "getPodClaimName claim = getPodClaimName claim' \<and> dr_Request r = dr_Request r'"
      using append_sep_inject [of "getPodClaimName claim" "CHR ''_''"] assms(3) by auto
    with 1 assms(4) show False by simp
  qed
  with siblings_unrelated [OF plain_dir_name plain_dir_name, of p claim r p' claim' r' HostRootPath] assms(1,2)
  show ?thesis by (simp add: getSocketDir_eq)
qed

text \<open>
  C38. The pod, the pod-local claim name and the request determine the socket directory of a
  request, and nothing else does: for names without a slash, and pod UIDs and claim names
  without an underscore (which Kubernetes names cannot have), the directories of two
  different triples are different and neither contains the other, so that one is never
  created, changed or removed through the other; and the same triple gives the same
  directory, even for different claims. The latter happens: the claim that a template
  makes under the pod-local name \<open>c\<close> and a hand-written claim named \<open>c\<close> in one pod share it.
\<close>

theorem getSocketDir_distinct:
  assumes "slash_free p claim r" and "slash_free p' claim' r'"
    and "CHR ''_'' \<notin> set p \<union> set p' \<union> set (getPodClaimName claim) \<union> set (getPodClaimName claim')"
  shows "if (p, getPodClaimName claim, dr_Request r) = (p', getPodClaimName claim', dr_Request r')
    then getSocketDir p claim r = getSocketDir p' claim' r'
    else unrelated (getSocketDir p claim r) (getSocketDir p' claim' r')"
proof (cases "(p, getPodClaimName claim, dr_Request r) = (p', getPodClaimName claim', dr_Request r')")
  case True
  then show ?thesis by (simp add: getSocketDir_def)
next
  case False
  from getSocketDir_unrelated [OF assms False] False show ?thesis by (simp only: if_False)
qed

text \<open>A hand-written claim, and one of the same pod-local name made from a template.\<close>

definition named_claim :: "string \<Rightarrow> string \<Rightarrow> string \<Rightarrow> ResourceClaim" where
  "named_claim uid name podClaimName =
     \<lparr>rc_Name = name, rc_Namespace = ''ns'', rc_UID = uid, rc_PodClaimName = podClaimName, rc_ResourceVersion = 0,
      rc_Allocation = None, rc_ReservedFor = [\<lparr>cr_Name = ''pod'', cr_UID = ''p-1''\<rparr>], rc_Devices = []\<rparr>"

definition named_request :: "string \<Rightarrow> DeviceRequestAllocationResult" where
  "named_request req = \<lparr>dr_Request = req, dr_Driver = DriverName, dr_Pool = [], dr_Device = ''br0'', dr_ShareID = None\<rparr>"

theorem getSocketDir_distinct_witness:
  "unrelated (getSocketDir ''p-1'' (named_claim ''u'' ''c'' []) (named_request ''a_b''))
     (getSocketDir ''p-1'' (named_claim ''v'' ''pod-d-x7k2p'' ''d'') (named_request ''a_b''))
   \<and> getSocketDir ''p-1'' (named_claim ''u'' ''c'' []) (named_request ''a_b'')
     = getSocketDir ''p-1'' (named_claim ''v'' ''pod-c-x7k2p'' ''c'') (named_request ''a_b'')"
  using getSocketDir_distinct [of "''p-1''" "named_claim ''u'' ''c'' []" "named_request ''a_b''" "''p-1''"
      "named_claim ''v'' ''pod-d-x7k2p'' ''d''" "named_request ''a_b''"]
    getSocketDir_distinct [of "''p-1''" "named_claim ''u'' ''c'' []" "named_request ''a_b''" "''p-1''"
      "named_claim ''v'' ''pod-c-x7k2p'' ''c''" "named_request ''a_b''"]
  by (simp add: slash_free_def getPodClaimName_def named_claim_def named_request_def)

end
