(* ===== verification/Node.thy ===== *)
theory Node
  imports Prepare
begin

text \<open>
  The node that the driver runs on: the models of the packages put together, the contract
  \<open>prepare_backend\<close> interpreted on them, and the properties of preparing and unpreparing a
  claim. The only hypotheses on code outside the repository are those of \<open>driver_node\<close>.
\<close>

section \<open>The node\<close>

text \<open>
  The models of the packages side by side: the host file system with the user cache of
  \<^verbatim>\<open>socketfs\<close>, the OVS database, the CDI directory, the checkpoint database and the API
  server. An operation of one package works on its part.
\<close>

record ('db, 'c, 's, 'k) node =
  nd_fs :: socketFS
  nd_db :: 'db
  nd_cdi :: 'c
  nd_store :: 's
  nd_api :: 'k

definition on_fs :: "(socketFS \<Rightarrow> 'r \<times> socketFS) \<Rightarrow> ('db, 'c, 's, 'k) node \<Rightarrow> 'r \<times> ('db, 'c, 's, 'k) node" where
  "on_fs f w = (case f (nd_fs w) of (r, x) \<Rightarrow> (r, w\<lparr>nd_fs := x\<rparr>))"

definition on_db :: "('db \<Rightarrow> 'r \<times> 'db) \<Rightarrow> ('db, 'c, 's, 'k) node \<Rightarrow> 'r \<times> ('db, 'c, 's, 'k) node" where
  "on_db f w = (case f (nd_db w) of (r, x) \<Rightarrow> (r, w\<lparr>nd_db := x\<rparr>))"

definition on_cdi :: "('c \<Rightarrow> 'r \<times> 'c) \<Rightarrow> ('db, 'c, 's, 'k) node \<Rightarrow> 'r \<times> ('db, 'c, 's, 'k) node" where
  "on_cdi f w = (case f (nd_cdi w) of (r, x) \<Rightarrow> (r, w\<lparr>nd_cdi := x\<rparr>))"

definition node_backend ::
  "os_env \<Rightarrow> ('op, 'res, 'db) libovsdb \<Rightarrow> 'c cdi_lib \<Rightarrow> ('db, 'c, 's, 'k) node backend" where
  "node_backend env lib cdi =
     \<lparr>bk_cdi = \<lparr>cdi_WriteSpec = (\<lambda>s n. on_cdi (cdi_WriteSpec cdi s n)),
                cdi_RemoveSpec = (\<lambda>n. on_cdi (cdi_RemoveSpec cdi n)),
                cdi_GenerateTransientSpecName = cdi_GenerateTransientSpecName cdi,
                cdi_QualifiedName = cdi_QualifiedName cdi\<rparr>,
      bk_socketFS = \<lparr>CreateSocketDir = (\<lambda>p sp. on_fs (socketFS_CreateSocketDir env p sp)),
                     RemoveSocketDir = (\<lambda>p. on_fs (socketFS_RemoveSocketDir env p))\<rparr>,
      bk_ovsClient = \<lparr>CreatePort = (\<lambda>b n s ps. on_db (ovsClient_CreatePort lib b n s ps)),
                      DeletePort = (\<lambda>b n. on_db (ovsClient_DeletePort lib b n))\<rparr>\<rparr>"

abbreviation node_dir :: "('db, 'c, 's, 'k) node \<Rightarrow> string \<Rightarrow> bool" where
  "node_dir w \<equiv> dir_at (sf_host (nd_fs w))"

lemma on_fs_iff: "on_fs f w = (r, w') \<longleftrightarrow> (\<exists>x. f (nd_fs w) = (r, x) \<and> w' = w\<lparr>nd_fs := x\<rparr>)"
  by (auto simp: on_fs_def split: prod.splits)

lemma on_db_iff: "on_db f w = (r, w') \<longleftrightarrow> (\<exists>x. f (nd_db w) = (r, x) \<and> w' = w\<lparr>nd_db := x\<rparr>)"
  by (auto simp: on_db_def split: prod.splits)

lemma on_cdi_iff: "on_cdi f w = (r, w') \<longleftrightarrow> (\<exists>x. f (nd_cdi w) = (r, x) \<and> w' = w\<lparr>nd_cdi := x\<rparr>)"
  by (auto simp: on_cdi_def split: prod.splits)

lemma fst_on [simp]: "fst (on_fs f w) = fst (f (nd_fs w))" "fst (on_db g w) = fst (g (nd_db w))" "fst (on_cdi h w) = fst (h (nd_cdi w))"
  by (simp_all add: on_fs_def on_db_def on_cdi_def split: prod.split)

lemmas on_iff = on_fs_iff on_db_iff on_cdi_iff

lemma node_backend_sel [simp]:
  "CreateSocketDir (bk_socketFS (node_backend env lib cdi)) p sp = on_fs (socketFS_CreateSocketDir env p sp)"
  "RemoveSocketDir (bk_socketFS (node_backend env lib cdi)) p = on_fs (socketFS_RemoveSocketDir env p)"
  "CreatePort (bk_ovsClient (node_backend env lib cdi)) b n s ps = on_db (ovsClient_CreatePort lib b n s ps)"
  "DeletePort (bk_ovsClient (node_backend env lib cdi)) b n = on_db (ovsClient_DeletePort lib b n)"
  "cdi_WriteSpec (bk_cdi (node_backend env lib cdi)) x n = on_cdi (cdi_WriteSpec cdi x n)"
  "cdi_RemoveSpec (bk_cdi (node_backend env lib cdi)) n = on_cdi (cdi_RemoveSpec cdi n)"
  "cdi_GenerateTransientSpecName (bk_cdi (node_backend env lib cdi)) = cdi_GenerateTransientSpecName cdi"
  "cdi_QualifiedName (bk_cdi (node_backend env lib cdi)) = cdi_QualifiedName cdi"
  by (simp_all add: node_backend_def)

text \<open>A node whose database and CDI library behave as documented.\<close>

locale driver_node =
  db: ovsdb_server lib calls tables + files: cdi_files cdi cspecs
  for lib :: "('op, 'res, 'db) libovsdb" and calls :: "'op list \<Rightarrow> ovs_call list" and tables :: "'db \<Rightarrow> ovs_tables"
    and cdi :: "'c cdi_lib" and cspecs :: "'c \<Rightarrow> string \<rightharpoonup> Spec" +
  fixes env :: os_env and shape :: "('db, 'c, 's, 'k) node itself"

sublocale driver_node \<subseteq> node: prepare_backend "node_backend env lib cdi :: ('db, 'c, 's, 'k) node backend" node_dir
  "\<lambda>w. attached_ports (tables (nd_db w))" "\<lambda>w. has_bridge (tables (nd_db w))"
  "\<lambda>w. wf_tables (tables (nd_db w))" "\<lambda>w. cspecs (nd_cdi w)"
proof (unfold_locales, goal_cases)
  case (2 p sp w e w')
  have "fst (socketFS_RemoveSocketDir env p v) = Ok ()" for v using 2(2) [of "w\<lparr>nd_fs := v\<rparr>"] by simp
  with 2(1) show ?case by (auto simp: on_iff dest: sfs.create_err)
qed (auto simp: on_iff sfs.create_no_panic sfs.remove_no_panic db.ports.create_no_panic db.ports.delete_no_panic
    dest: sfs.create_ok sfs.create_frame sfs.remove_ok sfs.remove_frame sfs.remove_mono
      db.ports.create_ok db.ports.create_err db.ports.create_sound db.ports.create_bridges
      db.ports.delete_ok db.ports.delete_missing db.ports.delete_err db.ports.delete_sound db.ports.delete_bridges
      files.write_ok files.write_err files.remove_ok files.remove_err files.names)

context driver_node
begin

lemmas prepare_success_law = node.prepare_success
lemmas prepare_failure_law = node.prepare_failure
lemmas prepare_unprepare_law = node.prepare_unprepare_later
lemmas prepared_wf_law = node.prepare_success(3)
lemmas prepare_no_panic_law = node.PrepareResourceClaim_no_panic
lemmas unprepare_law = node.unprepare_all_effect

end

interpretation ref_node: driver_node ref_lib "\<lambda>cs. cs" "\<lambda>T. T" mem_cdi "\<lambda>m. m" env "shape"
  for env and shape :: "(ovs_tables, string \<rightharpoonup> Spec, 's, 'k) node itself"
  by unfold_locales

lemma DeviceID_node [simp]: "DeviceID (bk_cdi (node_backend env lib cdi)) = DeviceID cdi"
  by (simp add: DeviceID_def fun_eq_iff)

lemma describes_node [simp]: "describes (bk_cdi (node_backend env lib cdi)) = describes cdi"
  by (simp add: describes_def fun_eq_iff)

abbreviation claim_spec_name :: "'c cdi_lib \<Rightarrow> string \<Rightarrow> string" where
  "claim_spec_name cdi uid \<equiv> cdi_GenerateTransientSpecName cdi cdiVendor cdiClass uid"

section \<open>A sample claim\<close>

definition sample_result :: "string \<Rightarrow> string \<Rightarrow> DeviceRequestAllocationResult" where
  "sample_result dev req = \<lparr>dr_Request = req, dr_Driver = DriverName, dr_Pool = ''pool'', dr_Device = dev, dr_ShareID = None\<rparr>"

definition sample_claim :: "DeviceRequestAllocationResult list \<Rightarrow> ResourceClaim" where
  "sample_claim rs =
     \<lparr>rc_Name = ''claim'', rc_Namespace = ''ns'', rc_UID = ''0123-4567-89ab'', rc_PodClaimName = [], rc_ResourceVersion = 1,
      rc_Allocation = Some \<lparr>al_Config = [sample_config [] ''7''], al_Results = rs\<rparr>,
      rc_ReservedFor = [\<lparr>cr_Name = ''pod'', cr_UID = ''p-1''\<rparr>], rc_Devices = []\<rparr>"

definition sample_node :: "(ovs_tables, string \<rightharpoonup> Spec, unit, unit) node" where
  "sample_node = \<lparr>nd_fs = fresh_socketFS, nd_db = sample_tables, nd_cdi = Map.empty, nd_store = (), nd_api = ()\<rparr>"

abbreviation sample_bk :: "(ovs_tables, string \<rightharpoonup> Spec, unit, unit) node backend" where
  "sample_bk \<equiv> node_backend calm_env ref_lib mem_cdi"

lemma sample_wf: "wf_tables (nd_db sample_node)"
  by (simp add: sample_node_def sample_tables_def wf_tables_def)

lemma sample_prepared:
  "case fst (PrepareResourceClaim sample_bk (\<lambda>_. sample_state) (sample_claim [sample_result ''br0'' ''net'']) sample_node) of
     Ok pds \<Rightarrow> length pds = 1 | _ \<Rightarrow> False"
  by code_simp

section \<open>Properties of prepare and unprepare\<close>

text \<open>
  C1. A claim that is prepared successfully has everything the container needs: one
  prepared device per allocation result of this driver, in order, each naming its bridge,
  port, directory and socket; each socket directory stands; each port is attached to its
  bridge, if that bridge exists in OVS, and no other port changed; and the CDI spec of the
  claim lists the devices. Nothing of another claim's spec changed.
\<close>

theorem PrepareResourceClaim_success:
  assumes "driver_node lib calls tables cdi cspecs" and "wf_tables (tables (nd_db w))"
    and "PrepareResourceClaim (node_backend env lib cdi) obs claim w = (Ok pds, claim', w')"
    and "rc_Allocation claim = Some al" and "parseClaimConfigs (al_Config al) = Inr cfgs"
    and "pairwise separate (claim_dir claim ` set (own_results (al_Results al)))"
  shows "pds \<noteq> [] \<and> list_all2 (describes cdi claim cfgs) (own_results (al_Results al)) pds
    \<and> list_all (\<lambda>pd. node_dir w' (dir_key pd)) pds
    \<and> attached_ports (tables (nd_db w')) =
        attached_ports (tables (nd_db w)) \<union> {x \<in> port_key ` set pds. has_bridge (tables (nd_db w)) (fst x)}
    \<and> cspecs (nd_cdi w') = (cspecs (nd_cdi w))(claim_spec_name cdi (rc_UID claim) \<mapsto> spec_of (rc_UID claim) pds)"
  using driver_node.prepare_success_law [OF assms(1-5)] assms(6) by (simp add: list_all_iff)

lemma sample_slash_free:
  "CHR ''/'' \<notin> set req \<Longrightarrow> slash_free (cr_UID (pod_ref (sample_claim rs))) (sample_claim rs) (sample_result dev req)"
  by (simp add: slash_free_def pod_ref_def sample_claim_def getPodClaimName_def sample_result_def)

lemma sample_allocation: "rc_Allocation (sample_claim rs) = Some \<lparr>al_Config = [sample_config [] ''7''], al_Results = rs\<rparr>"
  by (simp add: sample_claim_def)

lemma sample_own: "own_results [sample_result d r] = [sample_result d r]"
  "own_results [sample_result d r, sample_result d' r'] = [sample_result d r, sample_result d' r']"
  by (simp_all add: own_results_def sample_result_def)

lemma sample_ok:
  obtains pds claim' w' where "PrepareResourceClaim sample_bk (\<lambda>_. sample_state) (sample_claim [sample_result ''br0'' ''net'']) sample_node
    = (Ok pds, claim', w')" and "length pds = 1"
proof -
  obtain r claim' w' where r: "PrepareResourceClaim sample_bk (\<lambda>_. sample_state) (sample_claim [sample_result ''br0'' ''net'']) sample_node
    = (r, claim', w')" by (metis prod_cases3)
  with sample_prepared show ?thesis by (cases r) (auto intro: that)
qed

lemma sample_cfgs:
  obtains cfgs where "parseClaimConfigs [sample_config [] ''7''] = Inr cfgs"
  by (simp add: sample_config_def go_defs)

lemma sample_db: "nd_db sample_node = sample_tables"
  by (simp add: sample_node_def)

lemma sample_br0: "has_bridge sample_tables b \<longleftrightarrow> b = ''br0''"
  by (simp add: sample_tables_def has_bridge_def)

lemma sample_port_name: "port_name (sample_claim rs) (sample_result d ''net'') = ''01234567-net''"
  by (simp add: port_name_def sample_claim_def sample_result_def strings_RemoveAll_def)

theorem PrepareResourceClaim_success_witness:
  "\<exists>pds claim' w'. PrepareResourceClaim sample_bk (\<lambda>_. sample_state) (sample_claim [sample_result ''br0'' ''net'']) sample_node
       = (Ok pds, claim', w')
     \<and> attached_ports (nd_db w') = attached_ports sample_tables \<union> {(''br0'', ''01234567-net'')}"
proof -
  let ?claim = "sample_claim [sample_result ''br0'' ''net'']"
  let ?al = "\<lparr>al_Config = [sample_config [] ''7''], al_Results = [sample_result ''br0'' ''net'']\<rparr>"
  obtain pds claim' w' where p: "PrepareResourceClaim sample_bk (\<lambda>_. sample_state) ?claim sample_node = (Ok pds, claim', w')"
    by (rule sample_ok)
  obtain cfgs where c: "parseClaimConfigs (al_Config ?al) = Inr cfgs" using sample_cfgs by auto
  have d: "pairwise separate (claim_dir ?claim ` set (own_results (al_Results ?al)))"
    by (simp add: sample_own)
  have s: "list_all2 (describes mem_cdi ?claim cfgs) (own_results (al_Results ?al)) pds"
    "attached_ports (nd_db w') = attached_ports (nd_db sample_node)
       \<union> {x \<in> port_key ` set pds. has_bridge (nd_db sample_node) (fst x)}"
    using PrepareResourceClaim_success [OF ref_node.driver_node_axioms sample_wf p sample_allocation c d] by simp_all
  from s(1) obtain pd where "pds = [pd]" "port_key pd = (''br0'', ''01234567-net'')"
    by (auto simp: sample_own list_all2_Cons1 describes_def sample_port_name) (simp add: sample_result_def)
  then have k: "port_key ` set pds = {(''br0'', ''01234567-net'')}" by simp
  have "{x \<in> {(''br0'', ''01234567-net'')}. has_bridge sample_tables (fst x)} = {(''br0'', ''01234567-net'')}"
    unfolding sample_br0 by auto
  then have "attached_ports (nd_db w') = attached_ports sample_tables \<union> {(''br0'', ''01234567-net'')}"
    using s(2) unfolding k sample_db by simp
  with p show ?thesis by (intro exI conjI)
qed

text \<open>
  C25. Every CDI device name handed to the kubelet resolves: the spec file that the claim's
  preparation wrote has a device of exactly that name, and its only mount binds the
  prepared socket directory to the directory announced to the container.
\<close>

theorem prepared_CDI_ids_resolve:
  assumes "driver_node lib calls tables cdi cspecs" and "wf_tables (tables (nd_db w))"
    and "PrepareResourceClaim (node_backend env lib cdi) obs claim w = (Ok pds, claim', w')"
    and "rc_Allocation claim = Some al" and "parseClaimConfigs (al_Config al) = Inr cfgs" and "pd \<in> set pds"
  shows "\<exists>spec d. cspecs (nd_cdi w') (claim_spec_name cdi (rc_UID claim)) = Some spec \<and> spec_Kind spec = cdiKind
    \<and> d \<in> set (spec_Devices spec)
    \<and> kd_CDIDeviceIDs (pd_Device pd) = [cdi_QualifiedName cdi cdiVendor cdiClass (cd_Name d)]
    \<and> cd_Mounts d = [\<lparr>m_HostPath = dir_key pd, m_ContainerPath = ContainerDir (pd_Mount pd), m_Options = [''bind'', ''rw'']\<rparr>]"
proof -
  note p = driver_node.prepare_success_law [OF assms(1-5)]
  from p(2) assms(6) obtain r where "describes cdi claim cfgs r pd" by (auto simp: list_all2_conv_all_nth in_set_conv_nth)
  then have "kd_CDIDeviceIDs (pd_Device pd) = [cdi_QualifiedName cdi cdiVendor cdiClass (cd_Name (device_of (rc_UID claim) pd))]"
    by (simp add: describes_def device_of_def DeviceID_def)
  with p(6) assms(6) show ?thesis
    by (intro exI [of _ "spec_of (rc_UID claim) pds"] exI [of _ "device_of (rc_UID claim) pd"])
       (simp add: spec_of_def device_of_def)
qed

theorem prepared_CDI_ids_resolve_witness:
  "\<exists>pds claim' w'. PrepareResourceClaim sample_bk (\<lambda>_. sample_state) (sample_claim [sample_result ''br0'' ''net'']) sample_node
       = (Ok pds, claim', w')
     \<and> (\<exists>spec. nd_cdi w' (claim_spec_name mem_cdi ''0123-4567-89ab'') = Some spec \<and> spec_Devices spec \<noteq> [])"
proof -
  let ?claim = "sample_claim [sample_result ''br0'' ''net'']"
  let ?al = "\<lparr>al_Config = [sample_config [] ''7''], al_Results = [sample_result ''br0'' ''net'']\<rparr>"
  obtain pds claim' w' where p: "PrepareResourceClaim sample_bk (\<lambda>_. sample_state) ?claim sample_node = (Ok pds, claim', w')"
    and "length pds = 1" by (rule sample_ok)
  then have h: "hd pds \<in> set pds" by (cases pds) auto
  obtain cfgs where c: "parseClaimConfigs (al_Config ?al) = Inr cfgs" using sample_cfgs by auto
  from prepared_CDI_ids_resolve [OF ref_node.driver_node_axioms sample_wf p sample_allocation c h] p
  show ?thesis by (auto simp: sample_claim_def)
qed

text \<open>
  C2. A failed preparation of a fresh claim leaves nothing behind: if no rollback failure is
  reported and the node is one on which none of the three errors that the code drops can
  occur, then no port, no CDI spec and no
  socket directory of the claim remains, and everything else is as before.
\<close>

theorem PrepareResourceClaim_failure_clean:
  fixes w :: "('db, 'c, 's, 'k) node"
  assumes "driver_node lib calls tables cdi cspecs" and "wf_tables (tables (nd_db w))"
    and "PrepareResourceClaim (node_backend env lib cdi) obs claim w = (Err e, claim', w')"
    and "rc_Allocation claim = Some al" and "\<not> rollback_failed e"
    and "fresh_claim (\<lambda>w. attached_ports (tables (nd_db w))) node_dir claim (own_results (al_Results al)) w"
    and "cspecs (nd_cdi w) (claim_spec_name cdi (rc_UID claim)) = None"
    and "D = claim_dir claim ` set (own_results (al_Results al))" and "pairwise separate D"
    and "quiet (node_backend env lib cdi :: ('db, 'c, 's, 'k) node backend) (\<lambda>w. attached_ports (tables (nd_db w))) (\<lambda>w. wf_tables (tables (nd_db w))) D"
  shows "attached_ports (tables (nd_db w')) = attached_ports (tables (nd_db w)) \<and> cspecs (nd_cdi w') = cspecs (nd_cdi w)
    \<and> (\<forall>q \<in> D. \<not> node_dir w' q) \<and> (\<forall>q. (\<forall>p \<in> D. unrelated p q) \<longrightarrow> node_dir w' q = node_dir w q)"
  using driver_node.prepare_failure_law [OF assms(1-6) _ assms(8-10)] assms(7) by simp

lemma ref_CreatePort_err: "ovsClient_CreatePort ref_lib b n s ps T = (Err e, T') \<Longrightarrow> T' = T"
  by (auto simp: ovsClient_CreatePort_def ref_lib_def ref_Transact_def Let_def split: if_splits)

lemma ref_quiet:
  assumes "\<And>p. p \<in> D \<Longrightarrow> p \<noteq> ''.'' \<and> \<not> suffix ''/.'' p"
  shows "quiet (node_backend calm_env ref_lib mem_cdi :: (ovs_tables, string \<rightharpoonup> Spec, 's, 'k) node backend)
    (\<lambda>w. attached_ports (nd_db w)) (\<lambda>w. wf_tables (nd_db w)) D"
proof -
  have "fst (socketFS_RemoveSocketDir calm_env p s) = Ok ()" if "p \<in> D" for p s
    using assms [OF that] by (simp add: socketFS_RemoveSocketDir_def os_RemoveAll_def calm_env_def split: prod.split)
  moreover have "attached_ports (nd_db w') = attached_ports (nd_db w)"
    if "on_db (ovsClient_CreatePort ref_lib b n s ps) w = (Err e, w')" for b n s ps e and w w' :: "(ovs_tables, string \<rightharpoonup> Spec, 's, 'k) node"
    using that by (auto simp: on_iff dest!: ref_CreatePort_err)
  ultimately show ?thesis by (simp add: quiet_def mem_cdi_def)
qed

definition clashing :: "DeviceRequestAllocationResult list" where
  "clashing = [sample_result ''br0'' ''x-y'', sample_result ''br0-x'' ''y'']"

lemma clashing_fails:
  "case fst (PrepareResourceClaim sample_bk (\<lambda>_. sample_state) (sample_claim clashing) sample_node) of
     Err e \<Rightarrow> \<not> rollback_failed e | _ \<Rightarrow> False"
  by code_simp

lemma fresh_sample: "\<not> node_dir sample_node q"
  by (simp add: sample_node_def fresh_socketFS_def dir_at_def)

lemma sample_attached: "attached_ports sample_tables = {(''br0'', ''dpdk0'')}"
  by (auto simp: attached_ports_def sample_tables_def)

lemma claim_dir_no_dot:
  assumes "slash_free (cr_UID (pod_ref claim)) claim r"
  shows "claim_dir claim r \<noteq> ''.'' \<and> \<not> suffix ''/.'' (claim_dir claim r)"
proof -
  have d: "claim_dir claim r = HostRootPath @ CHR ''/'' # dir_name (cr_UID (pod_ref claim)) claim r"
    using assms by (simp add: claim_dir_def getSocketDir_eq)
  have "\<not> suffix ''/.'' (HostRootPath @ CHR ''/'' # n)" if "plain_comp n" for n
  proof
    assume "suffix ''/.'' (HostRootPath @ CHR ''/'' # n)"
    then obtain z where "HostRootPath @ CHR ''/'' # n = z @ ''/.''" by (auto simp: suffix_def)
    then have "rev n @ CHR ''/'' # rev HostRootPath = CHR ''.'' # CHR ''/'' # rev z" by (metis append_Cons append_Nil rev.simps(2) rev_append rev_rev_ident append_assoc)
    with that show False by (cases "rev n"; cases "tl (rev n)") (auto simp: plain_comp_def)
  qed
  with d plain_dir_name [OF assms] show ?thesis by (simp add: HostRootPath_def)
qed


theorem PrepareResourceClaim_failure_clean_witness:
  "\<exists>e claim' w'. PrepareResourceClaim sample_bk (\<lambda>_. sample_state) (sample_claim clashing) sample_node = (Err e, claim', w')
     \<and> attached_ports (nd_db w') = attached_ports sample_tables"
proof -
  let ?claim = "sample_claim clashing" and ?al = "\<lparr>al_Config = [sample_config [] ''7''], al_Results = clashing\<rparr>"
  let ?D = "claim_dir ?claim ` set (own_results (al_Results ?al))"
  obtain r claim' w' where r: "PrepareResourceClaim sample_bk (\<lambda>_. sample_state) ?claim sample_node = (r, claim', w')" by (metis prod_cases3)
  with clashing_fails obtain e where e: "r = Err e" "\<not> rollback_failed e" by (cases r) auto
  have own: "own_results (al_Results ?al) = clashing" by (simp add: clashing_def sample_own)
  have sf: "list_all (slash_free (cr_UID (pod_ref ?claim)) ?claim) clashing"
    by (simp add: clashing_def sample_slash_free)
  have "port_name ?claim (sample_result d q) \<noteq> ''dpdk0''" for d q
    by (simp add: port_name_def sample_claim_def strings_RemoveAll_def)
  then have fr: "fresh_claim (\<lambda>w. attached_ports (nd_db w)) node_dir ?claim (own_results (al_Results ?al)) sample_node"
    unfolding fresh_claim_def own by (simp add: clashing_def fresh_sample sample_db sample_attached)
  have "p \<noteq> ''.'' \<and> \<not> suffix ''/.'' p" if "p \<in> ?D" for p
    using that sf unfolding own by (auto simp: list_all_iff dest: claim_dir_no_dot)
  note q = ref_quiet [OF this]
  have d: "pairwise separate ?D" unfolding own by (rule claim_dirs_separate [OF sf])
  have "nd_cdi sample_node (claim_spec_name mem_cdi (rc_UID ?claim)) = None" by (simp add: sample_node_def)
  from PrepareResourceClaim_failure_clean [OF ref_node.driver_node_axioms sample_wf r [unfolded e(1)] sample_allocation e(2) fr this refl d q]
  have "attached_ports (nd_db w') = attached_ports sample_tables" by (simp add: sample_db)
  with r e(1) show ?thesis by blast
qed

lemma PrepareResourceClaim_parsed:
  assumes "PrepareResourceClaim bk obs claim w = (Ok pds, claim', w')" and "rc_Allocation claim = Some al"
  obtains cfgs where "parseClaimConfigs (al_Config al) = Inr cfgs"
  using assms by (auto simp: PrepareResourceClaim_def split: if_splits sum.splits)

text \<open>
  C3. Preparing a claim and then unpreparing it without an error restores the node: the
  same ports as before, none of the claim's directories, all other directories and CDI
  specs unchanged, and the claim's own CDI spec gone if its removal did not fail.
\<close>

theorem prepare_unprepare_roundtrip:
  fixes w :: "('db, 'c, 's, 'k) node"
  assumes "driver_node lib calls tables cdi cspecs" and "wf_tables (tables (nd_db w))"
    and "PrepareResourceClaim (node_backend env lib cdi) obs claim w = (Ok pds, claim', w1)"
    and "UnprepareResourceClaim (node_backend env lib cdi) pds w1 = (Ok (), w2)"
    and "rc_Allocation claim = Some al"
    and "fresh_claim (\<lambda>w. attached_ports (tables (nd_db w))) node_dir claim (own_results (al_Results al)) w"
  shows "attached_ports (tables (nd_db w2)) = attached_ports (tables (nd_db w))
    \<and> (\<forall>r \<in> set (own_results (al_Results al)). \<not> node_dir w2 (claim_dir claim r))
    \<and> (\<forall>q. (\<forall>r \<in> set (own_results (al_Results al)). unrelated (claim_dir claim r) q) \<longrightarrow> node_dir w2 q = node_dir w q)
    \<and> (\<forall>n. n \<noteq> claim_spec_name cdi (rc_UID claim) \<longrightarrow> cspecs (nd_cdi w2) n = cspecs (nd_cdi w) n)
    \<and> ((\<forall>n c. fst (cdi_RemoveSpec cdi n c) = None) \<longrightarrow> cspecs (nd_cdi w2) (claim_spec_name cdi (rc_UID claim)) = None)"
proof -
  obtain cfgs where "parseClaimConfigs (al_Config al) = Inr cfgs" by (rule PrepareResourceClaim_parsed [OF assms(3,5)])
  note wf = driver_node.prepared_wf_law [OF assms(1-3,5) this]
  from driver_node.prepare_unprepare_law [OF assms(1-3) refl refl refl wf assms(4-6)] show ?thesis by simp
qed

lemma sample_unprepared:
  "case PrepareResourceClaim sample_bk (\<lambda>_. sample_state) (sample_claim [sample_result ''br0'' ''net'']) sample_node of
     (Ok pds, c, w) \<Rightarrow> fst (UnprepareResourceClaim sample_bk pds w) = Ok () | _ \<Rightarrow> False"
  by code_simp

theorem prepare_unprepare_roundtrip_witness:
  "\<exists>pds claim' w1 w2.
     PrepareResourceClaim sample_bk (\<lambda>_. sample_state) (sample_claim [sample_result ''br0'' ''net'']) sample_node = (Ok pds, claim', w1)
     \<and> UnprepareResourceClaim sample_bk pds w1 = (Ok (), w2) \<and> attached_ports (nd_db w2) = attached_ports sample_tables"
proof -
  let ?claim = "sample_claim [sample_result ''br0'' ''net'']"
  let ?al = "\<lparr>al_Config = [sample_config [] ''7''], al_Results = [sample_result ''br0'' ''net'']\<rparr>"
  obtain pds claim' w1 where p: "PrepareResourceClaim sample_bk (\<lambda>_. sample_state) ?claim sample_node = (Ok pds, claim', w1)"
    by (rule sample_ok)
  obtain x w2 where x: "UnprepareResourceClaim sample_bk pds w1 = (x, w2)" by fastforce
  with sample_unprepared p have u: "UnprepareResourceClaim sample_bk pds w1 = (Ok (), w2)" by simp
  have fr: "fresh_claim (\<lambda>w. attached_ports (nd_db w)) node_dir ?claim (own_results (al_Results ?al)) sample_node"
    by (simp add: fresh_claim_def sample_own sample_port_name fresh_sample sample_db sample_attached)
  from prepare_unprepare_roundtrip [OF ref_node.driver_node_axioms sample_wf p u sample_allocation fr]
  have "attached_ports (nd_db w2) = attached_ports sample_tables" by (simp add: sample_db)
  with p u show ?thesis by blast
qed

text \<open>
  C37. Preparation does not panic, whatever the claim's status holds, if its UID has at least
  eight characters besides dashes, as every Kubernetes UID has: the checks at the start
  keep it from indexing an empty \<^verbatim>\<open>ReservedFor\<close>, and the name of a port is not sliced beyond
  the UID.
\<close>

theorem PrepareResourceClaim_no_panic_law:
  assumes "driver_node lib calls tables cdi cspecs" and "wf_tables (tables (nd_db w))"
    and "8 \<le> length (strings_RemoveAll (CHR ''-'') (rc_UID claim))"
  shows "fst (PrepareResourceClaim (node_backend env lib cdi) obs claim w) \<noteq> Panic m"
proof
  assume a: "fst (PrepareResourceClaim (node_backend env lib cdi) obs claim w) = Panic m"
  obtain r claim' w' where r: "PrepareResourceClaim (node_backend env lib cdi) obs claim w = (r, claim', w')" by (metis prod_cases3)
  with a have "PrepareResourceClaim (node_backend env lib cdi) obs claim w = (Panic m, claim', w')" by simp
  from driver_node.prepare_no_panic_law [OF assms this] show False .
qed

theorem PrepareResourceClaim_no_panic_law_witness:
  "fst (PrepareResourceClaim sample_bk (\<lambda>_. sample_state) (sample_claim clashing) sample_node) \<noteq> Panic ''x''"
  by (rule PrepareResourceClaim_no_panic_law [OF ref_node.driver_node_axioms sample_wf])
     (simp add: sample_claim_def strings_RemoveAll_def)

end
