(* ===== verification/ClaimStore.thy ===== *)
theory ClaimStore
  imports ApiTypes "HOL-Library.AList"
begin

text \<open>
  \<^verbatim>\<open>pkg/claimstore\<close>: the checkpoint of prepared claims. The database (bbolt) and the JSON
  codec of the stored records, whose layout is fixed by struct types outside the
  repository, are parameters. The locale \<open>bolt_store\<close> states what they document; the
  store then implements the contract \<open>claim_store\<close> that the driver uses.
\<close>

section \<open>The database library\<close>

text \<open>
  \<^verbatim>\<open>Update\<close> and \<^verbatim>\<open>View\<close> take the closure; the second argument of \<^verbatim>\<open>View\<close> is the value of
  the captured result variable when the closure is not run.
\<close>

record ('v, 'w) bbolt =
  bolt_Open :: "string \<Rightarrow> 'w \<Rightarrow> error option \<times> 'w"
  bolt_Close :: "'w \<Rightarrow> error option \<times> 'w"
  bolt_Update :: "('w \<Rightarrow> error option \<times> 'w) \<Rightarrow> 'w \<Rightarrow> error option \<times> 'w"
  bolt_View :: "('w \<Rightarrow> error option \<times> PreparedDevice list) \<Rightarrow> PreparedDevice list \<Rightarrow> 'w \<Rightarrow> error option \<times> PreparedDevice list"
  tx_Bucket :: "string \<Rightarrow> 'w \<Rightarrow> bool"
  tx_CreateBucketIfNotExists :: "string \<Rightarrow> 'w \<Rightarrow> error option \<times> 'w"
  bucket_Get :: "string \<Rightarrow> string \<Rightarrow> 'w \<Rightarrow> 'v option"
  bucket_Put :: "string \<Rightarrow> string \<Rightarrow> 'v \<Rightarrow> 'w \<Rightarrow> error option \<times> 'w"
  bucket_Delete :: "string \<Rightarrow> string \<Rightarrow> 'w \<Rightarrow> error option \<times> 'w"
  bucket_entries :: "string \<Rightarrow> 'w \<Rightarrow> (string \<times> 'v) list"

text \<open>\<^verbatim>\<open>json.Unmarshal\<close> may fill part of its target before it fails.\<close>

record 'v claim_codec =
  json_Marshal :: "PreparedDevice list \<Rightarrow> error + 'v"
  json_Unmarshal :: "'v \<Rightarrow> error option \<times> PreparedDevice list"

text \<open>The Go interface \<^verbatim>\<open>PreparedClaimStore\<close>.\<close>

record 'w PreparedClaimStore =
  cs_Get :: "string \<Rightarrow> 'w \<Rightarrow> PreparedDevice list res"
  cs_Set :: "string \<Rightarrow> PreparedDevice list \<Rightarrow> 'w \<Rightarrow> unit res \<times> 'w"
  cs_Delete :: "string \<Rightarrow> 'w \<Rightarrow> unit res \<times> 'w"
  cs_Close :: "'w \<Rightarrow> unit res \<times> 'w"

section \<open>The store\<close>

definition preparedClaimsBucket :: string where
  "preparedClaimsBucket = ''prepared_claims''"

text \<open>The closure of \<^verbatim>\<open>ForEach\<close>: it stops at the first entry that does not decode.\<close>

fun decode_entries :: "'v claim_codec \<Rightarrow> (string \<times> 'v) list \<Rightarrow> error option" where
  "decode_entries codec [] = None"
| "decode_entries codec ((k, v) # es) =
     (case json_Unmarshal codec v of
        (Some err, _) \<Rightarrow> Some (Errorf ''unmarshal claim %s: %w'' [AStr k] [err])
      | (None, _) \<Rightarrow> decode_entries codec es)"

definition restore_bucket :: "('v, 'w) bbolt \<Rightarrow> 'v claim_codec \<Rightarrow> 'w \<Rightarrow> error option \<times> 'w" where
  "restore_bucket db codec w =
     (case tx_CreateBucketIfNotExists db preparedClaimsBucket w of
        (Some err, w') \<Rightarrow> (Some err, w')
      | (None, w') \<Rightarrow> (decode_entries codec (bucket_entries db preparedClaimsBucket w'), w'))"

definition preparedClaimStore_New ::
  "(string \<Rightarrow> 12 word \<Rightarrow> 'w \<Rightarrow> error option \<times> 'w) \<Rightarrow> ('v, 'w) bbolt \<Rightarrow> 'v claim_codec \<Rightarrow> string \<Rightarrow> 'w \<Rightarrow> unit res \<times> 'w" where
  "preparedClaimStore_New mkdirAll db codec dbPath w =
     (case mkdirAll (filepath_Dir dbPath) 0x1E8 w of
        (Some err, w1) \<Rightarrow> (Err (Errorf ''create database directory: %w'' [] [err]), w1)
      | (None, w1) \<Rightarrow>
     (case bolt_Open db dbPath w1 of
        (Some err, w2) \<Rightarrow> (Err (Errorf ''open bolt database: %w'' [] [err]), w2)
      | (None, w2) \<Rightarrow>
     (case bolt_Update db (restore_bucket db codec) w2 of
        (Some err, w3) \<Rightarrow> (Err (Errorf ''create bucket: %w'' [] [err]), snd (bolt_Close db w3))
      | (None, w3) \<Rightarrow> (Ok (), w3))))"

definition preparedClaimStore_Get ::
  "('v, 'w) bbolt \<Rightarrow> 'v claim_codec \<Rightarrow> string \<Rightarrow> 'w \<Rightarrow> PreparedDevice list res" where
  "preparedClaimStore_Get db codec claimUID w =
     (case bolt_View db
             (\<lambda>tx. if \<not> tx_Bucket db preparedClaimsBucket tx then (Some (Errorf ''no bucket'' [] []), [])
                   else (case bucket_Get db preparedClaimsBucket claimUID tx of
                           Some v \<Rightarrow> json_Unmarshal codec v
                         | None \<Rightarrow> (None, []))) [] w of
        (Some err, _) \<Rightarrow> Err err
      | (None, result) \<Rightarrow> Ok result)"

definition preparedClaimStore_Set ::
  "('v, 'w) bbolt \<Rightarrow> 'v claim_codec \<Rightarrow> string \<Rightarrow> PreparedDevice list \<Rightarrow> 'w \<Rightarrow> unit res \<times> 'w" where
  "preparedClaimStore_Set db codec claimUID devices w =
     (case json_Marshal codec devices of
        Inl err \<Rightarrow> (Err (Errorf ''marshal claim %s: %w'' [AStr claimUID] [err]), w)
      | Inr data \<Rightarrow>
          (case bolt_Update db
                  (\<lambda>tx. if \<not> tx_Bucket db preparedClaimsBucket tx then (Some (Errorf ''no bucket'' [] []), tx)
                        else bucket_Put db preparedClaimsBucket claimUID data tx) w of
             (e, w') \<Rightarrow> (to_res e, w')))"

definition preparedClaimStore_Delete :: "('v, 'w) bbolt \<Rightarrow> string \<Rightarrow> 'w \<Rightarrow> unit res \<times> 'w" where
  "preparedClaimStore_Delete db claimUID w =
     (case bolt_Update db
             (\<lambda>tx. if \<not> tx_Bucket db preparedClaimsBucket tx then (Some (Errorf ''no bucket'' [] []), tx)
                   else bucket_Delete db preparedClaimsBucket claimUID tx) w of
        (e, w') \<Rightarrow> (to_res e, w'))"

definition preparedClaimStore_Close :: "('v, 'w) bbolt \<Rightarrow> 'w \<Rightarrow> unit res \<times> 'w" where
  "preparedClaimStore_Close db w = (case bolt_Close db w of (e, w') \<Rightarrow> (to_res e, w'))"

definition bolt_claim_store :: "('v, 'w) bbolt \<Rightarrow> 'v claim_codec \<Rightarrow> 'w PreparedClaimStore" where
  "bolt_claim_store db codec =
     \<lparr>cs_Get = preparedClaimStore_Get db codec, cs_Set = preparedClaimStore_Set db codec,
      cs_Delete = preparedClaimStore_Delete db, cs_Close = preparedClaimStore_Close db\<rparr>"

lemmas claimstore_defs [go_defs] =
  preparedClaimsBucket_def to_res_def restore_bucket_def preparedClaimStore_New_def
  preparedClaimStore_Get_def preparedClaimStore_Set_def preparedClaimStore_Delete_def
  preparedClaimStore_Close_def bolt_claim_store_def

section \<open>The contract of a claim store\<close>

text \<open>A map from claim UIDs to device lists, in which failed writes change nothing.\<close>

locale claim_store =
  fixes store :: "'w PreparedClaimStore" and stored :: "'w \<Rightarrow> string \<rightharpoonup> PreparedDevice list"
  assumes get_ok: "cs_Get store uid w = Ok ds \<Longrightarrow> ds = (case stored w uid of None \<Rightarrow> [] | Some x \<Rightarrow> x)"
    and get_no_panic: "cs_Get store uid w \<noteq> Panic m"
    and set_ok: "cs_Set store uid ds w = (Ok (), w') \<Longrightarrow> stored w' = (stored w)(uid \<mapsto> ds)"
    and set_err: "cs_Set store uid ds w = (Err e, w') \<Longrightarrow> stored w' = stored w"
    and set_no_panic: "fst (cs_Set store uid ds w) \<noteq> Panic m"
    and delete_ok: "cs_Delete store uid w = (Ok (), w') \<Longrightarrow> stored w' = (stored w)(uid := None)"
    and delete_err: "cs_Delete store uid w = (Err e, w') \<Longrightarrow> stored w' = stored w"
    and delete_no_panic: "fst (cs_Delete store uid w) \<noteq> Panic m"
begin

lemma get_after_set:
  assumes "cs_Set store uid ds w = (Ok (), w')" and "cs_Get store u w' = Ok r"
  shows "r = (if u = uid then ds else case stored w u of None \<Rightarrow> [] | Some x \<Rightarrow> x)"
  using get_ok [OF assms(2)] set_ok [OF assms(1)] by simp

lemma get_after_delete:
  assumes "cs_Delete store uid w = (Ok (), w')" and "cs_Get store u w' = Ok r"
  shows "r = (if u = uid then [] else case stored w u of None \<Rightarrow> [] | Some x \<Rightarrow> x)"
  using get_ok [OF assms(2)] delete_ok [OF assms(1)] by simp

lemma set_frame: "cs_Set store uid ds w = (r, w') \<Longrightarrow> u \<noteq> uid \<Longrightarrow> stored w' u = stored w u"
  using set_ok [of uid ds w w'] set_err [of uid ds w _ w'] set_no_panic [of uid ds w] by (cases r) auto

lemma delete_frame: "cs_Delete store uid w = (r, w') \<Longrightarrow> u \<noteq> uid \<Longrightarrow> stored w' u = stored w u"
  using delete_ok [of uid w w'] delete_err [of uid w _ w'] delete_no_panic [of uid w] by (cases r) auto

end

section \<open>The documented behaviour of the database\<close>

text \<open>
  bbolt: a read-write transaction commits when its closure succeeds and is rolled back
  otherwise; a read-only one returns the error of its closure. \<open>content\<close> gives the
  buckets. The last law is the round trip of \<^verbatim>\<open>encoding/json\<close> on exported fields.
\<close>

definition stored_claims ::
  "'v claim_codec \<Rightarrow> ('w \<Rightarrow> string \<rightharpoonup> (string \<rightharpoonup> 'v)) \<Rightarrow> 'w \<Rightarrow> string \<rightharpoonup> PreparedDevice list" where
  "stored_claims codec content w uid =
     (case content w preparedClaimsBucket of
        None \<Rightarrow> None | Some m \<Rightarrow> map_option (\<lambda>v. snd (json_Unmarshal codec v)) (m uid))"

locale bolt_store =
  fixes db :: "('v, 'w) bbolt" and codec :: "'v claim_codec"
    and content :: "'w \<Rightarrow> string \<rightharpoonup> (string \<rightharpoonup> 'v)"
  assumes update_ok: "bolt_Update db f w = (None, w') \<Longrightarrow> \<exists>w1. f w = (None, w1) \<and> content w' = content w1"
    and update_err: "bolt_Update db f w = (Some e, w') \<Longrightarrow> content w' = content w"
    and view_ok: "bolt_View db g d w = (None, r) \<Longrightarrow> g w = (None, r)"
    and bucket: "tx_Bucket db b w \<longleftrightarrow> content w b \<noteq> None"
    and get: "content w b = Some m \<Longrightarrow> bucket_Get db b k w = m k"
    and put: "bucket_Put db b k v w = (None, w') \<Longrightarrow> content w b = Some m \<Longrightarrow>
      content w' = (content w)(b \<mapsto> m(k \<mapsto> v))"
    and del: "bucket_Delete db b k w = (None, w') \<Longrightarrow> content w b = Some m \<Longrightarrow>
      content w' = (content w)(b \<mapsto> m(k := None))"
    and create_bucket: "tx_CreateBucketIfNotExists db b w = (None, w') \<Longrightarrow>
      content w' = (content w)(b \<mapsto> (case content w b of None \<Rightarrow> Map.empty | Some m \<Rightarrow> m))"
    and entries: "content w b = Some m \<Longrightarrow> set (bucket_entries db b w) = {(k, v). m k = Some v}"
    and open_content: "bolt_Open db p w = (o1, w') \<Longrightarrow> content w' = content w"
    and close_content: "bolt_Close db w = (o2, w') \<Longrightarrow> content w' = content w"
    and codec: "json_Marshal codec ds = Inr v \<Longrightarrow> json_Unmarshal codec v = (None, ds)"
begin

lemma stored_content: "content w' = content w \<Longrightarrow> stored_claims codec content w' = stored_claims codec content w"
  by (simp add: stored_claims_def fun_eq_iff)

lemma Get_ok:
  assumes "preparedClaimStore_Get db codec uid w = Ok ds"
  shows "ds = (case stored_claims codec content w uid of None \<Rightarrow> [] | Some x \<Rightarrow> x)"
  using assms unfolding preparedClaimStore_Get_def
  by (auto dest!: view_ok simp: bucket get stored_claims_def split: prod.splits option.splits if_splits)

lemma Set_ok:
  assumes "preparedClaimStore_Set db codec uid ds w = (Ok (), w')"
  shows "stored_claims codec content w' = (stored_claims codec content w)(uid \<mapsto> ds)"
proof -
  from assms obtain v where v: "json_Marshal codec ds = Inr v"
    and u: "bolt_Update db (\<lambda>tx. if \<not> tx_Bucket db preparedClaimsBucket tx then (Some (Errorf ''no bucket'' [] []), tx)
                        else bucket_Put db preparedClaimsBucket uid v tx) w = (None, w')"
    by (auto simp: preparedClaimStore_Set_def to_res_def split: sum.splits prod.splits option.splits)
  from update_ok [OF u] obtain w1 m where "content w preparedClaimsBucket = Some m"
    "bucket_Put db preparedClaimsBucket uid v w = (None, w1)" "content w' = content w1"
    by (auto simp: bucket split: if_splits)
  with put have "content w' = (content w)(preparedClaimsBucket \<mapsto> m(uid \<mapsto> v))"
    "content w preparedClaimsBucket = Some m" by metis+
  then show ?thesis by (auto simp: stored_claims_def fun_eq_iff codec [OF v])
qed

lemma Delete_ok:
  assumes "preparedClaimStore_Delete db uid w = (Ok (), w')"
  shows "stored_claims codec content w' = (stored_claims codec content w)(uid := None)"
proof -
  from assms have u: "bolt_Update db (\<lambda>tx. if \<not> tx_Bucket db preparedClaimsBucket tx then (Some (Errorf ''no bucket'' [] []), tx)
                        else bucket_Delete db preparedClaimsBucket uid tx) w = (None, w')"
    by (auto simp: preparedClaimStore_Delete_def to_res_def split: prod.splits option.splits)
  from update_ok [OF u] obtain w1 m where "content w preparedClaimsBucket = Some m"
    "bucket_Delete db preparedClaimsBucket uid w = (None, w1)" "content w' = content w1"
    by (auto simp: bucket split: if_splits)
  with del have "content w' = (content w)(preparedClaimsBucket \<mapsto> m(uid := None))"
    "content w preparedClaimsBucket = Some m" by metis+
  then show ?thesis by (auto simp: stored_claims_def fun_eq_iff)
qed

lemma decode_entries_None:
  "decode_entries codec es = None \<Longrightarrow> (k, v) \<in> set es \<Longrightarrow> fst (json_Unmarshal codec v) = None"
  by (induction es) (auto split: prod.splits option.splits)

lemma restored:
  assumes "bolt_Update db (restore_bucket db codec) w = (None, w')"
  obtains m where "content w' preparedClaimsBucket = Some m"
    and "m = (case content w preparedClaimsBucket of None \<Rightarrow> Map.empty | Some m \<Rightarrow> m)"
    and "\<And>k v. m k = Some v \<Longrightarrow> fst (json_Unmarshal codec v) = None"
proof -
  from update_ok [OF assms] obtain w1 w2 where "tx_CreateBucketIfNotExists db preparedClaimsBucket w = (None, w2)"
    and d: "decode_entries codec (bucket_entries db preparedClaimsBucket w2) = None" and "content w' = content w2"
    by (auto simp: restore_bucket_def split: prod.splits option.splits)
  with create_bucket have c: "content w' = (content w)(preparedClaimsBucket \<mapsto>
      (case content w preparedClaimsBucket of None \<Rightarrow> Map.empty | Some m \<Rightarrow> m))" and e: "content w2 = content w'"
    by metis+
  let ?m = "case content w preparedClaimsBucket of None \<Rightarrow> Map.empty | Some m \<Rightarrow> m"
  from c e have m: "content w2 preparedClaimsBucket = Some ?m" by simp
  show ?thesis
  proof (rule that)
    show "content w' preparedClaimsBucket = Some ?m" using c by simp
    fix k v assume "?m k = Some v"
    then have "(k, v) \<in> set (bucket_entries db preparedClaimsBucket w2)" by (simp add: entries [OF m])
    with d show "fst (json_Unmarshal codec v) = None" by (rule decode_entries_None)
  qed simp
qed

lemma Set_err: "preparedClaimStore_Set db codec uid ds w = (Err e, w') \<Longrightarrow> stored_claims codec content w' = stored_claims codec content w"
  by (auto simp: preparedClaimStore_Set_def to_res_def intro!: stored_content dest!: update_err
      split: sum.splits prod.splits option.splits)

lemma Delete_err: "preparedClaimStore_Delete db uid w = (Err e, w') \<Longrightarrow> stored_claims codec content w' = stored_claims codec content w"
  by (auto simp: preparedClaimStore_Delete_def to_res_def intro!: stored_content dest!: update_err
      split: sum.splits prod.splits option.splits)

end

sublocale bolt_store \<subseteq> store: claim_store "bolt_claim_store db codec" "stored_claims codec content"
proof unfold_locales
  show "cs_Get (bolt_claim_store db codec) uid w \<noteq> Panic m" for uid w m
    by (auto simp: bolt_claim_store_def preparedClaimStore_Get_def split: prod.splits option.splits)
  show "fst (cs_Set (bolt_claim_store db codec) uid ds w) \<noteq> Panic m" for uid ds w m
    by (auto simp: bolt_claim_store_def preparedClaimStore_Set_def to_res_def split: prod.splits option.splits sum.splits)
  show "fst (cs_Delete (bolt_claim_store db codec) uid w) \<noteq> Panic m" for uid w m
    by (auto simp: bolt_claim_store_def preparedClaimStore_Delete_def to_res_def split: prod.splits option.splits)
qed (simp_all add: bolt_claim_store_def Get_ok Set_ok Set_err Delete_ok Delete_err)

section \<open>A database in memory\<close>

record mem_bolt =
  mb_open :: bool
  mb_buckets :: "string \<rightharpoonup> (string \<times> PreparedDevice list) list"

definition mem_content :: "mem_bolt \<Rightarrow> string \<rightharpoonup> (string \<rightharpoonup> PreparedDevice list)" where
  "mem_content w b = map_option map_of (mb_buckets w b)"

definition mem_change ::
  "((string \<times> PreparedDevice list) list \<Rightarrow> (string \<times> PreparedDevice list) list) \<Rightarrow> string \<Rightarrow> mem_bolt \<Rightarrow> error option \<times> mem_bolt" where
  "mem_change f b w =
     (case mb_buckets w b of
        None \<Rightarrow> (Some (External ''bucket not found''), w)
      | Some m \<Rightarrow> (None, w\<lparr>mb_buckets := (mb_buckets w)(b \<mapsto> f m)\<rparr>))"

definition mem_bbolt :: "(PreparedDevice list, mem_bolt) bbolt" where
  "mem_bbolt =
     \<lparr>bolt_Open = (\<lambda>p w. (None, w\<lparr>mb_open := True\<rparr>)), bolt_Close = (\<lambda>w. (None, w\<lparr>mb_open := False\<rparr>)),
      bolt_Update = (\<lambda>f w. if \<not> mb_open w then (Some (External ''database not open''), w)
        else (case f w of (None, w') \<Rightarrow> (None, w') | (Some e, w') \<Rightarrow> (Some e, w))),
      bolt_View = (\<lambda>g d w. if mb_open w then g w else (Some (External ''database not open''), d)),
      tx_Bucket = (\<lambda>b w. mb_buckets w b \<noteq> None),
      tx_CreateBucketIfNotExists = (\<lambda>b w. (None, w\<lparr>mb_buckets := (mb_buckets w)(b \<mapsto>
        (case mb_buckets w b of None \<Rightarrow> [] | Some m \<Rightarrow> m))\<rparr>)),
      bucket_Get = (\<lambda>b k w. case mb_buckets w b of None \<Rightarrow> None | Some m \<Rightarrow> map_of m k),
      bucket_Put = (\<lambda>b k v. mem_change (AList.update k v) b),
      bucket_Delete = (\<lambda>b k. mem_change (AList.delete k) b),
      bucket_entries = (\<lambda>b w. case mb_buckets w b of None \<Rightarrow> [] | Some m \<Rightarrow> AList.clearjunk m)\<rparr>"

definition mem_codec :: "PreparedDevice list claim_codec" where
  "mem_codec = \<lparr>json_Marshal = Inr, json_Unmarshal = (\<lambda>v. (None, v))\<rparr>"

lemma set_clearjunk: "set (AList.clearjunk m) = {(k, v). map_of m k = Some v}"
  using map_of_eq_Some_iff [of "AList.clearjunk m"] by (auto simp: distinct_clearjunk map_of_clearjunk)

interpretation mem_db: bolt_store mem_bbolt mem_codec mem_content
proof unfold_locales
  show "mem_content w' = (mem_content w)(b \<mapsto> m(k \<mapsto> v))"
    if "bucket_Put mem_bbolt b k v w = (None, w')" "mem_content w b = Some m" for b k v w w' m
    using that by (auto simp: mem_bbolt_def mem_change_def mem_content_def update_conv' fun_eq_iff split: option.splits)
  show "mem_content w' = (mem_content w)(b \<mapsto> m(k := None))"
    if "bucket_Delete mem_bbolt b k w = (None, w')" "mem_content w b = Some m" for b k w w' m
    using that by (auto simp: mem_bbolt_def mem_change_def mem_content_def delete_conv' fun_eq_iff split: option.splits)
qed (auto simp: mem_bbolt_def mem_codec_def mem_content_def fun_eq_iff set_clearjunk
    split: if_splits prod.splits option.splits)

section \<open>Properties\<close>

text \<open>
  After a successful write of a claim's devices, reading any claim gives the written
  devices for that claim and the old ones for every other; a failed write changes nothing.
\<close>

theorem Get_after_Set:
  assumes "bolt_store db codec content"
    and "preparedClaimStore_Set db codec uid ds w = (r, w')" and "preparedClaimStore_Get db codec u w' = Ok got"
  shows "got = (if u = uid \<and> r = Ok () then ds
                else case stored_claims codec content w u of None \<Rightarrow> [] | Some x \<Rightarrow> x)"
proof -
  note get = bolt_store.Get_ok [OF assms(1,3)]
  show ?thesis
  proof (cases r)
    case (Ok _)
    with get bolt_store.Set_ok [OF assms(1)] assms(2) show ?thesis by simp
  next
    case (Err e)
    with get bolt_store.Set_err [OF assms(1)] assms(2) show ?thesis by simp
  next
    case (Panic m)
    with assms(2) show ?thesis
      by (simp add: preparedClaimStore_Set_def to_res_def split: sum.splits prod.splits option.splits)
  qed
qed

definition empty_bolt :: mem_bolt where
  "empty_bolt = \<lparr>mb_open = True, mb_buckets = [preparedClaimsBucket \<mapsto> []]\<rparr>"

theorem Get_after_Set_witness:
  "preparedClaimStore_Get mem_bbolt mem_codec ''u2''
     (snd (preparedClaimStore_Set mem_bbolt mem_codec ''u1'' [] empty_bolt))
   = Ok (case stored_claims mem_codec mem_content empty_bolt ''u2'' of None \<Rightarrow> [] | Some x \<Rightarrow> x)"
proof -
  let ?w = "snd (preparedClaimStore_Set mem_bbolt mem_codec ''u1'' [] empty_bolt)"
  have "preparedClaimStore_Set mem_bbolt mem_codec ''u1'' [] empty_bolt = (Ok (), ?w)"
    by (simp add: go_defs mem_bbolt_def mem_codec_def mem_change_def empty_bolt_def)
  moreover have "preparedClaimStore_Get mem_bbolt mem_codec ''u2'' ?w = Ok []"
    by (simp add: go_defs mem_bbolt_def mem_codec_def mem_change_def empty_bolt_def)
  ultimately show ?thesis using Get_after_Set [OF mem_db.bolt_store_axioms] by fastforce
qed

text \<open>
  Opening the store again after a restart gives the claims that the database held, and
  each of them decodes: an entry that does not decode makes \<^verbatim>\<open>New\<close> fail.
\<close>

theorem New_restores:
  assumes "bolt_store db codec content" and "\<And>p m w. content (snd (mkdirAll p m w)) = content w"
    and "preparedClaimStore_New mkdirAll db codec dbPath w = (Ok (), w')"
  shows "stored_claims codec content w' = stored_claims codec content w
    \<and> (\<exists>m. content w' preparedClaimsBucket = Some m \<and> (\<forall>k v. m k = Some v \<longrightarrow> fst (json_Unmarshal codec v) = None))"
proof -
  obtain e1 w1 where 1: "mkdirAll (filepath_Dir dbPath) 0x1E8 w = (e1, w1)" by fastforce
  obtain e2 w2 where 2: "bolt_Open db dbPath w1 = (e2, w2)" by fastforce
  from assms(3) 1 2 have u: "bolt_Update db (restore_bucket db codec) w2 = (None, w')"
    by (auto simp: preparedClaimStore_New_def split: prod.splits option.splits)
  have c: "content w2 = content w"
    using assms(2) [of "filepath_Dir dbPath" "0x1E8" w] 1 bolt_store.open_content [OF assms(1) 2] by simp
  from bolt_store.restored [OF assms(1) u] obtain m where "content w' preparedClaimsBucket = Some m"
    and "m = (case content w preparedClaimsBucket of None \<Rightarrow> Map.empty | Some m \<Rightarrow> m)"
    and "\<And>k v. m k = Some v \<Longrightarrow> fst (json_Unmarshal codec v) = None" unfolding c by metis
  then show ?thesis by (auto simp: stored_claims_def fun_eq_iff split: option.splits)
qed

definition closed_bolt :: mem_bolt where
  "closed_bolt = \<lparr>mb_open = False, mb_buckets = [preparedClaimsBucket \<mapsto> [(''u1'', [])]]\<rparr>"

theorem New_restores_witness:
  "stored_claims mem_codec mem_content
     (snd (preparedClaimStore_New (\<lambda>p m w. (None, w)) mem_bbolt mem_codec ''/var/lib/claims.db'' closed_bolt))
   = stored_claims mem_codec mem_content closed_bolt"
proof -
  have "preparedClaimStore_New (\<lambda>p m w. (None, w)) mem_bbolt mem_codec ''/var/lib/claims.db'' closed_bolt
    = (Ok (), snd (preparedClaimStore_New (\<lambda>p m w. (None, w)) mem_bbolt mem_codec ''/var/lib/claims.db'' closed_bolt))"
    by (simp add: preparedClaimStore_New_def restore_bucket_def mem_bbolt_def mem_codec_def closed_bolt_def)
  from New_restores [OF mem_db.bolt_store_axioms _ this] show ?thesis by simp
qed

end
