(* ===== verification/Driver.thy ===== *)
theory Driver
  imports Node ClaimStore
begin

text \<open>
  \<^verbatim>\<open>pkg/driver\<close>: the kubelet plugin. \<^verbatim>\<open>server.go\<close> prepares and unprepares the claims of a pod
  with the checkpoint store around the device state, and writes the status of a claim;
  \<^verbatim>\<open>driver.go\<close> starts, publishes and stops. The kubelet helper, the API client and the
  retry helper \<^verbatim>\<open>wait.ExponentialBackoffWithContext\<close> are parameters.
\<close>

section \<open>Interfaces\<close>

text \<open>The Go interface \<^verbatim>\<open>DeviceStateIface\<close>, over any state; \<open>ds_Prepare\<close> also gives the claim that it changed in place.\<close>

record 'w DeviceStateIface =
  ds_Prepare :: "ResourceClaim \<Rightarrow> 'w \<Rightarrow> PreparedDevice list res \<times> ResourceClaim \<times> 'w"
  ds_Unprepare :: "PreparedDevice list \<Rightarrow> 'w \<Rightarrow> unit res \<times> 'w"

text \<open>The two calls of the API client, by namespace and name.\<close>

record 'w kube_client =
  api_UpdateStatus :: "string \<Rightarrow> ResourceClaim \<Rightarrow> 'w \<Rightarrow> error option \<times> 'w"
  api_Get :: "string \<Rightarrow> string \<Rightarrow> 'w \<Rightarrow> (error + ResourceClaim) \<times> 'w"

text \<open>
  A condition of the retry helper gives \<open>(done, err)\<close>; its state is the captured \<^verbatim>\<open>claim\<close>
  variable and the world.
\<close>

type_synonym 'w condition = "ResourceClaim \<times> 'w \<Rightarrow> (bool \<times> error option) \<times> (ResourceClaim \<times> 'w)"

record 'w Driver =
  drv_deviceState :: "'w DeviceStateIface"
  drv_claimStore :: "'w PreparedClaimStore"
  drv_client :: "'w kube_client"
  drv_backoff :: "'w condition \<Rightarrow> ResourceClaim \<times> 'w \<Rightarrow> error option \<times> (ResourceClaim \<times> 'w)"

record PrepareResult =
  pr_Devices :: "KubeletDevice list"
  pr_Err :: "error option"

section \<open>Status update\<close>

definition filterDevicesByDriver :: "AllocatedDeviceStatus list \<Rightarrow> string \<Rightarrow> AllocatedDeviceStatus list" where
  "filterDevicesByDriver devices driver = filter (\<lambda>d. ads_Driver d = driver) devices"

definition mergeDeviceStatus ::
  "AllocatedDeviceStatus list \<Rightarrow> AllocatedDeviceStatus list \<Rightarrow> string \<Rightarrow> AllocatedDeviceStatus list" where
  "mergeDeviceStatus target owned driver = filter (\<lambda>d. ads_Driver d \<noteq> driver) target @ owned"

definition isPermanentError :: "error \<Rightarrow> bool" where
  "isPermanentError err \<longleftrightarrow>
     errors_Is err (ApiStatus NotFound) \<or> errors_Is err (ApiStatus Forbidden) \<or>
     errors_Is err (ApiStatus Invalid) \<or> errors_Is err (ApiStatus Unauthorized)"

text \<open>The closure handed to the retry helper.\<close>

definition update_attempt ::
  "'w kube_client \<Rightarrow> AllocatedDeviceStatus list \<Rightarrow> string \<Rightarrow> 'w condition" where
  "update_attempt client ownedDevices originalUID s =
     (case s of (claim, w) \<Rightarrow>
       (case api_UpdateStatus client (rc_Namespace claim) claim w of
          (None, w1) \<Rightarrow> ((True, None), (claim, w1))
        | (Some updateErr, w1) \<Rightarrow>
            if errors_Is updateErr (ApiStatus Conflict) then
              (case api_Get client (rc_Namespace claim) (rc_Name claim) w1 of
                 (Inl fetchErr, w2) \<Rightarrow>
                   if isPermanentError fetchErr then ((False, Some fetchErr), (claim, w2))
                   else ((False, None), (claim, w2))
               | (Inr freshClaim, w2) \<Rightarrow>
                   if rc_UID freshClaim \<noteq> originalUID then
                     ((False, Some (Errorf ''claim %s/%s was replaced (UID changed from %s to %s): not updating status of replacement''
                         [AStr (rc_Namespace claim), AStr (rc_Name claim), AStr originalUID, AStr (rc_UID freshClaim)] [])),
                      (claim, w2))
                   else
                     ((False, None),
                      (freshClaim\<lparr>rc_Devices := mergeDeviceStatus (rc_Devices freshClaim) ownedDevices DriverName\<rparr>, w2)))
            else if isPermanentError updateErr then ((False, Some updateErr), (claim, w1))
            else ((False, None), (claim, w1))))"

text \<open>The error of the retry loop is only logged.\<close>

definition driver_updateClaimStatus :: "'w Driver \<Rightarrow> ResourceClaim \<Rightarrow> 'w \<Rightarrow> 'w" where
  "driver_updateClaimStatus d claim w =
     (let ownedDevices = filterDevicesByDriver (rc_Devices claim) DriverName;
          originalUID = rc_UID claim
      in snd (snd (drv_backoff d (update_attempt (drv_client d) ownedDevices originalUID) (claim, w))))"

section \<open>Prepare and unprepare\<close>

definition preparedDevicesToResult :: "PreparedDevice list \<Rightarrow> PrepareResult" where
  "preparedDevicesToResult pds = \<lparr>pr_Devices = map pd_Device pds, pr_Err = None\<rparr>"

definition failed_result :: "error \<Rightarrow> PrepareResult" where
  "failed_result err = \<lparr>pr_Devices = [], pr_Err = Some err\<rparr>"

fun prepare_claims ::
  "'w Driver \<Rightarrow> (string \<rightharpoonup> PrepareResult) \<Rightarrow> ResourceClaim list \<Rightarrow> 'w
   \<Rightarrow> ((string \<rightharpoonup> PrepareResult) \<times> error option) res \<times> 'w" where
  "prepare_claims d result [] w = (Ok (result, None), w)"
| "prepare_claims d result (claim # claims) w =
     (case cs_Get (drv_claimStore d) (rc_UID claim) w of
        Panic m \<Rightarrow> (Panic m, w)
      | Err err \<Rightarrow> (Ok (Map.empty, Some (Errorf ''failed to access store: %w'' [] [err])), w)
      | Ok cached \<Rightarrow>
          if cached \<noteq> [] then
            prepare_claims d (result(rc_UID claim \<mapsto> preparedDevicesToResult cached)) claims w
          else
            (case ds_Prepare (drv_deviceState d) claim w of
               (Panic m, _, w1) \<Rightarrow> (Panic m, w1)
             | (Err err, _, w1) \<Rightarrow> (Ok (result(rc_UID claim \<mapsto> failed_result err), Some err), w1)
             | (Ok preparedDevices, claim1, w1) \<Rightarrow>
                 (case cs_Set (drv_claimStore d) (rc_UID claim) preparedDevices w1 of
                    (Panic m, w2) \<Rightarrow> (Panic m, w2)
                  | (Err err, w2) \<Rightarrow>
                      (case ds_Unprepare (drv_deviceState d) preparedDevices w2 of
                         (Panic m, w3) \<Rightarrow> (Panic m, w3)
                       | (Err rbErr, w3) \<Rightarrow>
                           (let err' = Errorf ''%w; rollback: %w'' [] [err, rbErr]
                            in (Ok (result(rc_UID claim \<mapsto> failed_result err'), Some err'), w3))
                       | (Ok _, w3) \<Rightarrow> (Ok (result(rc_UID claim \<mapsto> failed_result err), Some err), w3))
                  | (Ok _, w2) \<Rightarrow>
                      prepare_claims d (result(rc_UID claim \<mapsto> preparedDevicesToResult preparedDevices)) claims
                        (driver_updateClaimStatus d claim1 w2))))"

definition PrepareResourceClaims ::
  "'w Driver \<Rightarrow> ResourceClaim list \<Rightarrow> 'w \<Rightarrow> ((string \<rightharpoonup> PrepareResult) \<times> error option) res \<times> 'w" where
  "PrepareResourceClaims d claims w = prepare_claims d Map.empty claims w"

text \<open>The values of the result map are \<open>error\<close>s, \<open>None\<close> for \<open>nil\<close>.\<close>

fun unprepare_claims ::
  "'w Driver \<Rightarrow> (string \<rightharpoonup> error option) \<Rightarrow> NamespacedObject list \<Rightarrow> 'w
   \<Rightarrow> ((string \<rightharpoonup> error option) \<times> error option) res \<times> 'w" where
  "unprepare_claims d result [] w = (Ok (result, None), w)"
| "unprepare_claims d result (claim # claims) w =
     (case cs_Get (drv_claimStore d) (no_UID claim) w of
        Panic m \<Rightarrow> (Panic m, w)
      | Err err \<Rightarrow> (Ok (Map.empty, Some (Errorf ''failed to access store: %w'' [] [err])), w)
      | Ok pd \<Rightarrow>
          if pd = [] then unprepare_claims d (result(no_UID claim \<mapsto> None)) claims w
          else
            (case ds_Unprepare (drv_deviceState d) pd w of
               (Panic m, w1) \<Rightarrow> (Panic m, w1)
             | (Err err, w1) \<Rightarrow>
                 unprepare_claims d (result(no_UID claim \<mapsto>
                   Some (Errorf ''unprepare claim %s: %w'' [AStr (no_UID claim)] [err]))) claims w1
             | (Ok _, w1) \<Rightarrow>
                 (case cs_Delete (drv_claimStore d) (no_UID claim) w1 of
                    (Panic m, w2) \<Rightarrow> (Panic m, w2)
                  | (Err err, w2) \<Rightarrow> (Ok (Map.empty, Some (Errorf ''failed to remove element from store: %w'' [] [err])), w2)
                  | (Ok _, w2) \<Rightarrow> unprepare_claims d (result(no_UID claim \<mapsto> None)) claims w2)))"

definition UnprepareResourceClaims ::
  "'w Driver \<Rightarrow> NamespacedObject list \<Rightarrow> 'w \<Rightarrow> ((string \<rightharpoonup> error option) \<times> error option) res \<times> 'w" where
  "UnprepareResourceClaims d claims w = unprepare_claims d Map.empty claims w"

section \<open>Start, publish, stop\<close>

text \<open>
  \<open>start\<close> and \<open>stop\<close> are \<^verbatim>\<open>kubeletplugin.Start\<close> and \<^verbatim>\<open>Helper.Stop\<close>; the options only carry
  the configuration. The second component tells whether the republish callback got set.
\<close>

definition Driver_New ::
  "(string \<Rightarrow> 12 word \<Rightarrow> 'w \<Rightarrow> error option \<times> 'w) \<Rightarrow> ('v, 'w) bbolt \<Rightarrow> 'v claim_codec \<Rightarrow> ('w \<Rightarrow> error option \<times> 'w)
   \<Rightarrow> string \<Rightarrow> DeviceState \<Rightarrow> 'w \<Rightarrow> unit res \<times> DeviceState \<times> 'w" where
  "Driver_New mkdirAll db codec start dbPath ds w =
     (case preparedClaimStore_New mkdirAll db codec dbPath w of
        (Panic m, w1) \<Rightarrow> (Panic m, ds, w1)
      | (Err err, w1) \<Rightarrow> (Err (Errorf ''failed to create PreparedClaimStore: %w'' [] [err]), ds, w1)
      | (Ok _, w1) \<Rightarrow>
          (case start w1 of
             (Some err, w2) \<Rightarrow>
               (Err (Errorf ''start kubelet plugin: %w'' [] [err]), ds, snd (preparedClaimStore_Close db w2))
           | (None, w2) \<Rightarrow> (Ok (), SetRepublishCallback True ds, w2)))"

text \<open>\<open>order\<close> is the order in which the range over the map runs.\<close>

definition Driver_PublishResources ::
  "((string \<rightharpoonup> Device list) \<Rightarrow> 'w \<Rightarrow> error option \<times> 'w) \<Rightarrow> (AllocatableDevices \<Rightarrow> string list) \<Rightarrow> string
   \<Rightarrow> DeviceState \<Rightarrow> 'w \<Rightarrow> error option \<times> 'w" where
  "Driver_PublishResources publish order nodeName ds w =
     (let allocatable = GetAllocatableDevices ds;
          devices = map (\<lambda>k. ad_Device (the (allocatable k))) (order allocatable)
      in publish [nodeName \<mapsto> devices] w)"

definition Driver_Stop :: "('w \<Rightarrow> 'w) \<Rightarrow> 'w Driver \<Rightarrow> 'w \<Rightarrow> 'w" where
  "Driver_Stop stop d w = snd (cs_Close (drv_claimStore d) (stop w))"

lemmas driver_defs [go_defs] =
  filterDevicesByDriver_def mergeDeviceStatus_def isPermanentError_def update_attempt_def driver_updateClaimStatus_def
  preparedDevicesToResult_def failed_result_def PrepareResourceClaims_def UnprepareResourceClaims_def

section \<open>The status update against any API server\<close>

text \<open>
  What the retry helper documents: it runs the condition until it is done or fails, at
  most \<^verbatim>\<open>Steps\<close> times; it stops early when the context ends. \<open>attempts n\<close> is such a run
  with at most \<open>n\<close> rounds.
\<close>

fun attempts :: "nat \<Rightarrow> 'w condition \<Rightarrow> ResourceClaim \<times> 'w \<Rightarrow> error option \<times> (ResourceClaim \<times> 'w)" where
  "attempts 0 f s = (Some (External ''timed out waiting for the condition''), s)"
| "attempts (Suc n) f s =
     (case f s of
        ((_, Some err), s') \<Rightarrow> (Some err, s')
      | ((True, None), s') \<Rightarrow> (None, s')
      | ((False, None), s') \<Rightarrow> attempts n f s')"

locale backoff_law =
  fixes backoff :: "'w condition \<Rightarrow> ResourceClaim \<times> 'w \<Rightarrow> error option \<times> (ResourceClaim \<times> 'w)"
  assumes bounded: "\<exists>n \<le> BackoffSteps. snd (backoff f s) = snd (attempts n f s)"
begin

text \<open>What every round keeps, the whole retry keeps.\<close>

lemma backoff_invariant:
  assumes "P s" and "\<And>s. P s \<Longrightarrow> P (snd (f s))"
  shows "P (snd (backoff f s))"
proof -
  have "P (snd (attempts n f s))" if "P s" for n s
    using that
  proof (induction n arbitrary: s)
    case (Suc n)
    from assms(2) [OF Suc.prems] Suc.IH show ?case by (auto split: prod.splits option.splits bool.splits)
  qed simp
  with bounded [of f s] assms(1) show ?thesis by metis
qed

end

interpretation plain_backoff: backoff_law "attempts BackoffSteps"
  by unfold_locales auto

text \<open>
  An API server that answers in any way, as a function of what happened so far, and
  records the requests.
\<close>

datatype api_event = Updated ResourceClaim | Fetched ResourceClaim | FetchFailed

definition recording_client ::
  "(api_event list \<Rightarrow> error option) \<Rightarrow> (api_event list \<Rightarrow> error + ResourceClaim) \<Rightarrow> api_event list kube_client" where
  "recording_client upd get =
     \<lparr>api_UpdateStatus = (\<lambda>ns c log. (upd log, log @ [Updated c])),
      api_Get = (\<lambda>ns name log. (get log, log @ [case get log of Inl _ \<Rightarrow> FetchFailed | Inr c \<Rightarrow> Fetched c]))\<rparr>"

definition foreign_devices :: "ResourceClaim \<Rightarrow> AllocatedDeviceStatus list" where
  "foreign_devices c = filter (\<lambda>d. ads_Driver d \<noteq> DriverName) (rc_Devices c)"

text \<open>
  Every update is for the claim with the given UID, carries the driver's own entries, and
  carries the other drivers' entries of the claim as last seen (\<open>seen\<close>).
\<close>

fun updates_ok :: "string \<Rightarrow> AllocatedDeviceStatus list \<Rightarrow> AllocatedDeviceStatus list \<Rightarrow> api_event list \<Rightarrow> bool" where
  "updates_ok uid own seen [] = True"
| "updates_ok uid own seen (Updated c # es) =
     (rc_UID c = uid \<and> filterDevicesByDriver (rc_Devices c) DriverName = own \<and> foreign_devices c = seen \<and> updates_ok uid own seen es)"
| "updates_ok uid own seen (Fetched c # es) = updates_ok uid own (foreign_devices c) es"
| "updates_ok uid own seen (FetchFailed # es) = updates_ok uid own seen es"

fun count_updates :: "api_event list \<Rightarrow> nat" where
  "count_updates [] = 0"
| "count_updates (Updated c # es) = Suc (count_updates es)"
| "count_updates (Fetched c # es) = count_updates es"
| "count_updates (FetchFailed # es) = count_updates es"

lemma merge_devices:
  assumes "own = filterDevicesByDriver ds DriverName"
  shows "filterDevicesByDriver (mergeDeviceStatus t own DriverName) DriverName = own"
    and "foreign_devices (c\<lparr>rc_Devices := mergeDeviceStatus (rc_Devices c) own DriverName\<rparr>) = foreign_devices c"
  using assms by (simp_all add: filterDevicesByDriver_def mergeDeviceStatus_def foreign_devices_def)

lemma recorded_attempt:
  "update_attempt (recording_client upd get) own uid (c, log) =
     (case upd log of
        None \<Rightarrow> ((True, None), (c, log @ [Updated c]))
      | Some ue \<Rightarrow>
          if errors_Is ue (ApiStatus Conflict) then
            (case get (log @ [Updated c]) of
               Inl fe \<Rightarrow> ((False, if isPermanentError fe then Some fe else None), (c, log @ [Updated c, FetchFailed]))
             | Inr fc \<Rightarrow>
                 if rc_UID fc \<noteq> uid then
                   ((False, Some (Errorf ''claim %s/%s was replaced (UID changed from %s to %s): not updating status of replacement''
                       [AStr (rc_Namespace c), AStr (rc_Name c), AStr uid, AStr (rc_UID fc)] [])), (c, log @ [Updated c, Fetched fc]))
                 else ((False, None), (fc\<lparr>rc_Devices := mergeDeviceStatus (rc_Devices fc) own DriverName\<rparr>, log @ [Updated c, Fetched fc])))
          else ((False, if isPermanentError ue then Some ue else None), (c, log @ [Updated c])))"
  by (auto simp: update_attempt_def recording_client_def split: option.split sum.split)

lemma attempts_recorded:
  assumes "own = filterDevicesByDriver ds DriverName"
    and "rc_UID c = uid" and "filterDevicesByDriver (rc_Devices c) DriverName = own"
  shows "\<exists>new. snd (snd (attempts n (update_attempt (recording_client upd get) own uid) (c, log))) = log @ new
    \<and> count_updates new \<le> n \<and> updates_ok uid own (foreign_devices c) new"
  using assms(2,3)
proof (induction n arbitrary: c log)
  case (Suc n)
  let ?f = "update_attempt (recording_client upd get) own uid"
  have here: "updates_ok uid own (foreign_devices c) (Updated c # es) \<longleftrightarrow> updates_ok uid own (foreign_devices c) es" for es
    using Suc.prems by simp
  have retry: "\<exists>new. snd (snd (attempts n ?f (c', log @ pre))) = log @ new
      \<and> count_updates new \<le> Suc n \<and> updates_ok uid own (foreign_devices c) new"
    if "rc_UID c' = uid" "filterDevicesByDriver (rc_Devices c') DriverName = own"
      "\<And>es. updates_ok uid own (foreign_devices c) (pre @ es) = updates_ok uid own (foreign_devices c') es"
      "\<And>es. count_updates (pre @ es) = Suc (count_updates es)" for c' pre
    using Suc.IH [OF that(1,2), of "log @ pre"] that(3,4) by (metis Suc_le_mono append_assoc)
  obtain b e c' l where f: "?f (c, log) = ((b, e), (c', l))" by (metis surj_pair)
  show ?case
  proof (cases "upd log")
    case None
    then show ?thesis using here [of "[]"] by (simp add: recorded_attempt)
  next
    case (Some ue)
    show ?thesis
    proof (cases "errors_Is ue (ApiStatus Conflict)")
      case False
      then show ?thesis
        using Some here [of "[]"] retry [OF Suc.prems, of "[Updated c]"] here
        by (simp add: recorded_attempt)
    next
      case True
      show ?thesis
      proof (cases "get (log @ [Updated c])")
        case (Inl fe)
        then show ?thesis
          using Some True here [of "[FetchFailed]"] retry [OF Suc.prems, of "[Updated c, FetchFailed]"] here
          by (simp add: recorded_attempt)
      next
        case (Inr fc)
        let ?m = "fc\<lparr>rc_Devices := mergeDeviceStatus (rc_Devices fc) own DriverName\<rparr>"
        show ?thesis
        proof (cases "rc_UID fc = uid")
          case False
          then show ?thesis using Some True Inr here [of "[Fetched fc]"] by (simp add: recorded_attempt)
        next
          case u: True
          have "\<exists>new. snd (snd (attempts n ?f (?m, log @ [Updated c, Fetched fc]))) = log @ new
              \<and> count_updates new \<le> Suc n \<and> updates_ok uid own (foreign_devices c) new"
            by (rule retry) (use u Suc.prems merge_devices [OF assms(1)] in simp_all)
          then show ?thesis using Some True Inr u by (simp add: recorded_attempt)
        qed
      qed
    qed
  qed
qed simp

text \<open>
  C24. The status update is safe against any behaviour of the API server: whatever the
  server answers, at most five updates are sent; each is for the claim with the UID that
  was prepared, never for a replacement of the same name; each carries exactly the
  driver's own entries and the entries of other drivers as the server last showed them.
\<close>

theorem updateClaimStatus_safe:
  assumes "backoff_law (drv_backoff d)" and "drv_client d = recording_client upd get"
  shows "count_updates (driver_updateClaimStatus d claim []) \<le> 5
    \<and> updates_ok (rc_UID claim) (filterDevicesByDriver (rc_Devices claim) DriverName) (foreign_devices claim)
        (driver_updateClaimStatus d claim [])"
proof -
  let ?own = "filterDevicesByDriver (rc_Devices claim) DriverName"
  let ?f = "update_attempt (drv_client d) ?own (rc_UID claim)"
  from backoff_law.bounded [OF assms(1), of ?f "(claim, [])"] obtain n where n: "n \<le> BackoffSteps"
    and e: "snd (drv_backoff d ?f (claim, [])) = snd (attempts n ?f (claim, []))" by blast
  from attempts_recorded [OF refl refl refl, where c = claim and n = n and upd = upd and get = get and log = "[]"] e n
  show ?thesis by (auto simp: driver_updateClaimStatus_def Let_def assms(2) BackoffSteps_def)
qed

definition idle_driver :: "'w kube_client \<Rightarrow> 'w Driver" where
  "idle_driver client =
     \<lparr>drv_deviceState = \<lparr>ds_Prepare = (\<lambda>c w. (Err (External ''idle''), c, w)), ds_Unprepare = (\<lambda>pds w. (Ok (), w))\<rparr>,
      drv_claimStore = \<lparr>cs_Get = (\<lambda>u w. Ok []), cs_Set = (\<lambda>u ds w. (Ok (), w)), cs_Delete = (\<lambda>u w. (Ok (), w)), cs_Close = (\<lambda>w. (Ok (), w))\<rparr>,
      drv_client = client, drv_backoff = attempts BackoffSteps\<rparr>"

definition conflict_once :: "api_event list \<Rightarrow> error option" where
  "conflict_once log = (if length log = 0 then Some (ApiStatus Conflict) else None)"

definition foreign_entry :: AllocatedDeviceStatus where
  "foreign_entry = \<lparr>ads_Driver = ''other'', ads_Pool = ''p'', ads_Device = ''d'', ads_ShareID = None, ads_Data = None\<rparr>"

definition refreshed_claim :: ResourceClaim where
  "refreshed_claim = (sample_claim [])\<lparr>rc_Devices := [foreign_entry]\<rparr>"

theorem updateClaimStatus_safe_witness:
  "driver_updateClaimStatus (idle_driver (recording_client conflict_once (\<lambda>_. Inr refreshed_claim))) (sample_claim []) []
     = [Updated (sample_claim []), Fetched refreshed_claim, Updated refreshed_claim]
   \<and> updates_ok (rc_UID (sample_claim [])) [] []
       [Updated (sample_claim []), Fetched refreshed_claim, Updated refreshed_claim]"
proof -
  let ?d = "idle_driver (recording_client conflict_once (\<lambda>_. Inr refreshed_claim))"
  have "backoff_law (drv_backoff ?d)" by (simp add: idle_driver_def plain_backoff.backoff_law_axioms)
  moreover have "drv_client ?d = recording_client conflict_once (\<lambda>_. Inr refreshed_claim)" by (simp add: idle_driver_def)
  ultimately have s: "updates_ok (rc_UID (sample_claim [])) (filterDevicesByDriver (rc_Devices (sample_claim [])) DriverName)
      (foreign_devices (sample_claim [])) (driver_updateClaimStatus ?d (sample_claim []) [])"
    using updateClaimStatus_safe by blast
  have r: "rc_Devices (sample_claim []) = []" "refreshed_claim\<lparr>rc_Devices := rc_Devices refreshed_claim\<rparr> = refreshed_claim"
    by (simp_all add: sample_claim_def)
  have f: "filter (\<lambda>d. ads_Driver d \<noteq> DriverName) (rc_Devices refreshed_claim) = rc_Devices refreshed_claim"
    by (simp add: refreshed_claim_def foreign_entry_def DriverName_def)
  have u: "rc_UID refreshed_claim = rc_UID (sample_claim [])" by (simp add: refreshed_claim_def)
  have run: "driver_updateClaimStatus ?d (sample_claim []) [] = [Updated (sample_claim []), Fetched refreshed_claim, Updated refreshed_claim]"
    by (simp add: driver_updateClaimStatus_def idle_driver_def BackoffSteps_def eval_nat_numeral recorded_attempt
        conflict_once_def filterDevicesByDriver_def mergeDeviceStatus_def r f u)
  from s show ?thesis unfolding run by (simp add: filterDevicesByDriver_def foreign_devices_def r)
qed

section \<open>The checkpoint\<close>

text \<open>
  What the handlers rely on: the store keeps its contract, and neither the device state nor
  the status update touches it.
\<close>

locale driver_laws =
  st: claim_store "drv_claimStore d" stored
  for d :: "'w Driver" and stored :: "'w \<Rightarrow> string \<rightharpoonup> PreparedDevice list" +
  assumes prepare_frame: "ds_Prepare (drv_deviceState d) c w = (r, c', w') \<Longrightarrow> stored w' = stored w"
    and prepare_nonempty: "ds_Prepare (drv_deviceState d) c w = (Ok pds, c', w') \<Longrightarrow> pds \<noteq> []"
    and unprepare_frame: "ds_Unprepare (drv_deviceState d) pds w = (r', w') \<Longrightarrow> stored w' = stored w"
    and status_frame: "stored (driver_updateClaimStatus d c w) = stored w"
begin

text \<open>A claim is checkpointed when the store has a non-empty list for it.\<close>

definition checkpointed :: "'w \<Rightarrow> string \<Rightarrow> PreparedDevice list \<Rightarrow> bool" where
  "checkpointed w uid pds \<longleftrightarrow> stored w uid = Some pds \<and> pds \<noteq> []"

lemma get_cached: "cs_Get (drv_claimStore d) uid w = Ok pds \<Longrightarrow> pds \<noteq> [] \<Longrightarrow> checkpointed w uid pds"
  using st.get_ok [of uid w pds] by (auto simp: checkpointed_def split: option.splits)

lemma get_fresh: "cs_Get (drv_claimStore d) uid w = Ok [] \<Longrightarrow> \<not> checkpointed w uid pds"
  using st.get_ok [of uid w "[]"] by (auto simp: checkpointed_def split: option.splits)

lemma checkpointed_cong: "stored w' = stored w \<Longrightarrow> checkpointed w' = checkpointed w"
  by (simp add: checkpointed_def fun_eq_iff)

text \<open>One round of the prepare loop, by what it did to the store.\<close>

lemma prepare_claims_step:
  assumes "prepare_claims d result (claim # claims) w = (out, w')"
  obtains (stop) "\<And>res. out \<noteq> Ok (res, None)" "stored w' = stored w"
  | (cached) pds where "checkpointed w (rc_UID claim) pds"
      "prepare_claims d (result(rc_UID claim \<mapsto> preparedDevicesToResult pds)) claims w = (out, w')"
  | (fresh) pds w1 where "\<And>x. \<not> checkpointed w (rc_UID claim) x" "pds \<noteq> []" "stored w1 = (stored w)(rc_UID claim \<mapsto> pds)"
      "prepare_claims d (result(rc_UID claim \<mapsto> preparedDevicesToResult pds)) claims w1 = (out, w')"
proof (cases "cs_Get (drv_claimStore d) (rc_UID claim) w")
  case (Panic m)
  with assms show ?thesis by (intro stop) auto
next
  case (Err e)
  with assms show ?thesis by (intro stop) auto
next
  case (Ok pds)
  show ?thesis
  proof (cases "pds = []")
    case False
    with Ok assms show ?thesis by (intro cached [OF get_cached]) auto
  next
    case True
    obtain r claim1 w1 where p: "ds_Prepare (drv_deviceState d) claim w = (r, claim1, w1)" by (metis prod_cases3)
    note f1 = prepare_frame [OF p]
    show ?thesis
    proof (cases r)
      case (Panic m)
      with Ok True p f1 assms show ?thesis by (intro stop) auto
    next
      case (Err e)
      with Ok True p f1 assms show ?thesis by (intro stop) auto
    next
      case r: (Ok new)
      obtain x w2 where x: "cs_Set (drv_claimStore d) (rc_UID claim) new w1 = (x, w2)" by fastforce
      show ?thesis
      proof (cases x)
        case (Panic m)
        with x st.set_no_panic [of "rc_UID claim" new w1 m] show ?thesis by simp
      next
        case (Err e)
        obtain y w3 where y: "ds_Unprepare (drv_deviceState d) new w2 = (y, w3)" by fastforce
        have f: "stored w3 = stored w" using unprepare_frame [OF y] st.set_err x Err f1 by simp
        show ?thesis by (cases y) (use Ok True p r x Err y f assms in \<open>auto intro!: stop simp: Let_def\<close>)
      next
        case x': (Ok u)
        have "stored (driver_updateClaimStatus d claim1 w2) = (stored w)(rc_UID claim \<mapsto> new)"
          using status_frame st.set_ok x x' f1 by simp
        with Ok True p r x x' assms prepare_nonempty p r show ?thesis
          by (intro fresh [of new "driver_updateClaimStatus d claim1 w2"]) (auto dest: get_fresh)
      qed
    qed
  qed
qed

lemma prepare_keeps_checkpoints:
  "prepare_claims d result claims w = (out, w') \<Longrightarrow> checkpointed w uid pds \<Longrightarrow> checkpointed w' uid pds"
proof (induction claims arbitrary: result w)
  case (Cons claim claims)
  from Cons.prems(1) show ?case
  proof (cases rule: prepare_claims_step)
    case stop
    with Cons.prems(2) checkpointed_cong [OF stop(2)] show ?thesis by simp
  next
    case (cached x)
    with Cons show ?thesis by blast
  next
    case (fresh x w1)
    with Cons.prems(2) have "checkpointed w1 uid pds" by (auto simp: checkpointed_def)
    with Cons.IH fresh show ?thesis by blast
  qed
qed simp

lemma prepare_checkpoints:
  "prepare_claims d result claims w = (Ok (res, None), w') \<Longrightarrow>
   (\<forall>c \<in> set claims. \<exists>pds. checkpointed w' (rc_UID c) pds \<and> res (rc_UID c) = Some (preparedDevicesToResult pds))
   \<and> (\<forall>u. u \<notin> rc_UID ` set claims \<longrightarrow> stored w' u = stored w u \<and> res u = result u)"
proof (induction claims arbitrary: result w)
  case (Cons claim claims)
  have later: "\<exists>pds. checkpointed w' (rc_UID claim) pds \<and> res (rc_UID claim) = Some (preparedDevicesToResult pds)"
    if "prepare_claims d (result(rc_UID claim \<mapsto> preparedDevicesToResult x)) claims w1 = (Ok (res, None), w')"
      and "checkpointed w1 (rc_UID claim) x" for x w1
  proof (cases "rc_UID claim \<in> rc_UID ` set claims")
    case True
    with Cons.IH [OF that(1)] show ?thesis by auto
  next
    case False
    with Cons.IH [OF that(1)] have "res (rc_UID claim) = Some (preparedDevicesToResult x)" by simp
    with prepare_keeps_checkpoints [OF that] show ?thesis by blast
  qed
  from Cons.prems show ?case
  proof (cases rule: prepare_claims_step)
    case (cached x)
    with Cons.IH [OF cached(2)] later [OF cached(2,1)] show ?thesis by auto
  next
    case (fresh x w1)
    have "checkpointed w1 (rc_UID claim) x" using fresh by (simp add: checkpointed_def)
    with Cons.IH [OF fresh(4)] later [OF fresh(4)] fresh(3) show ?thesis by auto
  qed auto
qed simp

text \<open>One round of the unprepare loop when the call as a whole succeeds.\<close>

lemma unprepare_claims_step:
  assumes "unprepare_claims d result (claim # claims) w = (Ok (res, None), w')"
  obtains v w1 where "unprepare_claims d (result(no_UID claim \<mapsto> v)) claims w1 = (Ok (res, None), w')"
    and "\<forall>u pds. checkpointed w1 u pds \<longrightarrow> checkpointed w u pds"
    and "\<forall>u. u \<noteq> no_UID claim \<longrightarrow> stored w1 u = stored w u"
    and "case v of None \<Rightarrow> \<forall>pds. \<not> checkpointed w1 (no_UID claim) pds | Some _ \<Rightarrow> \<exists>pds. checkpointed w1 (no_UID claim) pds"
proof -
  let ?u = "no_UID claim"
  from assms obtain pds where g: "cs_Get (drv_claimStore d) ?u w = Ok pds" by (auto split: res.splits)
  show ?thesis
  proof (cases "pds = []")
    case True
    with assms g show ?thesis by (intro that [of None w]) (auto dest: get_fresh)
  next
    case False
    obtain r w1 where r: "ds_Unprepare (drv_deviceState d) pds w = (r, w1)" by fastforce
    note f1 = unprepare_frame [OF r]
    have c1: "checkpointed w1 ?u pds" using get_cached [OF g False] checkpointed_cong [OF f1] by simp
    show ?thesis
    proof (cases r)
      case (Panic m)
      with assms g False r show ?thesis by simp
    next
      case (Err e)
      with assms g False r c1 f1 checkpointed_cong [OF f1] show ?thesis
        by (intro that [of "Some (Errorf ''unprepare claim %s: %w'' [AStr ?u] [e])" w1]) auto
    next
      case (Ok u)
      obtain x w2 where x: "cs_Delete (drv_claimStore d) ?u w1 = (x, w2)" by fastforce
      with assms g False r Ok have x': "x = Ok ()" by (cases x) auto
      have s2: "stored w2 = (stored w)(?u := None)" using st.delete_ok x x' f1 by simp
      with assms g False r Ok x x' show ?thesis
        by (intro that [of None w2]) (auto simp: checkpointed_def split: if_splits)
    qed
  qed
qed

text \<open>A claim is dropped from the store exactly when its unprepare reports no error.\<close>

lemma unprepare_checkpoints:
  "unprepare_claims d result claims w = (Ok (res, None), w') \<Longrightarrow>
   (\<forall>c \<in> set claims. \<exists>e. res (no_UID c) = Some e \<and>
      (case e of None \<Rightarrow> \<forall>pds. \<not> checkpointed w' (no_UID c) pds | Some _ \<Rightarrow> \<exists>pds. checkpointed w' (no_UID c) pds))
   \<and> (\<forall>u. u \<notin> no_UID ` set claims \<longrightarrow> stored w' u = stored w u \<and> res u = result u)
   \<and> (\<forall>u pds. checkpointed w' u pds \<longrightarrow> checkpointed w u pds)"
proof (induction claims arbitrary: result w)
  case (Cons claim claims)
  obtain v w1 where v: "unprepare_claims d (result(no_UID claim \<mapsto> v)) claims w1 = (Ok (res, None), w')"
    and cp: "\<forall>u pds. checkpointed w1 u pds \<longrightarrow> checkpointed w u pds"
    and o: "\<forall>u. u \<noteq> no_UID claim \<longrightarrow> stored w1 u = stored w u"
    and n: "case v of None \<Rightarrow> \<forall>pds. \<not> checkpointed w1 (no_UID claim) pds | Some _ \<Rightarrow> \<exists>pds. checkpointed w1 (no_UID claim) pds"
    by (rule unprepare_claims_step [OF Cons.prems])
  note ih = Cons.IH [OF v]
  have "\<exists>e. res (no_UID claim) = Some e \<and>
      (case e of None \<Rightarrow> \<forall>pds. \<not> checkpointed w' (no_UID claim) pds | Some _ \<Rightarrow> \<exists>pds. checkpointed w' (no_UID claim) pds)"
  proof (cases "no_UID claim \<in> no_UID ` set claims")
    case True
    then obtain x where x: "x \<in> set claims" "no_UID x = no_UID claim" by auto
    from bspec [OF conjunct1 [OF ih] x(1)] show ?thesis unfolding x(2) .
  next
    case False
    with ih have "res (no_UID claim) = Some v" "stored w' (no_UID claim) = stored w1 (no_UID claim)" by auto
    with n show ?thesis by (cases v) (auto simp: checkpointed_def)
  qed
  with ih cp o show ?case by auto
qed simp

end

end
