(* ===== verification/DriverNode.thy ===== *)
theory DriverNode
  imports Driver
begin

text \<open>
  The driver on the node: the handlers of \<^verbatim>\<open>server.go\<close> with the models of the device state, the
  checkpoint store and the API client plugged in. \<open>driver_stack\<close> collects the hypotheses on
  the database and the retry helper, and gives the contract \<open>driver_laws\<close>; the properties of
  the handlers follow.
\<close>

section \<open>What the device state leaves alone\<close>

text \<open>A part of the world that no operation of the backend changes is not changed by the handlers built on it.\<close>

definition keeps :: "('w \<Rightarrow> 'v) \<Rightarrow> 'w backend \<Rightarrow> bool" where
  "keeps view bk \<longleftrightarrow>
     (\<forall>p sp w. view (snd (CreateSocketDir (bk_socketFS bk) p sp w)) = view w) \<and>
     (\<forall>p w. view (snd (RemoveSocketDir (bk_socketFS bk) p w)) = view w) \<and>
     (\<forall>b n s ps w. view (snd (CreatePort (bk_ovsClient bk) b n s ps w)) = view w) \<and>
     (\<forall>b n w. view (snd (DeletePort (bk_ovsClient bk) b n w)) = view w) \<and>
     (\<forall>x n w. view (snd (cdi_WriteSpec (bk_cdi bk) x n w)) = view w) \<and>
     (\<forall>n w. view (snd (cdi_RemoveSpec (bk_cdi bk) n w)) = view w)"

lemma keepsD:
  assumes "keeps view bk"
  shows "CreateSocketDir (bk_socketFS bk) p sp w = (r, w') \<Longrightarrow> view w' = view w"
    and "RemoveSocketDir (bk_socketFS bk) p w = (r, w') \<Longrightarrow> view w' = view w"
    and "CreatePort (bk_ovsClient bk) b n s ps w = (r, w') \<Longrightarrow> view w' = view w"
    and "DeletePort (bk_ovsClient bk) b n w = (r, w') \<Longrightarrow> view w' = view w"
    and "cdi_WriteSpec (bk_cdi bk) x n w = (e, w') \<Longrightarrow> view w' = view w"
    and "cdi_RemoveSpec (bk_cdi bk) n w = (e, w') \<Longrightarrow> view w' = view w"
  using assms unfolding keeps_def by (metis snd_conv)+

lemma keeps_CreateClaimSpecFile [frame_intros]:
  "keeps view bk \<Longrightarrow> CreateClaimSpecFile (bk_cdi bk) pds w = (r, w') \<Longrightarrow> view w' = view w"
  by (auto simp: CreateClaimSpecFile_def Let_def dest: keepsD split: list.splits res.splits prod.splits option.splits)

lemma keeps_DeleteClaimSpecFile [frame_intros]:
  "keeps view bk \<Longrightarrow> DeleteClaimSpecFile (bk_cdi bk) uid w = (r, w') \<Longrightarrow> view w' = view w"
  by (auto simp: DeleteClaimSpecFile_def Let_def dest: keepsD split: prod.splits option.splits)

lemma keeps_unprepareDevice [frame_intros]:
  assumes "keeps view bk" and "unprepareDevice bk pd w = (r, w')"
  shows "view w' = view w"
proof -
  obtain rc w1 where 1: "DeleteClaimSpecFile (bk_cdi bk) (uid_key pd) w = (rc, w1)" by fastforce
  obtain rd w2 where 2: "DeletePort (bk_ovsClient bk) (BridgeName pd) (OVSPortName pd) w1 = (rd, w2)" by fastforce
  obtain rr w3 where 3: "RemoveSocketDir (bk_socketFS bk) (dir_key pd) w2 = (rr, w3)" by fastforce
  note k = keeps_DeleteClaimSpecFile [OF assms(1) 1] keepsD(4) [OF assms(1) 2] keepsD(2) [OF assms(1) 3]
  show ?thesis
    using assms(2) k by (cases rc; cases rd; cases rr) (simp_all add: unprepareDevice_def Let_def 1 2 3)
qed

lemma keeps_unprepare_all [frame_intros]:
  "keeps view bk \<Longrightarrow> unprepare_all bk fmt pds w = (r, w') \<Longrightarrow> view w' = view w"
proof (induction pds arbitrary: w r w')
  case (Cons pd pds)
  obtain r1 w1 where 1: "unprepareDevice bk pd w = (r1, w1)" by fastforce
  obtain r2 w2 where 2: "unprepare_all bk fmt pds w1 = (r2, w2)" by fastforce
  from Cons.prems(2) keeps_unprepareDevice [OF Cons.prems(1) 1] Cons.IH [OF Cons.prems(1) 2]
  show ?case by (cases r1; cases r2) (simp_all add: 1 2)
qed simp

lemma keeps_rollback [frame_intros]:
  "keeps view bk \<Longrightarrow> rollback bk err pds w = (r, w') \<Longrightarrow> view w' = view w"
  by (auto simp: rollback_def dest: keeps_unprepare_all split: prod.splits res.splits)

lemma keeps_UnprepareResourceClaim [frame_intros]:
  "keeps view bk \<Longrightarrow> UnprepareResourceClaim bk pds w = (r, w') \<Longrightarrow> view w' = view w"
  by (auto simp: UnprepareResourceClaim_def dest: keeps_unprepare_all split: prod.splits res.splits)

lemma keeps_prepareDevice [frame_intros]:
  assumes k: "keeps view bk" and p: "prepareDevice bk d1 d2 d3 claim result pc w = (r, w')"
  shows "view w' = view w"
proof (cases "rc_ReservedFor claim = [] \<or> vhostUserConfig d1 = None")
  case True
  with p show ?thesis
    using ReservedFor_0_panic [of claim] by (cases "rc_ReservedFor claim = []") (auto simp: prepareDevice_def GetVhostUserConfig_def)
next
  case False
  then obtain v where Some: "rc_ReservedFor claim \<noteq> []" "vhostUserConfig d1 = Some v" by auto
  let ?dir = "getSocketDir (cr_UID (pod_ref claim)) claim result"
  obtain c w1 where c: "CreateSocketDir (bk_socketFS bk) ?dir (vhostUserConfig d3) w = (c, w1)" by fastforce
  note k1 = keepsD(1) [OF k c]
  have rm: "view (snd (RemoveSocketDir (bk_socketFS bk) q v)) = view v" for q v using k by (simp add: keeps_def)
  have cp: "view x = view v" if "CreatePort (bk_ovsClient bk) b n s ps v = (y, x)" for b n s ps v y x using keepsD(3) [OF k that] .
  from p Some c k1 show ?thesis
    by (auto simp: prepareDevice_def GetVhostUserConfig_def Let_def rm dest!: cp split: res.splits prod.splits)
qed

lemma keeps_prepare_results [frame_intros]:
  "keeps view bk \<Longrightarrow> prepare_results bk obs i cfgs rs acc claim w = (r, claim', w') \<Longrightarrow> view w' = view w"
proof (induction rs arbitrary: i acc claim w)
  case (Cons x rs)
  obtain y w1 where y: "prepareDevice bk (obs i) (obs (i + 1)) (obs (i + 2)) claim x (getConfig cfgs (dr_Request x)) w = (y, w1)"
    by fastforce
  note k1 = keeps_prepareDevice [OF Cons.prems(1) y]
  show ?case
  proof (cases "dr_Driver x = DriverName")
    case False
    with Cons.prems(2) Cons.IH [OF Cons.prems(1), of i acc claim w] show ?thesis by simp
  next
    case True
    show ?thesis
    proof (cases y)
      case (Ok pd)
      with True y Cons.prems(2) Cons.IH [OF Cons.prems(1), of "i + 3" "acc @ [pd]" "updateClaimStatus x pd claim" w1] k1
      show ?thesis by simp
    next
      case (Err e)
      with True y Cons.prems(2) k1 show ?thesis
        by (auto dest: keeps_rollback [OF Cons.prems(1)] split: prod.splits)
    next
      case (Panic m)
      with True y Cons.prems(2) k1 show ?thesis by simp
    qed
  qed
qed simp

lemma keeps_PrepareResourceClaim [frame_intros]:
  assumes k: "keeps view bk" and p: "PrepareResourceClaim bk obs claim w = (r, claim', w')"
  shows "view w' = view w"
proof -
  have "view w1 = view w" if "prepare_results bk obs 0 cfgs rs [] claim w = (x, c, w1)" for cfgs rs x c w1
    using keeps_prepare_results [OF k that] .
  moreover have "view w2 = view w1" if "CreateClaimSpecFile (bk_cdi bk) pds w1 = (x, w2)" for pds w1 x w2
    using keeps_CreateClaimSpecFile [OF k that] .
  moreover have "view w2 = view w1" if "rollback bk e pds w1 = ((x :: PreparedDevice list res), w2)" for e pds w1 x w2
    using keeps_rollback [OF k that] .
  ultimately show ?thesis using p
    by (auto simp: PrepareResourceClaim_def split: option.splits if_splits sum.splits prod.splits res.splits)
qed

lemma PrepareResourceClaim_nonempty: "PrepareResourceClaim bk obs claim w = (Ok pds, claim', w') \<Longrightarrow> pds \<noteq> []"
proof -
  have no: "rollback bk e xs v \<noteq> (Ok ys, v')" for e xs v v' and ys :: "PreparedDevice list"
    by (auto simp: rollback_def split: prod.splits res.splits)
  assume "PrepareResourceClaim bk obs claim w = (Ok pds, claim', w')"
  then show ?thesis
    using no by (auto simp: PrepareResourceClaim_def split: option.splits if_splits sum.splits prod.splits res.splits)
qed

section \<open>The driver on the node\<close>

definition on_store :: "('s \<Rightarrow> 'r \<times> 's) \<Rightarrow> ('db, 'c, 's, 'k) node \<Rightarrow> 'r \<times> ('db, 'c, 's, 'k) node" where
  "on_store f w = (case f (nd_store w) of (r, x) \<Rightarrow> (r, w\<lparr>nd_store := x\<rparr>))"

definition on_api :: "('k \<Rightarrow> 'r \<times> 'k) \<Rightarrow> ('db, 'c, 's, 'k) node \<Rightarrow> 'r \<times> ('db, 'c, 's, 'k) node" where
  "on_api f w = (case f (nd_api w) of (r, x) \<Rightarrow> (r, w\<lparr>nd_api := x\<rparr>))"

text \<open>\<open>obs c\<close> is what the preparation of claim \<open>c\<close> sees of the device state.\<close>

definition node_driver ::
  "('db, 'c, 's, 'k) node backend \<Rightarrow> ('v, 's) bbolt \<Rightarrow> 'v claim_codec \<Rightarrow> 'k kube_client
   \<Rightarrow> (('db, 'c, 's, 'k) node condition \<Rightarrow> ResourceClaim \<times> ('db, 'c, 's, 'k) node \<Rightarrow> error option \<times> (ResourceClaim \<times> ('db, 'c, 's, 'k) node))
   \<Rightarrow> (ResourceClaim \<Rightarrow> nat \<Rightarrow> DeviceState) \<Rightarrow> ('db, 'c, 's, 'k) node Driver" where
  "node_driver bk db codec client backoff obs =
     \<lparr>drv_deviceState = \<lparr>ds_Prepare = (\<lambda>c. PrepareResourceClaim bk (obs c) c), ds_Unprepare = UnprepareResourceClaim bk\<rparr>,
      drv_claimStore = \<lparr>cs_Get = (\<lambda>u w. preparedClaimStore_Get db codec u (nd_store w)),
                        cs_Set = (\<lambda>u ds. on_store (preparedClaimStore_Set db codec u ds)),
                        cs_Delete = (\<lambda>u. on_store (preparedClaimStore_Delete db u)),
                        cs_Close = on_store (preparedClaimStore_Close db)\<rparr>,
      drv_client = \<lparr>api_UpdateStatus = (\<lambda>ns c. on_api (api_UpdateStatus client ns c)),
                    api_Get = (\<lambda>ns n. on_api (api_Get client ns n))\<rparr>,
      drv_backoff = backoff\<rparr>"

lemma on_store_iff: "on_store f w = (r, w') \<longleftrightarrow> (\<exists>x. f (nd_store w) = (r, x) \<and> w' = w\<lparr>nd_store := x\<rparr>)"
  by (auto simp: on_store_def split: prod.splits)

lemma fst_on_store [simp]: "fst (on_store f w) = fst (f (nd_store w))"
  by (simp add: on_store_def split: prod.split)

lemma keeps_node: "keeps nd_store (node_backend env lib cdi)" "keeps nd_api (node_backend env lib cdi)"
  by (simp_all add: keeps_def on_fs_def on_db_def on_cdi_def split: prod.splits)

locale driver_stack =
  db: bolt_store db codec content + retry: backoff_law backoff
  for db :: "('v, 's) bbolt" and codec :: "'v claim_codec" and content :: "'s \<Rightarrow> string \<rightharpoonup> (string \<rightharpoonup> 'v)"
    and backoff :: "('db, 'c, 's, 'k) node condition \<Rightarrow> ResourceClaim \<times> ('db, 'c, 's, 'k) node
                     \<Rightarrow> error option \<times> (ResourceClaim \<times> ('db, 'c, 's, 'k) node)" +
  fixes env :: os_env and lib :: "('op, 'res, 'db) libovsdb" and cdi :: "'c cdi_lib" and client :: "'k kube_client"
    and obs :: "ResourceClaim \<Rightarrow> nat \<Rightarrow> DeviceState"
begin

text \<open>The status update changes the API server's part of the world only.\<close>

lemma status_update_view:
  assumes "\<And>w x. view (w\<lparr>nd_api := x\<rparr>) = view w"
  shows "view (driver_updateClaimStatus (node_driver bk db codec client backoff obs) c w) = view w"
proof -
  let ?f = "update_attempt (drv_client (node_driver bk db codec client backoff obs))
    (filterDevicesByDriver (rc_Devices c) DriverName) (rc_UID c)"
  have "view (snd (snd (?f s))) = view w" if "view (snd s) = view w" for s
    using that by (auto simp: update_attempt_def node_driver_def on_api_def assms split: prod.splits option.splits sum.splits if_splits)
  then have "view (snd (snd (backoff ?f (c, w)))) = view w"
    using retry.backoff_invariant [where P = "\<lambda>s. view (snd s) = view w" and s = "(c, w)" and f = ?f] by simp
  then show ?thesis by (simp add: driver_updateClaimStatus_def Let_def node_driver_def)
qed

lemmas status_update_store = status_update_view [where view = nd_store, simplified]

end

sublocale driver_stack \<subseteq> drv: driver_laws
  "node_driver (node_backend env lib cdi) db codec client backoff obs"
  "\<lambda>w. stored_claims codec content (nd_store w)"
proof (unfold_locales, goal_cases)
  case (1 uid w ds) then show ?case by (simp add: node_driver_def db.Get_ok)
next
  case (2 uid w m) then show ?case using db.store.get_no_panic by (simp add: node_driver_def bolt_claim_store_def)
next
  case (3 uid ds w w') then show ?case by (auto simp: node_driver_def on_store_iff db.Set_ok)
next
  case (4 uid ds w e w') then show ?case by (auto simp: node_driver_def on_store_iff db.Set_err)
next
  case (5 uid ds w m) then show ?case using db.store.set_no_panic by (simp add: node_driver_def bolt_claim_store_def)
next
  case (6 uid w w') then show ?case by (auto simp: node_driver_def on_store_iff db.Delete_ok)
next
  case (7 uid w e w') then show ?case by (auto simp: node_driver_def on_store_iff db.Delete_err)
next
  case (8 uid w m) then show ?case using db.store.delete_no_panic by (simp add: node_driver_def bolt_claim_store_def)
next
  case (9 c w r c' w') then show ?case by (auto simp: node_driver_def dest: keeps_PrepareResourceClaim [OF keeps_node(1)])
next
  case (10 c w pds c' w') then show ?case by (auto simp: node_driver_def dest: PrepareResourceClaim_nonempty)
next
  case (11 pds w r w') then show ?case by (auto simp: node_driver_def dest: keeps_UnprepareResourceClaim [OF keeps_node(1)])
next
  case (12 c w) then show ?case by (simp add: status_update_store)
qed


text \<open>The store's content for one claim, as a non-empty checkpoint.\<close>

definition has_checkpoint ::
  "'v claim_codec \<Rightarrow> ('s \<Rightarrow> string \<rightharpoonup> (string \<rightharpoonup> 'v)) \<Rightarrow> ('db, 'c, 's, 'k) node \<Rightarrow> string \<Rightarrow> PreparedDevice list \<Rightarrow> bool" where
  "has_checkpoint codec content w uid pds \<longleftrightarrow> stored_claims codec content (nd_store w) uid = Some pds \<and> pds \<noteq> []"

context driver_stack
begin

lemma checkpointed_eq: "drv.checkpointed = has_checkpoint codec content"
  by (simp add: fun_eq_iff drv.checkpointed_def has_checkpoint_def)

lemmas prepare_checkpoints_law = drv.prepare_checkpoints [unfolded checkpointed_eq]
lemmas prepare_keeps_law = drv.prepare_keeps_checkpoints [unfolded checkpointed_eq]
lemmas unprepare_checkpoints_law = drv.unprepare_checkpoints [unfolded checkpointed_eq]

text \<open>A second call for the same claims answers from the store.\<close>

lemma cached_claims:
  assumes "list_all (\<lambda>c. \<exists>pds. preparedClaimStore_Get db codec (rc_UID c) (nd_store w) = Ok pds \<and> pds \<noteq> []
      \<and> res (rc_UID c) = Some (preparedDevicesToResult pds)) claims"
  shows "prepare_claims (node_driver bk db codec client backoff obs) result claims w =
    (Ok (\<lambda>u. if u \<in> rc_UID ` set claims then res u else result u, None), w)"
  using assms
proof (induction claims arbitrary: result)
  case Nil
  then show ?case by simp
next
  case (Cons c cs)
  then obtain pds where g: "preparedClaimStore_Get db codec (rc_UID c) (nd_store w) = Ok pds" "pds \<noteq> []"
    "res (rc_UID c) = Some (preparedDevicesToResult pds)" by auto
  have "cs_Get (drv_claimStore (node_driver bk db codec client backoff obs)) (rc_UID c) w = Ok pds"
    using g(1) by (simp add: node_driver_def)
  with g Cons show ?case by (auto simp: fun_eq_iff)
qed

text \<open>The first preparation of one claim, and its removal, step by step.\<close>

lemma prepare_single:
  assumes "PrepareResourceClaims (node_driver (node_backend env lib cdi) db codec client backoff obs) [claim] w = (Ok (res, None), w')"
    and "stored_claims codec content (nd_store w) (rc_UID claim) = None"
  obtains pds claim' w1 s where "PrepareResourceClaim (node_backend env lib cdi) (obs claim) claim w = (Ok pds, claim', w1)"
    and "preparedClaimStore_Set db codec (rc_UID claim) pds (nd_store w1) = (Ok (), s)"
    and "w' = driver_updateClaimStatus (node_driver (node_backend env lib cdi) db codec client backoff obs) claim' (w1\<lparr>nd_store := s\<rparr>)"
proof -
  let ?d = "node_driver (node_backend env lib cdi) db codec client backoff obs"
  have "preparedClaimStore_Get db codec (rc_UID claim) (nd_store w) = Ok x \<Longrightarrow> x = []" for x
    using db.Get_ok assms(2) by fastforce
  with assms(1) show ?thesis
    by (auto simp: PrepareResourceClaims_def node_driver_def on_store_iff Let_def split: res.splits prod.splits intro: that)
qed

lemma unprepare_single:
  assumes "UnprepareResourceClaims (node_driver bk db codec client backoff obs) [obj] w = (Ok (res, None), w')"
    and "res (no_UID obj) = Some None" and "has_checkpoint codec content w (no_UID obj) pds"
  obtains w1 s where "UnprepareResourceClaim bk pds w = (Ok (), w1)" and "w' = w1\<lparr>nd_store := s\<rparr>"
proof -
  have "preparedClaimStore_Get db codec (no_UID obj) (nd_store w) = Ok x \<Longrightarrow> x = pds \<and> pds \<noteq> []" for x
    using db.Get_ok assms(3) by (fastforce simp: has_checkpoint_def)
  with assms(1,2) show ?thesis
    by (auto simp: UnprepareResourceClaims_def node_driver_def on_store_iff Let_def split: res.splits prod.splits intro: that)
qed

end

section \<open>Properties of the handlers\<close>

text \<open>
  C7. When \<^verbatim>\<open>PrepareResourceClaims\<close> succeeds, every claim of the call has a checkpoint, the
  devices answered to the kubelet are those of the checkpoint, and the checkpoints of all
  other claims are untouched.
\<close>

theorem PrepareResourceClaims_checkpoints:
  assumes "driver_stack db codec content backoff"
    and "PrepareResourceClaims (node_driver (node_backend env lib cdi) db codec client backoff obs) claims w = (Ok (res, None), w')"
  shows "list_all (\<lambda>c. \<exists>pds. has_checkpoint codec content w' (rc_UID c) pds \<and> res (rc_UID c) = Some (preparedDevicesToResult pds)) claims
    \<and> (\<forall>u. u \<notin> rc_UID ` set claims \<longrightarrow>
         stored_claims codec content (nd_store w') u = stored_claims codec content (nd_store w) u \<and> res u = None)"
  using driver_stack.prepare_checkpoints_law [OF assms(1) assms(2) [unfolded PrepareResourceClaims_def]]
  by (simp add: list_all_iff)

text \<open>
  C9. Prepare is idempotent: after a successful call, a second call for the same claims (a
  kubelet retry, or a restart of the driver) gives the same answer and changes nothing, as
  long as the store can be read.
\<close>

theorem PrepareResourceClaims_idempotent:
  assumes "driver_stack db codec content backoff"
    and "PrepareResourceClaims (node_driver (node_backend env lib cdi) db codec client backoff obs) claims w = (Ok (res, None), w')"
    and "list_all (\<lambda>c. \<exists>pds. preparedClaimStore_Get db codec (rc_UID c) (nd_store w') = Ok pds) claims"
  shows "PrepareResourceClaims (node_driver (node_backend env lib cdi) db codec client backoff obs') claims w' = (Ok (res, None), w')"
proof -
  note l = driver_stack.prepare_checkpoints_law [OF assms(1) assms(2) [unfolded PrepareResourceClaims_def]]
  have "bolt_store db codec content" using assms(1) by (simp add: driver_stack_def)
  note get = bolt_store.Get_ok [OF this]
  have "list_all (\<lambda>c. \<exists>pds. preparedClaimStore_Get db codec (rc_UID c) (nd_store w') = Ok pds \<and> pds \<noteq> []
      \<and> res (rc_UID c) = Some (preparedDevicesToResult pds)) claims"
    unfolding list_all_iff
  proof
    fix c assume c: "c \<in> set claims"
    then obtain pds where "has_checkpoint codec content w' (rc_UID c) pds" "res (rc_UID c) = Some (preparedDevicesToResult pds)"
      using l by blast
    moreover obtain x where x: "preparedClaimStore_Get db codec (rc_UID c) (nd_store w') = Ok x"
      using assms(3) c by (auto simp: list_all_iff)
    ultimately show "\<exists>pds. preparedClaimStore_Get db codec (rc_UID c) (nd_store w') = Ok pds \<and> pds \<noteq> []
      \<and> res (rc_UID c) = Some (preparedDevicesToResult pds)"
      using get [OF x] x by (auto simp: has_checkpoint_def)
  qed
  note e = driver_stack.cached_claims [OF assms(1) this, of "node_backend env lib cdi" client obs' Map.empty]
  have "(\<lambda>u. if u \<in> rc_UID ` set claims then res u else None) = res" using l by (auto simp: fun_eq_iff)
  with e show ?thesis by (simp add: PrepareResourceClaims_def)
qed

text \<open>
  C8. \<^verbatim>\<open>UnprepareResourceClaims\<close> drops a claim's checkpoint exactly when it reports no error
  for the claim; a claim that could not be unprepared keeps its checkpoint, so that a
  retry still knows what to clean up; no other checkpoint changes.
\<close>

theorem UnprepareResourceClaims_checkpoints:
  assumes "driver_stack db codec content backoff"
    and "UnprepareResourceClaims (node_driver (node_backend env lib cdi) db codec client backoff obs) claims w = (Ok (res, None), w')"
  shows "list_all (\<lambda>c. \<exists>e. res (no_UID c) = Some e \<and>
           (case e of None \<Rightarrow> \<forall>pds. \<not> has_checkpoint codec content w' (no_UID c) pds
            | Some _ \<Rightarrow> \<exists>pds. has_checkpoint codec content w' (no_UID c) pds)) claims
    \<and> (\<forall>u. u \<notin> no_UID ` set claims \<longrightarrow>
         stored_claims codec content (nd_store w') u = stored_claims codec content (nd_store w) u)
    \<and> (\<forall>u pds. has_checkpoint codec content w' u pds \<longrightarrow> has_checkpoint codec content w u pds)"
  using driver_stack.unprepare_checkpoints_law [OF assms(1) assms(2) [unfolded UnprepareResourceClaims_def]]
  by (simp add: list_all_iff)

section \<open>A sample run of the driver\<close>

definition stack_node :: "(ovs_tables, string \<rightharpoonup> Spec, mem_bolt, api_event list) node" where
  "stack_node = \<lparr>nd_fs = fresh_socketFS, nd_db = sample_tables, nd_cdi = Map.empty, nd_store = empty_bolt, nd_api = []\<rparr>"

definition sample_driver :: "(ovs_tables, string \<rightharpoonup> Spec, mem_bolt, api_event list) node Driver" where
  "sample_driver = node_driver (node_backend calm_env ref_lib mem_cdi) mem_bbolt mem_codec
     (recording_client (\<lambda>_. None) (\<lambda>_. Inl (External ''unreachable''))) (attempts BackoffSteps) (\<lambda>_ _. sample_state)"

interpretation sample_stack: driver_stack mem_bbolt mem_codec mem_content "attempts BackoffSteps" env lib cdi client obs
  for env and lib :: "('op, 'res, 'db) libovsdb" and cdi :: "'c cdi_lib" and client :: "'k kube_client" and obs
  by unfold_locales auto

definition sample_claims :: "ResourceClaim list" where
  "sample_claims = [sample_claim [sample_result ''br0'' ''net'']]"

definition sample_object :: NamespacedObject where
  "sample_object = \<lparr>no_Name = ''claim'', no_Namespace = ''ns'', no_UID = ''0123-4567-89ab''\<rparr>"

lemma sample_run:
  "case PrepareResourceClaims sample_driver sample_claims stack_node of
     (Ok (res, None), w) \<Rightarrow>
       (case preparedClaimStore_Get mem_bbolt mem_codec ''0123-4567-89ab'' (nd_store w) of Ok pds \<Rightarrow> True | _ \<Rightarrow> False) \<and>
       (case UnprepareResourceClaims sample_driver [sample_object] w of (Ok (res', None), w') \<Rightarrow> res' ''0123-4567-89ab'' = Some None | _ \<Rightarrow> False)
   | _ \<Rightarrow> False"
  by code_simp

lemma sample_run_ok:
  obtains res w res' w' pds where "PrepareResourceClaims sample_driver sample_claims stack_node = (Ok (res, None), w)"
    and "UnprepareResourceClaims sample_driver [sample_object] w = (Ok (res', None), w')" and "res' ''0123-4567-89ab'' = Some None"
    and "preparedClaimStore_Get mem_bbolt mem_codec ''0123-4567-89ab'' (nd_store w) = Ok pds"
proof -
  obtain r w where r: "PrepareResourceClaims sample_driver sample_claims stack_node = (r, w)" by fastforce
  obtain r' w' where r': "UnprepareResourceClaims sample_driver [sample_object] w = (r', w')" by fastforce
  from sample_run r r' show ?thesis
    by (auto split: res.splits option.splits intro: that)
qed

theorem PrepareResourceClaims_checkpoints_witness:
  "\<exists>res w pds. PrepareResourceClaims sample_driver sample_claims stack_node = (Ok (res, None), w)
     \<and> has_checkpoint mem_codec mem_content w ''0123-4567-89ab'' pds"
proof -
  obtain res w where r: "PrepareResourceClaims sample_driver sample_claims stack_node = (Ok (res, None), w)" by (rule sample_run_ok)
  from PrepareResourceClaims_checkpoints [OF sample_stack.driver_stack_axioms r [unfolded sample_driver_def]] r
  show ?thesis by (auto simp: sample_claims_def sample_claim_def)
qed

theorem PrepareResourceClaims_idempotent_witness:
  "\<exists>res w. PrepareResourceClaims sample_driver sample_claims stack_node = (Ok (res, None), w)
     \<and> PrepareResourceClaims sample_driver sample_claims w = (Ok (res, None), w)"
proof -
  obtain res w pds where r: "PrepareResourceClaims sample_driver sample_claims stack_node = (Ok (res, None), w)"
    and g: "preparedClaimStore_Get mem_bbolt mem_codec ''0123-4567-89ab'' (nd_store w) = Ok pds" by (rule sample_run_ok)
  have "list_all (\<lambda>c. \<exists>pds. preparedClaimStore_Get mem_bbolt mem_codec (rc_UID c) (nd_store w) = Ok pds) sample_claims"
    using g by (simp add: sample_claims_def sample_claim_def)
  from PrepareResourceClaims_idempotent [OF sample_stack.driver_stack_axioms r [unfolded sample_driver_def] this] r
  show ?thesis unfolding sample_driver_def by blast
qed

theorem UnprepareResourceClaims_checkpoints_witness:
  "\<exists>res w res' w'. PrepareResourceClaims sample_driver sample_claims stack_node = (Ok (res, None), w)
     \<and> UnprepareResourceClaims sample_driver [sample_object] w = (Ok (res', None), w')
     \<and> (\<forall>pds. \<not> has_checkpoint mem_codec mem_content w' ''0123-4567-89ab'' pds)"
proof -
  obtain res w res' w' where r: "PrepareResourceClaims sample_driver sample_claims stack_node = (Ok (res, None), w)"
    and u: "UnprepareResourceClaims sample_driver [sample_object] w = (Ok (res', None), w')"
    and n: "res' ''0123-4567-89ab'' = Some None" by (rule sample_run_ok)
  have "no_UID sample_object = ''0123-4567-89ab''" by (simp add: sample_object_def)
  with UnprepareResourceClaims_checkpoints [OF sample_stack.driver_stack_axioms u [unfolded sample_driver_def]] n
  have "\<forall>pds. \<not> has_checkpoint mem_codec mem_content w' ''0123-4567-89ab'' pds" by simp
  with r u show ?thesis by blast
qed

section \<open>A checkpoint that cannot be written\<close>

text \<open>
  C10. When the checkpoint of a freshly prepared claim cannot be written, the handler takes the
  preparation back and stops with the store's error for that claim: if the removal goes
  well, the ports are those from before the call and none of the claim's socket directories remains.
\<close>

theorem checkpoint_failure_rolls_back:
  fixes w :: "('db, 'c, 's, 'k) node"
  assumes "driver_node lib calls tables cdi cspecs" and "wf_tables (tables (nd_db w))"
    and "preparedClaimStore_Get db codec (rc_UID claim) (nd_store w) = Ok []"
    and "PrepareResourceClaim (node_backend env lib cdi) (obs claim) claim w = (Ok pds, claim', w1)"
    and "preparedClaimStore_Set db codec (rc_UID claim) pds (nd_store w1) = (Err e, s)"
    and "UnprepareResourceClaim (node_backend env lib cdi) pds (w1\<lparr>nd_store := s\<rparr>) = (Ok (), w2)"
    and "rc_Allocation claim = Some al"
    and "fresh_claim (\<lambda>w. attached_ports (tables (nd_db w))) node_dir claim (own_results (al_Results al)) w"
  shows "PrepareResourceClaims (node_driver (node_backend env lib cdi) db codec client backoff obs) (claim # claims) w
      = (Ok ([rc_UID claim \<mapsto> failed_result e], Some e), w2)
    \<and> attached_ports (tables (nd_db w2)) = attached_ports (tables (nd_db w))
    \<and> (\<forall>r \<in> set (own_results (al_Results al)). \<not> node_dir w2 (claim_dir claim r))"
proof -
  let ?d = "node_driver (node_backend env lib cdi) db codec client backoff obs"
  obtain cfgs where "parseClaimConfigs (al_Config al) = Inr cfgs" by (rule PrepareResourceClaim_parsed [OF assms(4,7)])
  note wf = driver_node.prepared_wf_law [OF assms(1,2,4,7) this]
  have "PrepareResourceClaims ?d (claim # claims) w = (Ok ([rc_UID claim \<mapsto> failed_result e], Some e), w2)"
    by (simp add: PrepareResourceClaims_def node_driver_def on_store_def assms(3-6))
  moreover from driver_node.prepare_unprepare_law [OF assms(1,2,4) _ _ _ _ assms(6-8)] wf
  have "attached_ports (tables (nd_db w2)) = attached_ports (tables (nd_db w))
    \<and> (\<forall>r \<in> set (own_results (al_Results al)). \<not> node_dir w2 (claim_dir claim r))" by simp
  ultimately show ?thesis by simp
qed

definition broken_codec :: "PreparedDevice list claim_codec" where
  "broken_codec = mem_codec\<lparr>json_Marshal := \<lambda>_. Inl (External ''marshal'')\<rparr>"

lemma broken_empty:
  "case preparedClaimStore_Get mem_bbolt broken_codec ''0123-4567-89ab'' (nd_store stack_node) of Ok [] \<Rightarrow> True | _ \<Rightarrow> False"
  by code_simp

lemma broken_run:
  "case PrepareResourceClaim (node_backend calm_env ref_lib mem_cdi) (\<lambda>_. sample_state) (hd sample_claims) stack_node of
     (Ok pds, c, w1) \<Rightarrow>
       (case preparedClaimStore_Set mem_bbolt broken_codec ''0123-4567-89ab'' pds (nd_store w1) of
          (Err e, s) \<Rightarrow> fst (UnprepareResourceClaim (node_backend calm_env ref_lib mem_cdi) pds (w1\<lparr>nd_store := s\<rparr>)) = Ok ()
        | _ \<Rightarrow> False)
   | _ \<Rightarrow> False"
  by code_simp

lemma stack_fresh:
  "fresh_claim (\<lambda>w. attached_ports (nd_db w)) node_dir (sample_claim rs) (own_results [sample_result ''br0'' ''net'']) stack_node"
proof -
  have "node_dir stack_node = node_dir sample_node" by (simp add: stack_node_def sample_node_def)
  then show ?thesis by (simp add: fresh_claim_def sample_own sample_port_name fresh_sample stack_node_def sample_attached)
qed

theorem checkpoint_failure_rolls_back_witness:
  "\<exists>res e w. PrepareResourceClaims (node_driver (node_backend calm_env ref_lib mem_cdi) mem_bbolt broken_codec
       (recording_client (\<lambda>_. None) (\<lambda>_. Inl (External ''unreachable''))) (attempts BackoffSteps) (\<lambda>_ _. sample_state))
       sample_claims stack_node = (Ok (res, Some e), w)
     \<and> attached_ports (nd_db w) = attached_ports sample_tables"
proof -
  let ?claim = "sample_claim [sample_result ''br0'' ''net'']" and ?bk = "node_backend calm_env ref_lib mem_cdi"
  let ?al = "\<lparr>al_Config = [sample_config [] ''7''], al_Results = [sample_result ''br0'' ''net'']\<rparr>"
  obtain r c w1 where p: "PrepareResourceClaim ?bk (\<lambda>_. sample_state) ?claim stack_node = (r, c, w1)" by (metis prod_cases3)
  with broken_run obtain pds where r: "r = Ok pds" by (cases r) (auto simp: sample_claims_def)
  obtain x s where x: "preparedClaimStore_Set mem_bbolt broken_codec ''0123-4567-89ab'' pds (nd_store w1) = (x, s)" by fastforce
  with broken_run p r obtain e where e: "x = Err e" by (cases x) (auto simp: sample_claims_def)
  obtain y w2 where y: "UnprepareResourceClaim ?bk pds (w1\<lparr>nd_store := s\<rparr>) = (y, w2)" by fastforce
  with broken_run p r x e have o: "y = Ok ()" by (simp add: sample_claims_def)
  have db: "nd_db stack_node = sample_tables" by (simp add: stack_node_def)
  have wf: "wf_tables (nd_db stack_node)" using sample_wf by (simp add: db sample_db)
  have uid: "rc_UID ?claim = ''0123-4567-89ab''" by (simp add: sample_claim_def)
  have g: "preparedClaimStore_Get mem_bbolt broken_codec (rc_UID ?claim) (nd_store stack_node) = Ok []"
    unfolding uid using broken_empty by (auto split: res.splits list.splits)
  have fr: "fresh_claim (\<lambda>w. attached_ports (nd_db w)) node_dir ?claim (own_results (al_Results ?al)) stack_node"
    by (simp add: stack_fresh)
  from checkpoint_failure_rolls_back [OF ref_node.driver_node_axioms wf g p [unfolded r] x [unfolded e, folded uid] y [unfolded o] sample_allocation fr,
      of _ _ "[]"]
  show ?thesis unfolding sample_claims_def db by blast
qed

end
