(* ===== verification/Isolation.thy ===== *)
theory Isolation
  imports DriverNode
begin

text \<open>
  Claims do not disturb each other. Whatever the outcome of a call, preparing or unpreparing
  a claim changes only what belongs to that claim: its ports, its socket directories and its
  CDI spec. From this follows an invariant of the whole node under any sequence of calls of
  the kubelet, with any failures: what the checkpoints promise is there.
\<close>

section \<open>What belongs to a claim\<close>

definition claim_results :: "ResourceClaim \<Rightarrow> DeviceRequestAllocationResult list" where
  "claim_results claim = (case rc_Allocation claim of None \<Rightarrow> [] | Some al \<Rightarrow> own_results (al_Results al))"

definition claim_ports :: "ResourceClaim \<Rightarrow> (string \<times> string) set" where
  "claim_ports claim = (\<lambda>r. (dr_Device r, port_name claim r)) ` set (claim_results claim)"

definition claim_dirs :: "ResourceClaim \<Rightarrow> string set" where
  "claim_dirs claim = claim_dir claim ` set (claim_results claim)"

definition made_for :: "ResourceClaim \<Rightarrow> PreparedDevice list \<Rightarrow> bool" where
  "made_for claim pds \<longleftrightarrow>
     list_all (\<lambda>pd. uid_key pd = rc_UID claim \<and> port_key pd \<in> claim_ports claim \<and> dir_key pd \<in> claim_dirs claim) pds"

text \<open>The claim that the loop passes on differs from the first one in its status only.\<close>

definition same_claim :: "ResourceClaim \<Rightarrow> ResourceClaim \<Rightarrow> bool" where
  "same_claim c c' \<longleftrightarrow> claim_dir c' = claim_dir c \<and> port_name c' = port_name c \<and> rc_UID c' = rc_UID c"

lemma made_for_simps [simp]:
  "made_for claim []" "made_for claim (pds @ [pd]) \<longleftrightarrow> made_for claim pds \<and> made_for claim [pd]"
  by (auto simp: made_for_def)

context prepare_backend
begin

definition confined :: "ResourceClaim \<Rightarrow> 'w \<Rightarrow> 'w \<Rightarrow> bool" where
  "confined claim w w' \<longleftrightarrow> sound w' \<and> bridge_in w' = bridge_in w \<and>
     (\<forall>x. x \<notin> claim_ports claim \<longrightarrow> (x \<in> attached w' \<longleftrightarrow> x \<in> attached w)) \<and>
     (\<forall>q. (\<forall>p \<in> claim_dirs claim. unrelated p q) \<longrightarrow> has_dir w' q = has_dir w q) \<and>
     (\<forall>n. n \<noteq> specs.spec_name (rc_UID claim) \<longrightarrow> specs w' n = specs w n)"

lemma confined_refl: "sound w \<Longrightarrow> confined claim w w"
  by (simp add: confined_def)

lemma confined_sound: "confined claim w w' \<Longrightarrow> sound w'"
  by (simp add: confined_def)

lemma confined_trans [trans]: "confined claim w w1 \<Longrightarrow> confined claim w1 w' \<Longrightarrow> confined claim w w'"
  by (simp add: confined_def)

lemma confined_unprepare_all:
  assumes "sound w" and "made_for claim pds" and "unprepare_all bk fmt pds w = (r, w')"
  shows "confined claim w w'"
proof -
  note e = unprepare_all_effect [OF assms(1,3)]
  have m: "uid_key pd = rc_UID claim" "port_key pd \<in> claim_ports claim" "dir_key pd \<in> claim_dirs claim" if "pd \<in> set pds" for pd
    using assms(2) that by (auto simp: made_for_def list_all_iff)
  show ?thesis unfolding confined_def
  proof (intro conjI allI impI)
    show "sound w'" "bridge_in w' = bridge_in w" using e by simp_all
    show "x \<in> attached w' \<longleftrightarrow> x \<in> attached w" if "x \<notin> claim_ports claim" for x
    proof -
      have "x \<notin> port_key ` set pds" using m(2) that by auto
      with e show ?thesis by (cases x) simp
    qed
    show "has_dir w' q = has_dir w q" if "\<forall>p \<in> claim_dirs claim. unrelated p q" for q
      using e m(3) that by simp
    show "specs w' n = specs w n" if "n \<noteq> specs.spec_name (rc_UID claim)" for n
    proof -
      have "n \<notin> (\<lambda>pd. specs.spec_name (uid_key pd)) ` set pds" using m(1) that by auto
      with e show ?thesis by simp
    qed
  qed
qed

lemma confined_UnprepareResourceClaim:
  assumes "sound w" and "made_for claim pds" and "UnprepareResourceClaim bk pds w = (r, w')"
  shows "confined claim w w'"
proof -
  obtain x where "unprepare_all bk ''unprepare failed: %w'' pds w = (x, w')"
    using assms(3) by (auto simp: UnprepareResourceClaim_def split: prod.splits res.splits)
  from confined_unprepare_all [OF assms(1,2) this] show ?thesis .
qed

lemma confined_rollback:
  assumes "sound w" and "made_for claim pds" and "rollback bk err pds w = (r, w')"
  shows "confined claim w w'" and "\<And>out. r \<noteq> Ok out"
  by (rule rollback_eq [OF assms(1,3)]; auto intro: confined_unprepare_all [OF assms(1,2)])+

lemma confined_prepareDevice:
  assumes "sound w" and "prepareDevice bk d1 d2 d3 c' result (getConfig cfgs (dr_Request result)) w = (r, w')"
    and "same_claim claim c'" and "result \<in> set (claim_results claim)"
  shows "confined claim w w'" and "r = Ok pd \<Longrightarrow> made_for claim [pd]"
proof -
  note e = prepareDevice_effect [OF assms(1,2)]
  have k: "(dr_Device result, port_name claim result) \<in> claim_ports claim" "claim_dir claim result \<in> claim_dirs claim"
    using assms(4) by (auto simp: claim_ports_def claim_dirs_def)
  have same: "claim_dir c' = claim_dir claim" "port_name c' = port_name claim" "rc_UID c' = rc_UID claim"
    using assms(3) by (simp_all add: same_claim_def)
  show "confined claim w w'" unfolding confined_def
  proof (intro conjI allI impI)
    show "x \<in> attached w' \<longleftrightarrow> x \<in> attached w" if "x \<notin> claim_ports claim" for x
      using e(5) [of x] k(1) that unfolding same by metis
    show "has_dir w' q = has_dir w q" if "\<forall>p \<in> claim_dirs claim. unrelated p q" for q
      using e(4) [of q] k(2) that unfolding same by blast
  qed (simp_all add: e(1-3))
  show "made_for claim [pd]" if "r = Ok pd"
    using prepareDevice_describes [OF assms(2) [unfolded that]] k by (simp add: made_for_def describes_def same)
qed

lemma confined_prepare_results:
  assumes "sound w" and "prepare_results bk obs i cfgs rs acc c' w = (x, claim', w')"
    and "same_claim claim c'" and "set (own_results rs) \<subseteq> set (claim_results claim)" and "made_for claim acc"
  shows "confined claim w w' \<and> (\<forall>out. x = Ok out \<longrightarrow> made_for claim out)"
  using assms
proof (induction rs arbitrary: i acc c' w)
  case Nil
  then show ?case by (auto simp: confined_refl)
next
  case (Cons r rs)
  show ?case
  proof (cases "dr_Driver r = DriverName")
    case False
    then have "prepare_results bk obs i cfgs rs acc c' w = (x, claim', w')" "set (own_results rs) \<subseteq> set (claim_results claim)"
      using Cons.prems(2,4) by (simp_all add: own_results_def)
    from Cons.IH [OF Cons.prems(1) this(1) Cons.prems(3) this(2) Cons.prems(5)] show ?thesis .
  next
    case True
    then have in_rs: "r \<in> set (claim_results claim)" "set (own_results rs) \<subseteq> set (claim_results claim)"
      using Cons.prems(4) by (auto simp: own_results_def)
    obtain y w1 where y: "prepareDevice bk (obs i) (obs (i + 1)) (obs (i + 2)) c' r (getConfig cfgs (dr_Request r)) w = (y, w1)"
      by fastforce
    note p = confined_prepareDevice [OF Cons.prems(1) y Cons.prems(3) in_rs(1)] and s1 = confined_sound [OF p(1)]
    show ?thesis
    proof (cases y)
      case (Ok pd)
      have "same_claim claim (updateClaimStatus r pd c')" using Cons.prems(3) by (simp add: same_claim_def)
      with Cons.IH [OF s1, of "i + 3" "acc @ [pd]" "updateClaimStatus r pd c'"] Cons.prems(2,5) True y Ok p in_rs(2)
      show ?thesis by (auto intro: confined_trans)
    next
      case (Err e)
      obtain z w2 where z: "rollback bk (Errorf ''error preparing device: %v'' [AErr e] []) acc w1 = ((z :: PreparedDevice list res), w2)" by fastforce
      note rb = confined_rollback [OF s1 Cons.prems(5) z]
      from Cons.prems(2) True y Err z have "x = z" "w' = w2" by auto
      with rb p(1) show ?thesis by (auto intro: confined_trans)
    next
      case (Panic m)
      with Cons.prems(2) True y p(1) show ?thesis by auto
    qed
  qed
qed

lemma confined_CreateClaimSpecFile:
  assumes "sound w" and "made_for claim pds" and "CreateClaimSpecFile (bk_cdi bk) pds w = (r, w')"
  shows "confined claim w w'"
proof (cases pds)
  case Nil
  with assms show ?thesis by (simp add: CreateClaimSpecFile_def confined_refl)
next
  case (Cons pd pds')
  with assms(2) have "uid_key pd = rc_UID claim" by (simp add: made_for_def)
  with assms(3) Cons have "\<And>n. n \<noteq> specs.spec_name (rc_UID claim) \<Longrightarrow> specs w' n = specs w n"
    by (auto simp: CreateClaimSpecFile_def Let_def split: res.splits prod.splits option.splits
        dest!: specs.write_err specs.write_ok)
  with CreateClaimSpecFile_frame [OF assms(3)] assms(1) show ?thesis by (simp add: confined_def)
qed

text \<open>A preparation touches nothing outside its claim, whether it succeeds, fails or panics.\<close>

lemma confined_PrepareResourceClaim:
  assumes "sound w" and "PrepareResourceClaim bk obs claim w = (r, claim', w')"
  shows "confined claim w w'" and "r = Ok pds \<Longrightarrow> made_for claim pds"
proof -
  have "confined claim w w' \<and> (\<forall>out. r = Ok out \<longrightarrow> made_for claim out)"
  proof (cases "\<exists>al cfgs. rc_Allocation claim = Some al \<and> length (rc_ReservedFor claim) = 1 \<and> parseClaimConfigs (al_Config al) = Inr cfgs")
    case False
    have len: "length (rc_ReservedFor claim) = 0 \<or> length (rc_ReservedFor claim) > 1 \<or> length (rc_ReservedFor claim) = 1" by linarith
    from False assms(2) len have "w' = w \<and> (\<forall>out. r \<noteq> Ok out)"
      by (cases "rc_Allocation claim"; elim disjE; cases "parseClaimConfigs (al_Config (the (rc_Allocation claim)))")
         (auto simp: PrepareResourceClaim_def split: if_splits)
    with assms(1) show ?thesis by (simp add: confined_refl)
  next
    case True
    then obtain al cfgs where al: "rc_Allocation claim = Some al" and len: "length (rc_ReservedFor claim) = 1"
      and c: "parseClaimConfigs (al_Config al) = Inr cfgs" by blast
    obtain x claim1 w1 where x: "prepare_results bk obs 0 cfgs (al_Results al) [] claim w = (x, claim1, w1)" by (metis prod_cases3)
    have "confined claim w w1 \<and> (\<forall>out. x = Ok out \<longrightarrow> made_for claim out)"
      by (rule confined_prepare_results [OF assms(1) x]) (simp_all add: same_claim_def claim_results_def al)
    then have 1: "confined claim w w1" "\<And>out. x = Ok out \<Longrightarrow> made_for claim out" by simp_all
    note s1 = confined_sound [OF 1(1)]
    show ?thesis
    proof (cases "\<exists>out. x = Ok out \<and> out \<noteq> []")
      case False
      with assms(2) 1(1) show ?thesis
        by (cases x) (auto simp: PrepareResourceClaim_def al len c x split: if_splits)
    next
      case True
      then obtain out where out: "x = Ok out" "out \<noteq> []" by blast
      note m = 1(2) [OF out(1)]
      obtain y w2 where y: "CreateClaimSpecFile (bk_cdi bk) out w1 = (y, w2)" by fastforce
      note f = confined_CreateClaimSpecFile [OF s1 m y]
      show ?thesis
      proof (cases y)
        case (Err e)
        obtain z w3 where z: "rollback bk (Errorf ''error creating CDI spec file: %v'' [AErr e] []) out w2 = ((z :: PreparedDevice list res), w3)"
          by fastforce
        note rb = confined_rollback [OF confined_sound [OF f] m z]
        have nz: "rc_ReservedFor claim \<noteq> []" using len by auto
        from assms(2) have "r = z" "w' = w3"
          by (simp_all add: PrepareResourceClaim_def al len nz c x out y Err z)
        with rb 1(1) f show ?thesis by (auto intro: confined_trans)
      qed (use assms(2) confined_trans [OF 1(1) f] m in \<open>auto simp: PrepareResourceClaim_def al len c x out y split: if_splits\<close>)
    qed
  qed
  then show "confined claim w w'" "r = Ok pds \<Longrightarrow> made_for claim pds" by simp_all
qed

end


section \<open>A set of claims on one node\<close>

text \<open>
  Claims that share nothing: different UIDs mean different ports and directories, and the
  directories of one claim are not nested. A UID may come with several versions of its claim.
\<close>

definition independent :: "ResourceClaim set \<Rightarrow> bool" where
  "independent C \<longleftrightarrow>
     (\<forall>c \<in> C. CHR ''/'' \<notin> set (rc_UID c) \<and> pairwise separate (claim_dirs c)) \<and>
     (\<forall>c \<in> C. \<forall>c' \<in> C. rc_UID c \<noteq> rc_UID c' \<longrightarrow>
        claim_ports c \<inter> claim_ports c' = {} \<and> (\<forall>p \<in> claim_dirs c. \<forall>q \<in> claim_dirs c'. unrelated p q))"

text \<open>What a checkpoint promises to the containers of the claim.\<close>

definition in_place ::
  "('db \<Rightarrow> ovs_tables) \<Rightarrow> ('c \<Rightarrow> string \<rightharpoonup> Spec) \<Rightarrow> 'c cdi_lib \<Rightarrow> string \<Rightarrow> PreparedDevice list \<Rightarrow> ('db, 'c, 's, 'k) node \<Rightarrow> bool" where
  "in_place tables cspecs cdi uid pds w \<longleftrightarrow>
     list_all (\<lambda>pd. node_dir w (dir_key pd) \<and>
       (has_bridge (tables (nd_db w)) (BridgeName pd) \<longrightarrow> port_key pd \<in> attached_ports (tables (nd_db w)))) pds \<and>
     cspecs (nd_cdi w) (claim_spec_name cdi uid) = Some (spec_of uid pds)"

text \<open>
  A change of the node by others that leaves the claims' things alone: bridges, ports and
  directories may come and go, but no port or directory of a claim is removed, a bridge may
  only disappear with all its ports, and a bridge that a claim uses is not created anew.
\<close>

definition spares ::
  "('db \<Rightarrow> ovs_tables) \<Rightarrow> ('c \<Rightarrow> string \<rightharpoonup> Spec) \<Rightarrow> 'c cdi_lib \<Rightarrow> 'v claim_codec \<Rightarrow> ('s \<Rightarrow> string \<rightharpoonup> (string \<rightharpoonup> 'v)) \<Rightarrow> ResourceClaim set
   \<Rightarrow> ('db, 'c, 's, 'k) node \<Rightarrow> ('db, 'c, 's, 'k) node \<Rightarrow> bool" where
  "spares tables cspecs cdi codec content C w w' \<longleftrightarrow>
     (wf_tables (tables (nd_db w)) \<longrightarrow> wf_tables (tables (nd_db w'))) \<and>
     (\<forall>c \<in> C. \<forall>x \<in> claim_ports c. has_bridge (tables (nd_db w')) (fst x) \<longrightarrow>
        has_bridge (tables (nd_db w)) (fst x) \<and> (x \<in> attached_ports (tables (nd_db w)) \<longrightarrow> x \<in> attached_ports (tables (nd_db w')))) \<and>
     (\<forall>c \<in> C. \<forall>q \<in> claim_dirs c. node_dir w q \<longrightarrow> node_dir w' q) \<and>
     (\<forall>c \<in> C. cspecs (nd_cdi w') (claim_spec_name cdi (rc_UID c)) = cspecs (nd_cdi w) (claim_spec_name cdi (rc_UID c))) \<and>
     stored_claims codec content (nd_store w') = stored_claims codec content (nd_store w)"

lemma spares_parts:
  assumes "tables (nd_db w') = tables (nd_db w)" and "\<And>q. node_dir w q \<Longrightarrow> node_dir w' q" and "nd_cdi w' = nd_cdi w"
    and "stored_claims codec content (nd_store w') = stored_claims codec content (nd_store w)"
  shows "spares tables cspecs cdi codec content C w w'"
  using assms by (simp add: spares_def)

text \<open>
  The node under the calls of the kubelet, with whatever outcome, and under such changes.
  The second component collects the claims that a call tried to unprepare and that kept
  their checkpoint.
\<close>

inductive claim_step ::
  "((ResourceClaim \<Rightarrow> nat \<Rightarrow> DeviceState) \<Rightarrow> ('db, 'c, 's, 'k) node Driver) \<Rightarrow> ('db \<Rightarrow> ovs_tables) \<Rightarrow> ('c \<Rightarrow> string \<rightharpoonup> Spec) \<Rightarrow> 'c cdi_lib
   \<Rightarrow> 'v claim_codec \<Rightarrow> ('s \<Rightarrow> string \<rightharpoonup> (string \<rightharpoonup> 'v)) \<Rightarrow> ResourceClaim set
   \<Rightarrow> ('db, 'c, 's, 'k) node \<times> string set \<Rightarrow> ('db, 'c, 's, 'k) node \<times> string set \<Rightarrow> bool"
  for D tables cspecs cdi codec content C where
  prepare_called: "set claims \<subseteq> C \<Longrightarrow> PrepareResourceClaims (D obs) claims w = (r, w') \<Longrightarrow>
    claim_step D tables cspecs cdi codec content C (w, B) (w', B)"
| unprepare_called: "UnprepareResourceClaims (D obs) objs w = (r, w') \<Longrightarrow>
    claim_step D tables cspecs cdi codec content C (w, B)
      (w', {u \<in> B \<union> no_UID ` set objs. \<exists>pds. has_checkpoint codec content w' u pds})"
| changed_elsewhere: "spares tables cspecs cdi codec content C w w' \<Longrightarrow>
    claim_step D tables cspecs cdi codec content C (w, B) (w', B)"

inductive claim_reachable ::
  "((ResourceClaim \<Rightarrow> nat \<Rightarrow> DeviceState) \<Rightarrow> ('db, 'c, 's, 'k) node Driver) \<Rightarrow> ('db \<Rightarrow> ovs_tables) \<Rightarrow> ('c \<Rightarrow> string \<rightharpoonup> Spec) \<Rightarrow> 'c cdi_lib
   \<Rightarrow> 'v claim_codec \<Rightarrow> ('s \<Rightarrow> string \<rightharpoonup> (string \<rightharpoonup> 'v)) \<Rightarrow> ResourceClaim set \<Rightarrow> ('db, 'c, 's, 'k) node \<times> string set \<Rightarrow> bool"
  for D tables cspecs cdi codec content C where
  claim_start: "wf_tables (tables (nd_db w)) \<Longrightarrow> stored_claims codec content (nd_store w) = Map.empty \<Longrightarrow>
    claim_reachable D tables cspecs cdi codec content C (w, {})"
| claim_next: "claim_reachable D tables cspecs cdi codec content C s \<Longrightarrow> claim_step D tables cspecs cdi codec content C s s' \<Longrightarrow>
    claim_reachable D tables cspecs cdi codec content C s'"

text \<open>
  Names as Kubernetes has them are enough: no slashes, no underscores in pod UIDs and claim
  names, UIDs that differ in their first eight digits, and one claim of a name per pod.
\<close>

definition uid_prefix :: "ResourceClaim \<Rightarrow> string" where
  "uid_prefix c = take 8 (strings_RemoveAll (CHR ''-'') (rc_UID c))"

definition plain_claim :: "ResourceClaim \<Rightarrow> bool" where
  "plain_claim c \<longleftrightarrow> CHR ''/'' \<notin> set (rc_UID c) \<and> length (uid_prefix c) = 8 \<and>
     CHR ''_'' \<notin> set (cr_UID (pod_ref c)) \<union> set (getPodClaimName c) \<and>
     list_all (slash_free (cr_UID (pod_ref c)) c) (claim_results c)"

lemma independentI:
  assumes "\<And>c. c \<in> C \<Longrightarrow> plain_claim c"
    and "\<And>c c'. c \<in> C \<Longrightarrow> c' \<in> C \<Longrightarrow> rc_UID c \<noteq> rc_UID c' \<Longrightarrow>
      uid_prefix c \<noteq> uid_prefix c' \<and> (cr_UID (pod_ref c), getPodClaimName c) \<noteq> (cr_UID (pod_ref c'), getPodClaimName c')"
  shows "independent C"
  unfolding independent_def
proof (intro conjI ballI impI)
  fix c assume c: "c \<in> C"
  show "CHR ''/'' \<notin> set (rc_UID c)" using assms(1) [OF c] by (simp add: plain_claim_def)
  show "pairwise separate (claim_dirs c)"
    unfolding claim_dirs_def by (rule claim_dirs_separate) (use assms(1) [OF c] in \<open>simp add: plain_claim_def\<close>)
  fix c' assume c': "c' \<in> C" and ne: "rc_UID c \<noteq> rc_UID c'"
  note p = assms(1) [OF c] assms(1) [OF c'] and d = assms(2) [OF c c' ne]
  have "port_name c r \<noteq> port_name c' r'" for r r'
    using p d by (simp add: port_name_def plain_claim_def uid_prefix_def append_eq_append_conv)
  then show "claim_ports c \<inter> claim_ports c' = {}" by (auto simp: claim_ports_def)
  fix q q' assume "q \<in> claim_dirs c" "q' \<in> claim_dirs c'"
  then obtain r r' where r: "r \<in> set (claim_results c)" "r' \<in> set (claim_results c')" and q: "q = claim_dir c r" "q' = claim_dir c' r'"
    by (auto simp: claim_dirs_def)
  have "slash_free (cr_UID (pod_ref c)) c r" "slash_free (cr_UID (pod_ref c')) c' r'"
    using p r by (simp_all add: plain_claim_def list_all_iff)
  with p d show "unrelated q q'" unfolding q claim_dir_def
    by (intro getSocketDir_unrelated) (auto simp: plain_claim_def)
qed

section \<open>The invariant\<close>

locale claim_node =
  driver_node lib calls tables cdi cspecs env shape + stack: driver_stack db codec content backoff env lib cdi client obs
  for lib :: "('op, 'res, 'db) libovsdb" and calls :: "'op list \<Rightarrow> ovs_call list" and tables :: "'db \<Rightarrow> ovs_tables"
    and cdi :: "'c cdi_lib" and cspecs :: "'c \<Rightarrow> string \<rightharpoonup> Spec" and env :: os_env
    and shape :: "('db, 'c, 's, 'k) node itself"
    and db :: "('v, 's) bbolt" and codec :: "'v claim_codec" and content :: "'s \<Rightarrow> string \<rightharpoonup> (string \<rightharpoonup> 'v)"
    and backoff :: "('db, 'c, 's, 'k) node condition \<Rightarrow> ResourceClaim \<times> ('db, 'c, 's, 'k) node
                     \<Rightarrow> error option \<times> (ResourceClaim \<times> ('db, 'c, 's, 'k) node)"
    and client :: "'k kube_client" and obs :: "ResourceClaim \<Rightarrow> nat \<Rightarrow> DeviceState"
begin

abbreviation bknd :: "('db, 'c, 's, 'k) node backend" where "bknd \<equiv> node_backend env lib cdi"
abbreviation drv :: "(ResourceClaim \<Rightarrow> nat \<Rightarrow> DeviceState) \<Rightarrow> ('db, 'c, 's, 'k) node Driver" where
  "drv o' \<equiv> node_driver bknd db codec client backoff o'"
abbreviation stored :: "('db, 'c, 's, 'k) node \<Rightarrow> string \<rightharpoonup> PreparedDevice list" where
  "stored w \<equiv> stored_claims codec content (nd_store w)"

definition promise :: "ResourceClaim set \<Rightarrow> string set \<Rightarrow> ('db, 'c, 's, 'k) node \<Rightarrow> bool" where
  "promise C B w \<longleftrightarrow> wf_tables (tables (nd_db w)) \<and>
     (\<forall>u pds. has_checkpoint codec content w u pds \<longrightarrow>
        (\<exists>c \<in> C. rc_UID c = u \<and> made_for c pds) \<and> (u \<in> B \<or> in_place tables cspecs cdi u pds w))"

text \<open>A change confined to one claim keeps every promise to another.\<close>

lemma confined_in_place:
  assumes "independent C" and "c \<in> C" and "c' \<in> C" and "rc_UID c' \<noteq> rc_UID c" and "made_for c' pds"
    and "node.confined c w w'" and "in_place tables cspecs cdi (rc_UID c') pds w"
  shows "in_place tables cspecs cdi (rc_UID c') pds w'"
proof -
  have ap: "claim_ports c \<inter> claim_ports c' = {}" "\<And>p q. p \<in> claim_dirs c \<Longrightarrow> q \<in> claim_dirs c' \<Longrightarrow> unrelated p q"
    and sl: "CHR ''/'' \<notin> set (rc_UID c)" "CHR ''/'' \<notin> set (rc_UID c')"
    using assms(1-4) unfolding independent_def by metis+
  have m: "port_key pd \<in> claim_ports c'" "dir_key pd \<in> claim_dirs c'" if "pd \<in> set pds" for pd
    using assms(5) that by (auto simp: made_for_def list_all_iff)
  have n: "claim_spec_name cdi (rc_UID c') \<noteq> claim_spec_name cdi (rc_UID c)"
    using files.names [OF sl(2,1)] assms(4) by blast
  have "port_key pd \<in> attached_ports (tables (nd_db w')) \<longleftrightarrow> port_key pd \<in> attached_ports (tables (nd_db w))"
    "node_dir w' (dir_key pd) = node_dir w (dir_key pd)" if "pd \<in> set pds" for pd
    using assms(6) m [OF that] ap unfolding node.confined_def by blast+
  moreover have "has_bridge (tables (nd_db w')) = has_bridge (tables (nd_db w))"
    "cspecs (nd_cdi w') (claim_spec_name cdi (rc_UID c')) = cspecs (nd_cdi w) (claim_spec_name cdi (rc_UID c'))"
    using assms(6) n unfolding node.confined_def by simp_all
  ultimately show ?thesis using assms(7) by (simp add: in_place_def list_all_iff)
qed

lemma promise_confined:
  assumes "independent C" and "c \<in> C" and "node.confined c w w'" and "promise C B w"
    and "\<And>u. u \<noteq> rc_UID c \<Longrightarrow> stored w' u = stored w u"
    and "rc_UID c \<in> B \<and> stored w' (rc_UID c) = stored w (rc_UID c) \<or> (\<forall>pds. \<not> has_checkpoint codec content w' (rc_UID c) pds)"
  shows "promise C B w'"
  unfolding promise_def
proof (intro conjI allI impI)
  show "wf_tables (tables (nd_db w'))" using node.confined_sound [OF assms(3)] .
  fix u pds assume h: "has_checkpoint codec content w' u pds"
  have old: "has_checkpoint codec content w u pds"
    using h assms(5) [of u] assms(6) by (cases "u = rc_UID c") (auto simp: has_checkpoint_def)
  then obtain c' where c': "c' \<in> C" "rc_UID c' = u" "made_for c' pds" and p: "u \<in> B \<or> in_place tables cspecs cdi u pds w"
    using assms(4) unfolding promise_def by blast
  then show "\<exists>c \<in> C. rc_UID c = u \<and> made_for c pds" by blast
  show "u \<in> B \<or> in_place tables cspecs cdi u pds w'"
  proof (cases "u = rc_UID c")
    case True
    with h assms(6) show ?thesis by blast
  next
    case False
    with p c' confined_in_place [OF assms(1,2) c'(1) _ c'(3) assms(3)] show ?thesis by auto
  qed
qed

text \<open>The device state and the store work on different parts of the node.\<close>

lemma prepare_stored: "PrepareResourceClaim bknd o' c w = (r, c', w') \<Longrightarrow> nd_store w' = nd_store w"
  by (rule keeps_PrepareResourceClaim [OF keeps_node(1)])

lemma unprepare_stored: "UnprepareResourceClaim bknd pds w = (r, w') \<Longrightarrow> nd_store w' = nd_store w"
  by (rule keeps_UnprepareResourceClaim [OF keeps_node(1)])

lemma promise_parts:
  assumes "nd_db w' = nd_db w" and "nd_fs w' = nd_fs w" and "nd_cdi w' = nd_cdi w" and "stored w' = stored w"
  shows "promise C B w' = promise C B w"
  using assms by (simp add: promise_def has_checkpoint_def in_place_def)

lemma promise_status: "promise C B (driver_updateClaimStatus (drv o') c w) = promise C B w"
proof -
  note v = driver_stack.status_update_view [OF stack.driver_stack_axioms]
  show ?thesis by (rule promise_parts) (simp_all add: v [where view = nd_db] v [where view = nd_fs] v [where view = nd_cdi] v [where view = nd_store])
qed

lemma promise_new_checkpoint:
  assumes "independent C" and "c \<in> C" and "promise C B w" and "PrepareResourceClaim bknd o' c w = (Ok pds, c', w')"
    and "promise C B w'" and "preparedClaimStore_Set db codec (rc_UID c) pds (nd_store w') = (Ok (), s)"
  shows "promise C B (w'\<lparr>nd_store := s\<rparr>)"
proof -
  have wf: "wf_tables (tables (nd_db w))" using assms(3) by (simp add: promise_def)
  obtain al cfgs where al: "rc_Allocation c = Some al" and pc: "parseClaimConfigs (al_Config al) = Inr cfgs"
    using node.PrepareResourceClaim_ok [OF wf assms(4)] by metis
  note ps = node.prepare_success [OF wf assms(4) al pc]
  have pw: "pairwise separate (claim_dir c ` set (own_results (al_Results al)))"
    using assms(1,2) by (auto simp: independent_def claim_dirs_def claim_results_def al)
  have here: "in_place tables cspecs cdi (rc_UID c) pds w'"
    using ps(4-6) ps(8) [OF pw] by (auto simp: in_place_def list_all_iff)
  have st: "stored_claims codec content s = (stored w')(rc_UID c \<mapsto> pds)" by (rule stack.db.Set_ok [OF assms(6)])
  have made: "made_for c pds" using node.confined_PrepareResourceClaim(2) [OF wf assms(4)] by simp
  show ?thesis unfolding promise_def
  proof (intro conjI allI impI)
    show "wf_tables (tables (nd_db (w'\<lparr>nd_store := s\<rparr>)))" using assms(5) by (simp add: promise_def)
    fix u p assume h: "has_checkpoint codec content (w'\<lparr>nd_store := s\<rparr>) u p"
    then have "(u = rc_UID c \<and> p = pds) \<or> (u \<noteq> rc_UID c \<and> has_checkpoint codec content w' u p)"
      by (auto simp: has_checkpoint_def st split: if_splits)
    then show "\<exists>c \<in> C. rc_UID c = u \<and> made_for c p" "u \<in> B \<or> in_place tables cspecs cdi u p (w'\<lparr>nd_store := s\<rparr>)"
      using assms(2,5) made here by (auto simp: promise_def in_place_def)
  qed
qed

lemma promise_prepare_claims:
  assumes "independent C" and "set claims \<subseteq> C" and "promise C B w" and "prepare_claims (drv o') result claims w = (r, w')"
  shows "promise C B w'"
  using assms(2-4)
proof (induction claims arbitrary: result w)
  case Nil
  then show ?case by simp
next
  case (Cons c claims)
  have cC: "c \<in> C" "set claims \<subseteq> C" using Cons.prems(1) by simp_all
  have wf: "wf_tables (tables (nd_db w))" using Cons.prems(2) by (simp add: promise_def)
  consider (stop) "w' = w" | (cached) result' where "prepare_claims (drv o') result' claims w = (r, w')"
    | (fresh) "preparedClaimStore_Get db codec (rc_UID c) (nd_store w) = Ok []"
    using Cons.prems(3) by (auto simp: node_driver_def split: res.splits if_splits)
  then show ?case
  proof cases
    case fresh
    obtain x c' w1 where x: "PrepareResourceClaim bknd (o' c) c w = (x, c', w1)" by (metis prod_cases3)
    note con = node.confined_PrepareResourceClaim [OF wf x] and st = prepare_stored [OF x]
    have none: "\<not> has_checkpoint codec content w1 (rc_UID c) pds" for pds
      using stack.db.Get_ok [OF fresh] st by (auto simp: has_checkpoint_def split: option.splits)
    have p1: "promise C B w1" by (rule promise_confined [OF assms(1) cC(1) con(1) Cons.prems(2)]) (simp_all add: st none)
    show ?thesis
    proof (cases x)
      case (Ok pds)
      have made: "made_for c pds" using con(2) Ok by simp
      obtain y s where y: "preparedClaimStore_Set db codec (rc_UID c) pds (nd_store w1) = (y, s)" by fastforce
      show ?thesis
      proof (cases y)
        case (Ok z)
        have p2: "promise C B (w1\<lparr>nd_store := s\<rparr>)"
          using promise_new_checkpoint [OF assms(1) cC(1) Cons.prems(2) _ p1] x y \<open>x = Ok pds\<close> Ok by simp
        have "\<exists>result'. prepare_claims (drv o') result' claims (driver_updateClaimStatus (drv o') c' (w1\<lparr>nd_store := s\<rparr>)) = (r, w')"
          using Cons.prems(3) fresh x \<open>x = Ok pds\<close> y Ok by (auto simp: node_driver_def on_store_def)
        then show ?thesis using Cons.IH [OF cC(2)] p2 promise_status by blast
      next
        case (Err e)
        let ?v = "w1\<lparr>nd_store := s\<rparr>"
        obtain u w2 where u: "UnprepareResourceClaim bknd pds ?v = (u, w2)" by fastforce
        have sv: "stored ?v = stored w1" using stack.db.Set_err [OF y [unfolded Err]] by simp
        have pv: "promise C B ?v" using p1 promise_parts [of ?v w1] sv by simp
        then have "wf_tables (tables (nd_db ?v))" by (simp add: promise_def)
        note cu = node.confined_UnprepareResourceClaim [OF this made u] and su = unprepare_stored [OF u]
        have "promise C B w2"
          by (rule promise_confined [OF assms(1) cC(1) cu pv]) (use none sv su in \<open>simp_all add: has_checkpoint_def\<close>)
        moreover have "w' = w2"
          using Cons.prems(3) fresh x \<open>x = Ok pds\<close> y Err u by (cases u) (auto simp: node_driver_def on_store_def Let_def)
        ultimately show ?thesis by simp
      next
        case (Panic m)
        then show ?thesis using y stack.db.store.set_no_panic [of "rc_UID c" pds "nd_store w1" m] by (simp add: bolt_claim_store_def)
      qed
    qed (use Cons.prems(3) fresh x p1 in \<open>auto simp: node_driver_def\<close>)
  qed (use Cons cC in auto)
qed

lemma promise_unprepare_claims:
  assumes "independent C" and "no_UID ` set objs \<subseteq> B" and "promise C B w" and "unprepare_claims (drv o') result objs w = (r, w')"
  shows "promise C B w'"
  using assms(2-4)
proof (induction objs arbitrary: result w)
  case Nil
  then show ?case by simp
next
  case (Cons obj objs)
  let ?u = "no_UID obj"
  have sub: "?u \<in> B" "no_UID ` set objs \<subseteq> B" using Cons.prems(1) by simp_all
  consider (stop) "w' = w" | (unknown) result' where "unprepare_claims (drv o') result' objs w = (r, w')"
    | (known) pds where "preparedClaimStore_Get db codec ?u (nd_store w) = Ok pds" "pds \<noteq> []"
    using Cons.prems(3) by (auto simp: node_driver_def split: res.splits if_splits)
  then show ?case
  proof cases
    case (known pds)
    then have "has_checkpoint codec content w ?u pds"
      using stack.db.Get_ok [OF known(1)] by (auto simp: has_checkpoint_def split: option.splits)
    then obtain c where c: "c \<in> C" "rc_UID c = ?u" "made_for c pds" and wf: "wf_tables (tables (nd_db w))"
      using Cons.prems(2) unfolding promise_def by blast
    obtain x w1 where x: "UnprepareResourceClaim bknd pds w = (x, w1)" by fastforce
    note con = node.confined_UnprepareResourceClaim [OF wf c(3) x] and st = unprepare_stored [OF x]
    have p1: "promise C B w1" by (rule promise_confined [OF assms(1) c(1) con Cons.prems(2)]) (use sub c st in simp_all)
    show ?thesis
    proof (cases x)
      case (Ok z)
      obtain y s where y: "preparedClaimStore_Delete db ?u (nd_store w1) = (y, s)" by fastforce
      have sub_st: "stored_claims codec content s = (stored w1)(?u := None) \<or> stored_claims codec content s = stored w1"
      proof (cases y)
        case (Panic m)
        with y stack.db.store.delete_no_panic [of ?u "nd_store w1" m] show ?thesis by (simp add: bolt_claim_store_def)
      qed (use y in \<open>auto dest: stack.db.Delete_ok stack.db.Delete_err\<close>)
      then have "has_checkpoint codec content (w1\<lparr>nd_store := s\<rparr>) u p \<Longrightarrow> has_checkpoint codec content w1 u p" for u p
        by (auto simp: has_checkpoint_def split: if_splits)
      then have p2: "promise C B (w1\<lparr>nd_store := s\<rparr>)" using p1 by (simp add: promise_def in_place_def)
      consider "w' = w1\<lparr>nd_store := s\<rparr>" | result' where "unprepare_claims (drv o') result' objs (w1\<lparr>nd_store := s\<rparr>) = (r, w')"
        using Cons.prems(3) known x Ok y by (cases y) (auto simp: node_driver_def on_store_def)
      then show ?thesis using p2 Cons.IH [OF sub(2) p2] by cases auto
    next
      case (Err e)
      then have "\<exists>result'. unprepare_claims (drv o') result' objs w1 = (r, w')"
        using Cons.prems(3) known x by (auto simp: node_driver_def)
      with Cons.IH [OF sub(2) p1] show ?thesis by blast
    next
      case (Panic m)
      with Cons.prems(3) known x p1 show ?thesis by (auto simp: node_driver_def)
    qed
  qed (use Cons sub in auto)
qed

lemma promise_step:
  assumes "independent C" and "claim_step drv tables cspecs cdi codec content C s s'" and "promise C (snd s) (fst s)"
  shows "promise C (snd s') (fst s')"
  using assms(2,3)
proof (cases rule: claim_step.cases)
  case (prepare_called claims o' w r w' B)
  with assms(3) promise_prepare_claims [OF assms(1) prepare_called(3), of B w] show ?thesis by (simp add: PrepareResourceClaims_def)
next
  case (unprepare_called o' objs w r w' B)
  let ?B = "B \<union> no_UID ` set objs"
  have "promise C ?B w" using assms(3) unprepare_called(1) unfolding promise_def by auto
  from promise_unprepare_claims [OF assms(1) _ this unprepare_called(3) [unfolded UnprepareResourceClaims_def]]
  have "promise C ?B w'" by simp
  then show ?thesis unfolding unprepare_called(2) promise_def by auto
next
  case (changed_elsewhere w w' B)
  note sp = changed_elsewhere(3) [unfolded spares_def]
  show ?thesis unfolding promise_def changed_elsewhere(2) fst_conv snd_conv
  proof (intro conjI allI impI)
    show "wf_tables (tables (nd_db w'))" using sp assms(3) changed_elsewhere(1) by (simp add: promise_def)
    fix u pds assume "has_checkpoint codec content w' u pds"
    then have "has_checkpoint codec content w u pds" using sp by (simp add: has_checkpoint_def)
    then obtain c where c: "c \<in> C" "rc_UID c = u" "made_for c pds" and p: "u \<in> B \<or> in_place tables cspecs cdi u pds w"
      using assms(3) changed_elsewhere(1) unfolding promise_def by auto
    then show "\<exists>c \<in> C. rc_UID c = u \<and> made_for c pds" by blast
    have "port_key pd \<in> claim_ports c" "dir_key pd \<in> claim_dirs c" if "pd \<in> set pds" for pd
      using c(3) that by (auto simp: made_for_def list_all_iff)
    then have "in_place tables cspecs cdi u pds w \<Longrightarrow> in_place tables cspecs cdi u pds w'"
      using sp c(1) unfolding in_place_def list_all_iff c(2) [symmetric] by fastforce
    with p show "u \<in> B \<or> in_place tables cspecs cdi u pds w'" by blast
  qed
qed

lemma reachable_promise:
  assumes "claim_reachable drv tables cspecs cdi codec content C s" and "independent C"
  shows "promise C (snd s) (fst s)"
  using assms(1)
proof (induction rule: claim_reachable.induct)
  case (claim_start w)
  then show ?case by (simp add: promise_def has_checkpoint_def)
next
  case (claim_next s s')
  from promise_step [OF assms(2) claim_next(2,3)] show ?case .
qed

lemma reachable_in_place:
  assumes "claim_reachable drv tables cspecs cdi codec content C (w, B)" and "independent C"
    and "has_checkpoint codec content w u pds" and "u \<notin> B"
  shows "in_place tables cspecs cdi u pds w \<and> (\<exists>c \<in> C. rc_UID c = u \<and> made_for c pds)"
  using reachable_promise [OF assms(1,2)] assms(3,4) unfolding promise_def by auto

end

text \<open>
  C5. The checkpoints tell the truth: on a node where the kubelet prepares and unprepares
  claims in any order, with any failures of the store, the database, the file system and the
  CDI library on the way, every checkpointed claim has all its devices in place - each
  socket directory stands, each port is attached if its bridge exists, the CDI spec lists
  the devices - unless an attempt to unprepare this claim has failed. What happens to other
  claims never matters.
\<close>

theorem checkpointed_claims_in_place:
  assumes "driver_node lib calls tables cdi cspecs" and "driver_stack db codec content backoff" and "independent C"
    and "claim_reachable (node_driver (node_backend env lib cdi) db codec client backoff) tables cspecs cdi codec content C (w, B)"
    and "has_checkpoint codec content w u pds" and "u \<notin> B"
  shows "in_place tables cspecs cdi u pds w \<and> (\<exists>c \<in> C. rc_UID c = u \<and> made_for c pds)"
  using claim_node.reachable_in_place [OF claim_node.intro [OF assms(1,2)] assms(4,3,5,6)] .


section \<open>Two claims\<close>

interpretation sample_claim_node: claim_node ref_lib "\<lambda>cs. cs" "\<lambda>T. T" mem_cdi "\<lambda>m. m" env shape mem_bbolt mem_codec mem_content
    "attempts BackoffSteps" client obs
  for env client obs and shape :: "(ovs_tables, string \<rightharpoonup> Spec, mem_bolt, 'k) node itself"
  by unfold_locales

definition second_claim :: ResourceClaim where
  "second_claim = (sample_claim [sample_result ''br0'' ''net''])\<lparr>rc_Name := ''other'', rc_UID := ''ba98-7654-3210'',
     rc_ReservedFor := [\<lparr>cr_Name = ''pod2'', cr_UID = ''p-2''\<rparr>]\<rparr>"

definition two_claims :: "ResourceClaim list" where
  "two_claims = [sample_claim [sample_result ''br0'' ''net''], second_claim]"

lemma two_claims_independent: "independent (set two_claims)"
proof (rule independentI)
  show "plain_claim c" if "c \<in> set two_claims" for c
    using that by (auto simp: two_claims_def second_claim_def plain_claim_def uid_prefix_def claim_results_def sample_own slash_free_def
        sample_claim_def strings_RemoveAll_def pod_ref_def getPodClaimName_def sample_result_def own_results_def)
  show "uid_prefix c \<noteq> uid_prefix c' \<and> (cr_UID (pod_ref c), getPodClaimName c) \<noteq> (cr_UID (pod_ref c'), getPodClaimName c')"
    if "c \<in> set two_claims" "c' \<in> set two_claims" "rc_UID c \<noteq> rc_UID c'" for c c'
    using that by (auto simp: two_claims_def second_claim_def uid_prefix_def sample_claim_def strings_RemoveAll_def pod_ref_def)
qed

theorem checkpointed_claims_in_place_witness:
  "\<exists>w res pds. PrepareResourceClaims sample_driver sample_claims stack_node = (Ok (res, None), w)
     \<and> has_checkpoint mem_codec mem_content w ''0123-4567-89ab'' pds
     \<and> in_place (\<lambda>T. T) (\<lambda>m. m) mem_cdi ''0123-4567-89ab'' pds w"
proof -
  let ?D = "node_driver (node_backend calm_env ref_lib mem_cdi) mem_bbolt mem_codec
     (recording_client (\<lambda>_. None) (\<lambda>_. Inl (External ''unreachable''))) (attempts BackoffSteps)"
  let ?R = "claim_reachable ?D (\<lambda>T. T) (\<lambda>m. m) mem_cdi mem_codec mem_content (set two_claims)"
  obtain res w where p: "PrepareResourceClaims sample_driver sample_claims stack_node = (Ok (res, None), w)" by (rule sample_run_ok)
  note d = p [unfolded sample_driver_def]
  obtain pds where h: "has_checkpoint mem_codec mem_content w ''0123-4567-89ab'' pds"
    using driver_stack.prepare_checkpoints_law [OF sample_stack.driver_stack_axioms d [unfolded PrepareResourceClaims_def]]
    by (auto simp: sample_claims_def sample_claim_def)
  have "wf_tables (nd_db stack_node)" using sample_wf by (simp add: stack_node_def sample_node_def)
  moreover have "stored_claims mem_codec mem_content (nd_store stack_node) = Map.empty"
    by (simp add: stack_node_def stored_claims_def empty_bolt_def mem_content_def fun_eq_iff)
  ultimately have "?R (stack_node, {})" by (rule claim_start)
  moreover have "claim_step ?D (\<lambda>T. T) (\<lambda>m. m) mem_cdi mem_codec mem_content (set two_claims) (stack_node, {}) (w, {})"
    using d by (intro prepare_called [where obs = "\<lambda>_ _. sample_state" and claims = sample_claims])
      (simp_all add: sample_claims_def two_claims_def)
  ultimately have "?R (w, {})" by (rule claim_next)
  from checkpointed_claims_in_place [OF ref_node.driver_node_axioms sample_stack.driver_stack_axioms two_claims_independent this h]
  have "in_place (\<lambda>T. T) (\<lambda>m. m) mem_cdi ''0123-4567-89ab'' pds w" by simp
  with p h show ?thesis by blast
qed

end
