(* ===== verification/DevicePlugin.thy ===== *)
theory DevicePlugin
  imports ApiTypes
begin

text \<open>
  \<^verbatim>\<open>pkg/deviceplugin\<close>: the topology Device Plugins. A server (\<^verbatim>\<open>deviceplugin_server.go\<close>)
  advertises devices on one NUMA node over a unix socket; the manager (\<^verbatim>\<open>manager.go\<close>) runs
  one server per topology resource whose bridges agree on a NUMA node. The kubelet and
  the gRPC library are parameters; unix sockets are modelled as far as the code uses them.
\<close>

section \<open>Sockets and the kubelet\<close>

record RegisterRequest =
  rr_Version :: string
  rr_Endpoint :: string
  rr_ResourceName :: string

text \<open>
  What the node does at each instant: faults of \<^verbatim>\<open>os.Remove\<close> and \<^verbatim>\<open>net.Listen\<close>, errors of
  \<^verbatim>\<open>grpc.NewClient\<close>, and the answers of the kubelet to a registration. \<open>DevicePluginPath\<close>
  and \<open>KubeletSocket\<close> are constants of the kubelet API.
\<close>

record dp_env =
  DevicePluginPath :: string
  KubeletSocket :: string
  pluginapi_Version :: string
  remove_fault :: "nat \<Rightarrow> string \<Rightarrow> string option"
  listen_fault :: "nat \<Rightarrow> string \<Rightarrow> string option"
  dial_fault :: "nat \<Rightarrow> string \<Rightarrow> string option"
  kubelet_answer :: "nat \<Rightarrow> RegisterRequest \<Rightarrow> error option"

text \<open>The socket files, the paths that a gRPC server serves, and the registrations that the kubelet accepted.\<close>

record dp_host =
  socket_files :: "string set"
  serving :: "string set"
  registrations :: "RegisterRequest list"
  dp_clock :: nat

definition dp_tick :: "dp_host \<Rightarrow> dp_host" where
  "dp_tick h = h\<lparr>dp_clock := Suc (dp_clock h)\<rparr>"

datatype rm_error = NotExist | RemoveFailed string

definition os_Remove :: "dp_env \<Rightarrow> string \<Rightarrow> dp_host \<Rightarrow> rm_error option \<times> dp_host" where
  "os_Remove env p h =
     (case remove_fault env (dp_clock h) p of
        Some e \<Rightarrow> (Some (RemoveFailed e), dp_tick h)
      | None \<Rightarrow> if p \<in> socket_files h then (None, (dp_tick h)\<lparr>socket_files := socket_files h - {p}\<rparr>)
                else (Some NotExist, dp_tick h))"

text \<open>Binding fails on an existing file and on a path that does not fit into \<^verbatim>\<open>sun_path\<close> (108 bytes with the final zero).\<close>

definition net_Listen :: "dp_env \<Rightarrow> string \<Rightarrow> dp_host \<Rightarrow> error option \<times> dp_host" where
  "net_Listen env p h =
     (case listen_fault env (dp_clock h) p of
        Some e \<Rightarrow> (Some (External e), dp_tick h)
      | None \<Rightarrow> if length p \<ge> 108 then (Some (External ''bind: invalid argument''), dp_tick h)
                else if p \<in> socket_files h then (Some (External ''bind: address already in use''), dp_tick h)
                else (None, (dp_tick h)\<lparr>socket_files := insert p (socket_files h)\<rparr>))"

text \<open>Stopping a gRPC server closes its listener, which unlinks the socket.\<close>

definition grpc_Serve :: "string \<Rightarrow> dp_host \<Rightarrow> dp_host" where
  "grpc_Serve p h = h\<lparr>serving := insert p (serving h)\<rparr>"

definition grpc_Stop :: "string \<Rightarrow> dp_host \<Rightarrow> dp_host" where
  "grpc_Stop p h = h\<lparr>serving := serving h - {p}, socket_files := socket_files h - {p}\<rparr>"

section \<open>Server\<close>

record Server =
  srv_resourceName :: string
  srv_numaNode :: int
  srv_deviceCount :: nat
  srv_socketPath :: string
  srv_grpcServer :: bool

definition socketPath :: "dp_env \<Rightarrow> string \<Rightarrow> string" where
  "socketPath env resourceName = filepath_Join [DevicePluginPath env, after_last (CHR ''/'') resourceName @ ''.sock'']"

definition newServer :: "dp_env \<Rightarrow> string \<Rightarrow> int \<Rightarrow> nat \<Rightarrow> Server" where
  "newServer env resourceName numaNode deviceCount =
     \<lparr>srv_resourceName = resourceName, srv_numaNode = numaNode, srv_deviceCount = deviceCount,
      srv_socketPath = socketPath env resourceName, srv_grpcServer = False\<rparr>"

definition Server_Register :: "dp_env \<Rightarrow> Server \<Rightarrow> dp_host \<Rightarrow> error option \<times> dp_host" where
  "Server_Register env s h =
     (case dial_fault env (dp_clock h) (''unix://'' @ KubeletSocket env) of
        Some e \<Rightarrow> (Some (Errorf ''dial kubelet socket: %w'' [] [External e]), dp_tick h)
      | None \<Rightarrow>
          (let req = \<lparr>rr_Version = pluginapi_Version env, rr_Endpoint = filepath_Base (srv_socketPath s),
                      rr_ResourceName = srv_resourceName s\<rparr>
           in case kubelet_answer env (dp_clock h) req of
                Some err \<Rightarrow> (Some err, dp_tick h)
              | None \<Rightarrow> (None, (dp_tick h)\<lparr>registrations := registrations h @ [req]\<rparr>)))"

definition Server_Start :: "dp_env \<Rightarrow> Server \<Rightarrow> dp_host \<Rightarrow> error option \<times> Server \<times> dp_host" where
  "Server_Start env s h =
     (case os_Remove env (srv_socketPath s) h of
        (Some (RemoveFailed e), h1) \<Rightarrow>
          (Some (Errorf ''remove stale socket %q: %w'' [AStr (srv_socketPath s)] [External e]), s, h1)
      | (_, h1) \<Rightarrow>
          (case net_Listen env (srv_socketPath s) h1 of
             (Some err, h2) \<Rightarrow> (Some (Errorf ''listen on %q: %w'' [AStr (srv_socketPath s)] [err]), s, h2)
           | (None, h2) \<Rightarrow>
               (let s' = s\<lparr>srv_grpcServer := True\<rparr>;
                    h3 = grpc_Serve (srv_socketPath s) h2
                in case Server_Register env s' h3 of
                     (Some err, h4) \<Rightarrow>
                       (Some (Errorf ''register with kubelet: %w'' [] [err]), s',
                        snd (os_Remove env (srv_socketPath s) (grpc_Stop (srv_socketPath s) h4)))
                   | (None, h4) \<Rightarrow> (None, s', h4))))"

text \<open>
  The goroutine that \<^verbatim>\<open>Start\<close> leaves behind: when the context ends it stops the gRPC server,
  at some moment before or after the calls below.
\<close>

definition Server_context_done :: "Server \<Rightarrow> dp_host \<Rightarrow> dp_host" where
  "Server_context_done s h = grpc_Stop (srv_socketPath s) h"

text \<open>A graceful stop that takes too long is followed by a forced one; both end the server.\<close>

definition Server_Stop :: "dp_env \<Rightarrow> Server \<Rightarrow> dp_host \<Rightarrow> dp_host" where
  "Server_Stop env s h =
     (let h1 = (if srv_grpcServer s then grpc_Stop (srv_socketPath s) h else h)
      in snd (os_Remove env (srv_socketPath s) h1))"

definition GetNUMA :: "Server \<Rightarrow> int" where
  "GetNUMA s = srv_numaNode s"

record PluginDevice =
  pdev_ID :: string
  pdev_Healthy :: bool
  pdev_NUMANodes :: "int list"

definition Server_devices :: "Server \<Rightarrow> PluginDevice list" where
  "Server_devices s =
     map (\<lambda>i. \<lparr>pdev_ID = ''device-'' @ fmt_nat i, pdev_Healthy = True, pdev_NUMANodes = [GetNUMA s]\<rparr>) [0..<srv_deviceCount s]"

text \<open>\<^verbatim>\<open>ListAndWatch\<close> sends the list once; \<open>send\<close> is the stream.\<close>

definition ListAndWatch :: "Server \<Rightarrow> (PluginDevice list \<Rightarrow> 'w \<Rightarrow> error option \<times> 'w) \<Rightarrow> 'w \<Rightarrow> error option \<times> 'w" where
  "ListAndWatch s send w = (case send (Server_devices s) w of (Some err, w') \<Rightarrow> (Some err, w') | (None, w') \<Rightarrow> (None, w'))"

text \<open>One empty response per container request; a response is the unit here.\<close>

definition Allocate :: "'req list \<Rightarrow> unit list" where
  "Allocate reqs = map (\<lambda>_. ()) reqs"

section \<open>Manager\<close>

record Manager =
  topology :: "string \<rightharpoonup> string"
  servers :: "string \<rightharpoonup> Server"

definition new_Manager :: Manager where
  "new_Manager = \<lparr>topology = Map.empty, servers = Map.empty\<rparr>"

text \<open>\<open>nodes\<close> is \<^verbatim>\<open>BridgeNUMANodes\<close> of the OVS client; \<open>result\<close> is the node agreed so far.\<close>

fun consistent_numa :: "(string \<Rightarrow> int list) \<Rightarrow> int \<Rightarrow> string list \<Rightarrow> int" where
  "consistent_numa nodes result [] = result"
| "consistent_numa nodes result (br # brs) =
     (case nodes br of
        [] \<Rightarrow> - 1
      | [numaNode] \<Rightarrow>
          if numaNode < 0 then - 1
          else if result < 0 then consistent_numa nodes numaNode brs
          else if result \<noteq> numaNode then - 1
          else consistent_numa nodes result brs
      | _ \<Rightarrow> - 1)"

definition getConsistentNUMA :: "(string \<Rightarrow> int list) \<Rightarrow> string list \<Rightarrow> int" where
  "getConsistentNUMA nodes brNames = consistent_numa nodes (- 1) brNames"

definition start_server ::
  "dp_env \<Rightarrow> string \<Rightarrow> int \<Rightarrow> Manager \<Rightarrow> dp_host \<Rightarrow> error option \<times> Manager \<times> dp_host" where
  "start_server env resName numaNode m h =
     (case Server_Start env (newServer env resName numaNode DefaultTopologyDeviceCount) h of
        (Some err, _, h') \<Rightarrow> (Some err, m, h')
      | (None, srv, h') \<Rightarrow> (None, m\<lparr>servers := (servers m)(resName \<mapsto> srv)\<rparr>, h'))"

definition ensureServer ::
  "dp_env \<Rightarrow> (string \<Rightarrow> int list) \<Rightarrow> string \<Rightarrow> string list \<Rightarrow> Manager \<Rightarrow> dp_host \<Rightarrow> error option \<times> Manager \<times> dp_host" where
  "ensureServer env nodes resName brNames m h =
     (let numaNode = getConsistentNUMA nodes brNames
      in case servers m resName of
           Some srv \<Rightarrow>
             if GetNUMA srv = numaNode then (None, m, h)
             else
               (let h1 = Server_Stop env srv h;
                    m1 = m\<lparr>servers := (servers m)(resName := None)\<rparr>
                in if numaNode < 0 then (None, m1, h1) else start_server env resName numaNode m1 h1)
         | None \<Rightarrow> if numaNode < 0 then (None, m, h) else start_server env resName numaNode m h)"

text \<open>The first loop of \<^verbatim>\<open>UpdateResources\<close>: the topology and the bridges of each resource.\<close>

fun build_topology ::
  "(string \<rightharpoonup> string) \<Rightarrow> (string \<rightharpoonup> string list) \<Rightarrow> BridgeSpec list \<Rightarrow> error + (string \<rightharpoonup> string) \<times> (string \<rightharpoonup> string list)" where
  "build_topology topo byRes [] = Inr (topo, byRes)"
| "build_topology topo byRes (b # bs) =
     (if TopologyResource b = [] then build_topology topo byRes bs
      else
        (let resName = TopologyResourcePrefix @ TopologyResource b
         in case topo (bs_Name b) of
              Some existing \<Rightarrow>
                if existing \<noteq> resName then
                  Inl (Errorf ''bridge %q has conflicting topology resources: %q and %q''
                         [AStr (bs_Name b), AStr existing, AStr resName] [])
                else build_topology topo byRes bs
            | None \<Rightarrow>
                build_topology (topo(bs_Name b \<mapsto> resName))
                  (byRes(resName \<mapsto> (case byRes resName of None \<Rightarrow> [] | Some brs \<Rightarrow> brs) @ [bs_Name b])) bs))"

text \<open>The loop that stops the servers of resources that are gone, and \<^verbatim>\<open>StopAll\<close>; \<open>order\<close> is the order of the range.\<close>

fun stop_servers :: "dp_env \<Rightarrow> (string \<Rightarrow> bool) \<Rightarrow> string list \<Rightarrow> Manager \<Rightarrow> dp_host \<Rightarrow> Manager \<times> dp_host" where
  "stop_servers env gone [] m h = (m, h)"
| "stop_servers env gone (resName # order) m h =
     (case servers m resName of
        None \<Rightarrow> stop_servers env gone order m h
      | Some srv \<Rightarrow>
          if gone resName
          then stop_servers env gone order (m\<lparr>servers := (servers m)(resName := None)\<rparr>) (Server_Stop env srv h)
          else stop_servers env gone order m h)"

fun ensure_all ::
  "dp_env \<Rightarrow> (string \<Rightarrow> int list) \<Rightarrow> (string \<rightharpoonup> string list) \<Rightarrow> string list \<Rightarrow> Manager \<Rightarrow> dp_host \<Rightarrow> error list \<times> Manager \<times> dp_host" where
  "ensure_all env nodes byRes [] m h = ([], m, h)"
| "ensure_all env nodes byRes (resName # order) m h =
     (case ensureServer env nodes resName (case byRes resName of None \<Rightarrow> [] | Some brs \<Rightarrow> brs) m h of
        (e, m1, h1) \<Rightarrow>
          (case ensure_all env nodes byRes order m1 h1 of
             (errs, m2, h2) \<Rightarrow>
               ((case e of None \<Rightarrow> [] | Some err \<Rightarrow> [Errorf ''resource %s: %w'' [AStr resName] [err]]) @ errs, m2, h2)))"

definition UpdateResources ::
  "dp_env \<Rightarrow> (string \<Rightarrow> int list) \<Rightarrow> string list \<Rightarrow> string list \<Rightarrow> BridgeSpec list \<Rightarrow> Manager \<Rightarrow> dp_host
   \<Rightarrow> error option \<times> Manager \<times> dp_host" where
  "UpdateResources env nodes order1 order2 bridges m h =
     (case build_topology Map.empty Map.empty bridges of
        Inl err \<Rightarrow> (Some err, m, h)
      | Inr (newTopology, resourceBridges) \<Rightarrow>
          (case stop_servers env (\<lambda>r. resourceBridges r = None) order1 (m\<lparr>topology := newTopology\<rparr>) h of
             (m1, h1) \<Rightarrow>
               (case ensure_all env nodes resourceBridges order2 m1 h1 of
                  (errs, m2, h2) \<Rightarrow> (errors_Join errs, m2, h2))))"

text \<open>The error is only logged.\<close>

definition OnInterfaceChange ::
  "dp_env \<Rightarrow> (string \<Rightarrow> int list) \<Rightarrow> string list \<Rightarrow> string \<Rightarrow> Manager \<Rightarrow> dp_host \<Rightarrow> Manager \<times> dp_host" where
  "OnInterfaceChange env nodes order brName m h =
     (case topology m brName of
        None \<Rightarrow> (m, h)
      | Some resName \<Rightarrow>
          (case ensureServer env nodes resName (filter (\<lambda>br. topology m br = Some resName) order) m h of
             (_, m', h') \<Rightarrow> (m', h')))"

definition StopAll :: "dp_env \<Rightarrow> string list \<Rightarrow> Manager \<Rightarrow> dp_host \<Rightarrow> Manager \<times> dp_host" where
  "StopAll env order m h = stop_servers env (\<lambda>_. True) order m h"

text \<open>The end of the context as the goroutines of some of the servers have seen it.\<close>

fun contexts_done :: "string list \<Rightarrow> Manager \<Rightarrow> dp_host \<Rightarrow> dp_host" where
  "contexts_done [] m h = h"
| "contexts_done (resName # rs) m h =
     (case servers m resName of
        None \<Rightarrow> contexts_done rs m h
      | Some srv \<Rightarrow> contexts_done rs m (Server_context_done srv h))"

fun reregisterAll :: "dp_env \<Rightarrow> string list \<Rightarrow> Manager \<Rightarrow> dp_host \<Rightarrow> dp_host" where
  "reregisterAll env [] m h = h"
| "reregisterAll env (resName # order) m h =
     (case servers m resName of
        None \<Rightarrow> reregisterAll env order m h
      | Some srv \<Rightarrow> reregisterAll env order m (snd (Server_Register env srv h)))"

text \<open>The resources for which \<^verbatim>\<open>reregisterAll\<close> logs that the registration failed.\<close>

fun reregister_failures :: "dp_env \<Rightarrow> string list \<Rightarrow> Manager \<Rightarrow> dp_host \<Rightarrow> string list" where
  "reregister_failures env [] m h = []"
| "reregister_failures env (resName # order) m h =
     (case servers m resName of
        None \<Rightarrow> reregister_failures env order m h
      | Some srv \<Rightarrow>
          (case Server_Register env srv h of
             (Some err, h') \<Rightarrow> resName # reregister_failures env order m h'
           | (None, h') \<Rightarrow> reregister_failures env order m h'))"

text \<open>An event of the file watcher: \<open>created\<close> is its \<^verbatim>\<open>Create\<close> bit.\<close>

definition kubelet_watch_event :: "dp_env \<Rightarrow> string list \<Rightarrow> bool \<Rightarrow> string \<Rightarrow> Manager \<Rightarrow> dp_host \<Rightarrow> dp_host" where
  "kubelet_watch_event env order created name m h =
     (if created \<and> filepath_Base name = filepath_Base (KubeletSocket env) then reregisterAll env order m h else h)"

lemmas deviceplugin_defs [go_defs] =
  dp_tick_def os_Remove_def net_Listen_def grpc_Serve_def grpc_Stop_def socketPath_def newServer_def
  Server_Register_def Server_Start_def Server_Stop_def Server_context_done_def GetNUMA_def Server_devices_def Allocate_def
  new_Manager_def getConsistentNUMA_def start_server_def ensureServer_def UpdateResources_def
  OnInterfaceChange_def StopAll_def kubelet_watch_event_def


section \<open>Lemmas on the server\<close>

text \<open>Joining below a directory that is written with a final slash.\<close>

lemma filepath_Join_trailing_slash:
  assumes "\<forall>c \<in> set cs. plain_comp c" and "cs \<noteq> []" and "plain_comp x"
  shows "filepath_Join [abs_path cs @ ''/'', x] = abs_path cs @ CHR ''/'' # x"
proof -
  have ds: "cs @ [[], x] \<noteq> []" "\<forall>d \<in> set (cs @ [[], x]). CHR ''/'' \<notin> set d"
    using assms by (auto simp: plain_comp_def)
  have j: "strings_Join ''/'' [abs_path cs @ ''/'', x] = abs_path (cs @ [[], x])"
    using abs_path_snoc [OF assms(2), of "[]"] abs_path_snoc [of "cs @ [[]]" x] by simp
  have "strings_Split (CHR ''/'') (abs_path (cs @ [[], x])) = [] # cs @ [[], x]"
    using strings_Split_Join [OF ds] by (simp add: abs_path_def)
  moreover have "clean_comps True [] ([] # cs @ [[], x]) = cs @ [x]"
  proof -
    have "clean_comps r acc (cs' @ [[], x]) = rev acc @ cs' @ [x]" if "\<forall>c \<in> set cs'. plain_comp c" for r acc cs'
      using that assms(3) by (induction cs' arbitrary: acc) (auto simp: plain_comp_def)
    with assms(1) show ?thesis by simp
  qed
  ultimately have "filepath_Clean (abs_path (cs @ [[], x])) = abs_path (cs @ [x])"
    by (simp add: filepath_Clean_def) (simp add: abs_path_def is_rooted_def)
  with j show ?thesis using abs_path_snoc [OF assms(2)] by (simp add: filepath_Join_def abs_path_def)
qed

text \<open>What the CRD validation of \<^verbatim>\<open>topologyResource\<close> gives, and what the kubelet API documents about its directory.\<close>

definition valid_suffix :: "string \<Rightarrow> bool" where
  "valid_suffix suf \<longleftrightarrow> suf \<noteq> [] \<and> length suf \<le> 63 \<and> CHR ''/'' \<notin> set suf"

definition plugin_dir :: "dp_env \<Rightarrow> string list \<Rightarrow> bool" where
  "plugin_dir env cs \<longleftrightarrow> DevicePluginPath env = abs_path cs @ ''/'' \<and> cs \<noteq> [] \<and> list_all plain_comp cs"

lemma socketPath_eq:
  assumes "plugin_dir env cs" and "valid_suffix suf"
  shows "socketPath env (TopologyResourcePrefix @ suf) = DevicePluginPath env @ suf @ ''.sock''"
proof -
  have "after_last (CHR ''/'') (TopologyResourcePrefix @ suf) = suf"
    using assms(2) after_last_append [of "CHR ''/''" suf DriverName] by (simp add: TopologyResourcePrefix_def valid_suffix_def)
  moreover have "plain_comp (suf @ ''.sock'')"
    using assms(2) by (auto simp: valid_suffix_def plain_comp_def append_eq_Cons_conv)
  ultimately show ?thesis
    using assms(1) filepath_Join_trailing_slash [of cs "suf @ ''.sock''"] by (simp add: socketPath_def plugin_dir_def list_all_iff)
qed

section \<open>Properties of the server\<close>

text \<open>
  The validated suffix \<open>kubelet\<close> gives the path of the kubelet's registration socket, which
  the kubelet API documents as \<^verbatim>\<open>kubelet.sock\<close> in its directory: \<^verbatim>\<open>Start\<close> removes that socket first.
\<close>

lemma kubelet_socket_taken:
  assumes "plugin_dir env cs" and "KubeletSocket env = DevicePluginPath env @ ''kubelet.sock''"
  shows "socketPath env (TopologyResourcePrefix @ ''kubelet'') = KubeletSocket env"
  using socketPath_eq [OF assms(1), of "''kubelet''"] assms(2) by (simp add: valid_suffix_def)

text \<open>
  C40. The socket of a validated topology resource lies directly in the kubelet's directory,
  fits into a unix socket address when that directory's name has at most 39 characters
  (it has 32), and belongs to no other topology resource. The kubelet's own socket lies in
  the same directory, though: the suffix \<open>kubelet\<close> takes its path (\<open>kubelet_socket_taken\<close>).
\<close>

theorem socketPath_fits:
  assumes "plugin_dir env cs" and "length (DevicePluginPath env) \<le> 39" and "valid_suffix suf" and "valid_suffix suf'"
  shows "length (socketPath env (TopologyResourcePrefix @ suf)) < 108
    \<and> filepath_Base (socketPath env (TopologyResourcePrefix @ suf)) = suf @ ''.sock''
    \<and> (socketPath env (TopologyResourcePrefix @ suf) = socketPath env (TopologyResourcePrefix @ suf') \<longleftrightarrow> suf = suf')"
proof -
  have "plain_comp (suf @ ''.sock'')"
    using assms(3) by (auto simp: valid_suffix_def plain_comp_def append_eq_Cons_conv)
  then have "filepath_Base (abs_path cs @ CHR ''/'' # suf @ ''.sock'') = suf @ ''.sock''" by (rule filepath_Base_abs_path)
  then have "filepath_Base (DevicePluginPath env @ suf @ ''.sock'') = suf @ ''.sock''"
    using assms(1) by (simp add: plugin_dir_def)
  with assms show ?thesis by (simp add: socketPath_eq valid_suffix_def)
qed

definition kubelet_env :: dp_env where
  "kubelet_env = \<lparr>DevicePluginPath = ''/var/lib/kubelet/device-plugins/'', KubeletSocket = ''/var/lib/kubelet/device-plugins/kubelet.sock'',
     pluginapi_Version = ''v1beta1'', remove_fault = (\<lambda>_ _. None), listen_fault = (\<lambda>_ _. None), dial_fault = (\<lambda>_ _. None),
     kubelet_answer = (\<lambda>_ _. None)\<rparr>"

lemma kubelet_dir: "plugin_dir kubelet_env [''var'', ''lib'', ''kubelet'', ''device-plugins'']"
  by (simp add: plugin_dir_def kubelet_env_def abs_path_def plain_comp_def)

theorem socketPath_fits_witness:
  "length (socketPath kubelet_env (TopologyResourcePrefix @ ''numa0'')) < 108
   \<and> socketPath kubelet_env (TopologyResourcePrefix @ ''numa0'') \<noteq> socketPath kubelet_env (TopologyResourcePrefix @ ''numa1'')"
  using socketPath_fits [OF kubelet_dir, of "''numa0''" "''numa1''"] by (simp add: kubelet_env_def valid_suffix_def)

text \<open>
  The devices that a server announces: exactly as many as configured, with pairwise
  different identifiers, all healthy and all on the NUMA node of the server; an allocation
  request gets one response per container.
\<close>

theorem Server_devices_shape:
  "length (Server_devices s) = srv_deviceCount s \<and> distinct (map pdev_ID (Server_devices s))
   \<and> list_all (\<lambda>d. pdev_Healthy d \<and> pdev_NUMANodes d = [GetNUMA s]) (Server_devices s)
   \<and> length (Allocate reqs) = length reqs"
  by (simp add: Server_devices_def list_all_iff Allocate_def distinct_map inj_on_def comp_def)

section \<open>Consistent NUMA node\<close>

lemma consistent_numa_pos:
  "0 \<le> r \<Longrightarrow> consistent_numa nodes r brs = (if list_all (\<lambda>b. nodes b = [r]) brs then r else - 1)"
  by (induction brs) (auto split: list.splits)

text \<open>The bridges, as a set, all have the one node \<open>k\<close>.\<close>

definition agree :: "(string \<Rightarrow> int list) \<Rightarrow> string set \<Rightarrow> int \<Rightarrow> bool" where
  "agree nodes B k \<longleftrightarrow> 0 \<le> k \<and> B \<noteq> {} \<and> (\<forall>b \<in> B. nodes b = [k])"

lemma getConsistentNUMA_agree: "agree nodes (set brs) k \<Longrightarrow> getConsistentNUMA nodes brs = k"
proof (cases brs)
  case (Cons b bs)
  assume "agree nodes (set brs) k"
  with Cons show ?thesis by (simp add: agree_def getConsistentNUMA_def consistent_numa_pos list_all_iff)
qed (simp add: agree_def)

lemma getConsistentNUMA_disagree: "(\<And>k. \<not> agree nodes (set brs) k) \<Longrightarrow> getConsistentNUMA nodes brs = - 1"
proof (cases brs)
  case (Cons b bs)
  assume no: "\<And>k. \<not> agree nodes (set brs) k"
  show ?thesis
  proof (cases "\<exists>k \<ge> 0. nodes b = [k]")
    case True
    then obtain k where "0 \<le> k" "nodes b = [k]" by blast
    with no [of k] Cons show ?thesis
      by (auto simp: agree_def getConsistentNUMA_def consistent_numa_pos list_all_iff)
  next
    case False
    with Cons show ?thesis by (auto simp: getConsistentNUMA_def split: list.splits)
  qed
qed (simp add: getConsistentNUMA_def)

text \<open>
  C31. \<^verbatim>\<open>getConsistentNUMA\<close> gives node \<open>k\<close> exactly when there are bridges and every one of them
  has interfaces on \<open>k\<close> only, with \<open>k\<close> not negative; in all other cases (a bridge without
  interfaces, with several nodes, with an unknown node, or two bridges that disagree) it
  gives -1. The order of the bridges does not matter.
\<close>

theorem getConsistentNUMA_spec:
  "getConsistentNUMA nodes brs = k \<longleftrightarrow>
     (if \<exists>n. agree nodes (set brs) n then agree nodes (set brs) k else k = - 1)"
proof (cases "\<exists>n. agree nodes (set brs) n")
  case True
  then obtain n where n: "agree nodes (set brs) n" by blast
  then have "agree nodes (set brs) k \<longleftrightarrow> k = n" by (auto simp: agree_def)
  with True getConsistentNUMA_agree [OF n] show ?thesis by auto
next
  case False
  with getConsistentNUMA_disagree [of nodes brs] show ?thesis by auto
qed

end
