(* ===== verification/PluginManager.thy ===== *)
theory PluginManager
  imports DevicePlugin
begin

text \<open>
  Correctness of the manager of \<^verbatim>\<open>pkg/deviceplugin/manager.go\<close>: the topology that a bridge
  list describes, an invariant that ties the manager's servers to the sockets and the
  registrations, what \<^verbatim>\<open>UpdateResources\<close> establishes, and the manager as a state machine
  under any order of events.
\<close>

section \<open>The topology of a bridge list\<close>

text \<open>The bridges that the list assigns to a resource.\<close>

definition wanted :: "BridgeSpec list \<Rightarrow> string \<Rightarrow> string set" where
  "wanted bridges r =
     {bs_Name b | b. b \<in> set bridges \<and> TopologyResource b \<noteq> [] \<and> r = TopologyResourcePrefix @ TopologyResource b}"

definition conflicting :: "BridgeSpec list \<Rightarrow> bool" where
  "conflicting bridges \<longleftrightarrow> (\<exists>b r r'. b \<in> wanted bridges r \<and> b \<in> wanted bridges r' \<and> r \<noteq> r')"

text \<open>The two maps agree, and a resource that is listed has a bridge.\<close>

definition grouped :: "(string \<rightharpoonup> string) \<Rightarrow> (string \<rightharpoonup> string list) \<Rightarrow> bool" where
  "grouped topo byRes \<longleftrightarrow>
     (\<forall>r. byRes r \<noteq> Some [] \<and> set (case byRes r of None \<Rightarrow> [] | Some brs \<Rightarrow> brs) = {b. topo b = Some r})"

lemma grouped_add:
  assumes "grouped topo byRes" and "topo b = None"
  shows "grouped (topo(b \<mapsto> r)) (byRes(r \<mapsto> (case byRes r of None \<Rightarrow> [] | Some brs \<Rightarrow> brs) @ [b]))"
  using assms unfolding grouped_def by auto

lemma grouped_None: "grouped topo byRes \<Longrightarrow> byRes r = None \<longleftrightarrow> {b. topo b = Some r} = {}"
  unfolding grouped_def by (metis list.set(1) option.case(1) option.case(2) option.exhaust set_empty)

lemma wanted_Cons:
  "wanted (b # bs) r = wanted bs r \<union>
     (if TopologyResource b \<noteq> [] \<and> r = TopologyResourcePrefix @ TopologyResource b then {bs_Name b} else {})"
  by (auto simp: wanted_def)

lemma wanted_mono: "wanted bs r \<subseteq> wanted (b # bs) r"
  by (auto simp: wanted_def)

lemma build_topology_ok:
  assumes "build_topology topo byRes bs = Inr (topo', byRes')" and "grouped topo byRes"
  shows "grouped topo' byRes' \<and> (\<forall>b r. topo' b = Some r \<longleftrightarrow> topo b = Some r \<or> b \<in> wanted bs r)"
  using assms
proof (induction bs arbitrary: topo byRes)
  case Nil
  then show ?case by (simp add: wanted_def)
next
  case (Cons b bs)
  show ?case
  proof (cases "TopologyResource b = []")
    case True
    with Cons.prems(1) have "build_topology topo byRes bs = Inr (topo', byRes')" by simp
    from Cons.IH [OF this Cons.prems(2)] True show ?thesis by (simp add: wanted_Cons)
  next
    case False
    let ?r = "TopologyResourcePrefix @ TopologyResource b"
    show ?thesis
    proof (cases "topo (bs_Name b)")
      case None
      let ?byRes = "byRes(?r \<mapsto> (case byRes ?r of None \<Rightarrow> [] | Some brs \<Rightarrow> brs) @ [bs_Name b])"
      have "build_topology (topo(bs_Name b \<mapsto> ?r)) ?byRes bs = Inr (topo', byRes')"
        using Cons.prems(1) False None by (simp add: Let_def)
      from Cons.IH [OF this grouped_add [OF Cons.prems(2) None]] None False
      show ?thesis by (auto simp: wanted_Cons)
    next
      case (Some r)
      with Cons.prems(1) False have "r = ?r" and "build_topology topo byRes bs = Inr (topo', byRes')"
        by (simp_all add: Let_def split: if_splits)
      with Cons.IH [OF _ Cons.prems(2)] Some False show ?thesis by (auto simp: wanted_Cons)
    qed
  qed
qed

lemma build_topology_conflict:
  assumes "build_topology topo byRes bs = Inl err"
  shows "\<exists>b r r'. (topo b = Some r \<or> b \<in> wanted bs r) \<and> b \<in> wanted bs r' \<and> r \<noteq> r'"
  using assms
proof (induction bs arbitrary: topo byRes)
  case (Cons b bs)
  let ?r = "TopologyResourcePrefix @ TopologyResource b"
  show ?case
  proof (cases "TopologyResource b = [] \<or> topo (bs_Name b) = Some ?r")
    case True
    with Cons.prems have "build_topology topo byRes bs = Inl err" by (auto simp: Let_def split: if_splits)
    from Cons.IH [OF this] wanted_mono [of bs _ b] show ?thesis by blast
  next
    case False
    show ?thesis
    proof (cases "topo (bs_Name b)")
      case None
      with Cons.prems False have "build_topology (topo(bs_Name b \<mapsto> ?r))
          (byRes(?r \<mapsto> (case byRes ?r of None \<Rightarrow> [] | Some brs \<Rightarrow> brs) @ [bs_Name b])) bs = Inl err"
        by (simp add: Let_def)
      from Cons.IH [OF this] obtain n r r' where
        n: "(topo(bs_Name b \<mapsto> ?r)) n = Some r \<or> n \<in> wanted bs r" "n \<in> wanted bs r'" "r \<noteq> r'" by blast
      have "topo n = Some r \<or> n \<in> wanted (b # bs) r" "n \<in> wanted (b # bs) r'"
        using n False by (auto simp: wanted_Cons split: if_splits)
      with n(3) show ?thesis by blast
    next
      case (Some r)
      from False have "bs_Name b \<in> wanted (b # bs) ?r" by (simp add: wanted_Cons)
      with Some False show ?thesis by (metis option.inject)
    qed
  qed
qed simp

text \<open>The first loop of \<^verbatim>\<open>UpdateResources\<close> fails exactly on a conflict, else it gives the assignment of the list.\<close>

lemma build_topology_fails_iff:
  "(\<exists>err. build_topology Map.empty Map.empty bs = Inl err) \<longleftrightarrow> conflicting bs"
proof
  assume "\<exists>err. build_topology Map.empty Map.empty bs = Inl err"
  then show "conflicting bs" using build_topology_conflict unfolding conflicting_def by fastforce
next
  assume c: "conflicting bs"
  show "\<exists>err. build_topology Map.empty Map.empty bs = Inl err"
  proof (cases "build_topology Map.empty Map.empty bs")
    case (Inr p)
    then obtain topo byRes where "build_topology Map.empty Map.empty bs = Inr (topo, byRes)" by (cases p) simp
    from build_topology_ok [OF this] have "topo b = Some r \<longleftrightarrow> b \<in> wanted bs r" for b r by (simp add: grouped_def)
    with c show ?thesis unfolding conflicting_def by (metis option.inject)
  qed simp
qed

lemma build_topology_spec:
  assumes "build_topology Map.empty Map.empty bs = Inr (topo, byRes)"
  shows "topo b = Some r \<longleftrightarrow> b \<in> wanted bs r"
    and "byRes r = None \<longleftrightarrow> wanted bs r = {}"
    and "set (case byRes r of None \<Rightarrow> [] | Some brs \<Rightarrow> brs) = wanted bs r"
proof -
  from build_topology_ok [OF assms] have g: "grouped topo byRes" and t: "\<And>b r. topo b = Some r \<longleftrightarrow> b \<in> wanted bs r"
    by (simp_all add: grouped_def)
  show "topo b = Some r \<longleftrightarrow> b \<in> wanted bs r" by (rule t)
  from grouped_None [OF g] t show "byRes r = None \<longleftrightarrow> wanted bs r = {}" by simp
  from g t show "set (case byRes r of None \<Rightarrow> [] | Some brs \<Rightarrow> brs) = wanted bs r" by (simp add: grouped_def)
qed

section \<open>Servers on the host\<close>

text \<open>The kubelet has accepted a registration of the resource with the name of its socket.\<close>

definition registered :: "dp_env \<Rightarrow> string \<Rightarrow> dp_host \<Rightarrow> bool" where
  "registered env r h \<longleftrightarrow>
     \<lparr>rr_Version = pluginapi_Version env, rr_Endpoint = filepath_Base (socketPath env r), rr_ResourceName = r\<rparr>
       \<in> set (registrations h)"

definition running_server :: "dp_env \<Rightarrow> string \<Rightarrow> int \<Rightarrow> Server" where
  "running_server env r k = (newServer env r k DefaultTopologyDeviceCount)\<lparr>srv_grpcServer := True\<rparr>"

lemma running_server_fields [simp]:
  "srv_socketPath (running_server env r k) = socketPath env r" "srv_grpcServer (running_server env r k)"
  "GetNUMA (running_server env r k) = k" "srv_resourceName (running_server env r k) = r"
  by (simp_all add: running_server_def newServer_def GetNUMA_def)

lemma os_Remove_keeps [simp]:
  "serving (snd (os_Remove env p h)) = serving h" "registrations (snd (os_Remove env p h)) = registrations h"
  by (simp_all add: os_Remove_def dp_tick_def split: option.split)

lemma net_Listen_keeps [simp]:
  "serving (snd (net_Listen env p h)) = serving h" "registrations (snd (net_Listen env p h)) = registrations h"
  by (simp_all add: net_Listen_def dp_tick_def split: option.split)

lemma Server_Stop_effect [simp]:
  "srv_grpcServer s \<Longrightarrow> serving (Server_Stop env s h) = serving h - {srv_socketPath s}"
  "registrations (Server_Stop env s h) = registrations h"
  by (simp_all add: Server_Stop_def grpc_Stop_def)

lemma Server_Register_effect:
  assumes "Server_Register env s h = (e, h')"
  shows "serving h' = serving h \<and> set (registrations h) \<subseteq> set (registrations h') \<and>
    (e = None \<and> srv_socketPath s = socketPath env (srv_resourceName s) \<longrightarrow> registered env (srv_resourceName s) h')"
  using assms by (auto simp: Server_Register_def dp_tick_def registered_def Let_def split: option.splits)

lemma newServer_Start:
  assumes "Server_Start env (newServer env r k DefaultTopologyDeviceCount) h = (e, s, h')"
  shows "set (registrations h) \<subseteq> set (registrations h')"
    and "e = None \<Longrightarrow> s = running_server env r k \<and> serving h' = insert (socketPath env r) (serving h) \<and> registered env r h'"
    and "e \<noteq> None \<Longrightarrow> socketPath env r \<notin> serving h \<Longrightarrow> serving h' = serving h"
proof -
  let ?s = "newServer env r k DefaultTopologyDeviceCount"
  obtain e1 h1 where r: "os_Remove env (socketPath env r) h = (e1, h1)" by (cases "os_Remove env (socketPath env r) h")
  obtain e2 h2 where l: "net_Listen env (socketPath env r) h1 = (e2, h2)" by (cases "net_Listen env (socketPath env r) h1")
  let ?h3 = "grpc_Serve (socketPath env r) h2"
  obtain e4 h4 where g: "Server_Register env (running_server env r k) ?h3 = (e4, h4)"
    by (cases "Server_Register env (running_server env r k) ?h3")
  have k: "serving h1 = serving h" "registrations h1 = registrations h" "serving h2 = serving h" "registrations h2 = registrations h"
    using os_Remove_keeps [of env "socketPath env r" h] net_Listen_keeps [of env "socketPath env r" h1] r l by simp_all
  note g' = Server_Register_effect [OF g]
  have p [simp]: "srv_socketPath ?s = socketPath env r" by (simp add: newServer_def)
  have start: "(e, s, h') =
     (case e1 of
        Some (RemoveFailed m) \<Rightarrow> (Some (Errorf ''remove stale socket %q: %w'' [AStr (socketPath env r)] [External m]), ?s, h1)
      | _ \<Rightarrow> (case e2 of
           Some err \<Rightarrow> (Some (Errorf ''listen on %q: %w'' [AStr (socketPath env r)] [err]), ?s, h2)
         | None \<Rightarrow> (case e4 of
              Some err \<Rightarrow> (Some (Errorf ''register with kubelet: %w'' [] [err]), running_server env r k,
                           snd (os_Remove env (socketPath env r) (grpc_Stop (socketPath env r) h4)))
            | None \<Rightarrow> (None, running_server env r k, h4))))"
    using assms g by (simp add: Server_Start_def r l running_server_def Let_def split: option.splits rm_error.splits)
  show "set (registrations h) \<subseteq> set (registrations h')"
    using start k g' by (auto simp: grpc_Serve_def grpc_Stop_def split: option.splits rm_error.splits)
  show "e = None \<Longrightarrow> s = running_server env r k \<and> serving h' = insert (socketPath env r) (serving h) \<and> registered env r h'"
    using start k g' by (auto simp: grpc_Serve_def split: option.splits rm_error.splits)
  show "e \<noteq> None \<Longrightarrow> socketPath env r \<notin> serving h \<Longrightarrow> serving h' = serving h"
    using start k g' by (auto simp: grpc_Serve_def grpc_Stop_def split: option.splits rm_error.splits)
qed

section \<open>The invariant of the manager\<close>

definition valid_res :: "string \<Rightarrow> bool" where
  "valid_res r \<longleftrightarrow> (\<exists>suf. valid_suffix suf \<and> r = TopologyResourcePrefix @ suf)"

lemma socketPath_inj:
  assumes "plugin_dir env cs" and "valid_res r" and "valid_res r'" and "socketPath env r = socketPath env r'"
  shows "r = r'"
  using assms by (auto simp: valid_res_def socketPath_eq)

text \<open>
  Every server runs, is registered with the kubelet, and is filed under its own resource;
  the sockets that are served are exactly theirs. The resources in \<open>lost\<close> may lack their
  registration: a kubelet that restarts forgets it.
\<close>

definition mgr_inv_except :: "string set \<Rightarrow> dp_env \<Rightarrow> Manager \<Rightarrow> dp_host \<Rightarrow> bool" where
  "mgr_inv_except lost env m h \<longleftrightarrow>
     (\<forall>r s. servers m r = Some s \<longrightarrow> s = running_server env r (GetNUMA s) \<and> 0 \<le> GetNUMA s \<and> valid_res r \<and> (r \<notin> lost \<longrightarrow> registered env r h)) \<and>
     serving h = socketPath env ` dom (servers m) \<and> finite (dom (servers m))"

abbreviation mgr_inv :: "dp_env \<Rightarrow> Manager \<Rightarrow> dp_host \<Rightarrow> bool" where
  "mgr_inv \<equiv> mgr_inv_except {}"

text \<open>A server that is started again is registered again: what remains lost after a change of the servers.\<close>

definition unrenewed :: "string set \<Rightarrow> Manager \<Rightarrow> Manager \<Rightarrow> string set" where
  "unrenewed lost m m' = {r \<in> lost. servers m' r = servers m r}"

lemma unrenewed_simps [simp]:
  "unrenewed {} m m' = {}" "unrenewed lost m m = lost" "unrenewed lost (m\<lparr>topology := t\<rparr>) m' = unrenewed lost m m'"
  by (simp_all add: unrenewed_def)

lemma mgr_inv_mono: "mgr_inv_except lost env m h \<Longrightarrow> lost \<subseteq> lost' \<Longrightarrow> mgr_inv_except lost' env m h"
  by (auto simp: mgr_inv_except_def)

lemma unrenewed_trans:
  assumes "mgr_inv_except (unrenewed (unrenewed lost m m1) m1 m') env m' h"
  shows "mgr_inv_except (unrenewed lost m m') env m' h"
  using assms by (rule mgr_inv_mono) (auto simp: unrenewed_def)

lemma mgr_invD:
  assumes "mgr_inv_except lost env m h" and "servers m r = Some s"
  shows "s = running_server env r (GetNUMA s)" "0 \<le> GetNUMA s" "valid_res r" "r \<notin> lost \<Longrightarrow> registered env r h"
  using assms by (simp_all add: mgr_inv_except_def)

lemma mgr_inv_topology [simp]: "mgr_inv_except lost env (m\<lparr>topology := t\<rparr>) h \<longleftrightarrow> mgr_inv_except lost env m h"
  by (simp add: mgr_inv_except_def)

lemma registered_mono: "registered env r h \<Longrightarrow> set (registrations h) \<subseteq> set (registrations h') \<Longrightarrow> registered env r h'"
  by (auto simp: registered_def)

lemma not_served:
  assumes "mgr_inv_except lost env m h" and "plugin_dir env cs" and "valid_res r" and "servers m r = None"
  shows "socketPath env r \<notin> serving h"
proof
  assume "socketPath env r \<in> serving h"
  then obtain r' where r': "r' \<in> dom (servers m)" "socketPath env r = socketPath env r'"
    using assms(1) by (auto simp: mgr_inv_except_def)
  then have "valid_res r'" using assms(1) by (auto simp: mgr_inv_except_def)
  with socketPath_inj [OF assms(2,3) _ r'(2)] r'(1) assms(4) show False by (simp add: domIff)
qed

lemma stop_server_inv:
  assumes "mgr_inv_except lost env m h" and "plugin_dir env cs" and "servers m r = Some s"
  shows "mgr_inv_except (lost - {r}) env (m\<lparr>servers := (servers m)(r := None)\<rparr>) (Server_Stop env s h)"
proof -
  note s = mgr_invD [OF assms(1,3)]
  have "serving (Server_Stop env s h) = serving h - {socketPath env r}"
    using s(1) by (metis Server_Stop_effect(1) running_server_fields(1,2))
  also have "\<dots> = socketPath env ` (dom (servers m) - {r})"
  proof -
    have "inj_on (socketPath env) (dom (servers m))"
      using assms(1) socketPath_inj [OF assms(2)] by (auto simp: inj_on_def mgr_inv_except_def)
    then show ?thesis using assms(1,3) by (auto simp: mgr_inv_except_def inj_on_def)
  qed
  finally show ?thesis using assms(1) by (auto simp: mgr_inv_except_def registered_def)
qed

lemma start_server_inv:
  assumes "mgr_inv_except lost env m h" and "plugin_dir env cs" and "valid_res r" and "servers m r = None"
    and "0 \<le> k" and "start_server env r k m h = (e, m', h')"
  shows "mgr_inv_except (unrenewed lost m m') env m' h' \<and> topology m' = topology m \<and>
    servers m' = (servers m)(r := if e = None then Some (running_server env r k) else None)"
proof -
  obtain e1 s1 h1 where st: "Server_Start env (newServer env r k DefaultTopologyDeviceCount) h = (e1, s1, h1)"
    by (metis surj_pair)
  note new = newServer_Start [OF st]
  show ?thesis
  proof (cases e1)
    case None
    with assms(6) st have eq: "e = None" "m' = m\<lparr>servers := (servers m)(r \<mapsto> s1)\<rparr>" "h' = h1"
      by (simp_all add: start_server_def)
    from new(2) [OF None] have s1: "s1 = running_server env r k" "serving h1 = insert (socketPath env r) (serving h)" "registered env r h1" by simp_all
    have "mgr_inv_except (unrenewed lost m m') env m' h'"
      unfolding mgr_inv_except_def using assms(1,3,5) s1 eq registered_mono [OF _ new(1)] by (auto simp: mgr_inv_except_def unrenewed_def)
    with eq s1(1) show ?thesis by simp
  next
    case (Some err)
    with assms(6) st have eq: "e = Some err" "m' = m" "h' = h1" by (simp_all add: start_server_def)
    from new(3) Some not_served [OF assms(1-4)] have "serving h1 = serving h" by simp
    then have "mgr_inv_except lost env m h1" using assms(1) registered_mono [OF _ new(1)] by (auto simp: mgr_inv_except_def)
    moreover have "servers m = (servers m)(r := None)" using assms(4) by auto
    ultimately show ?thesis using eq by simp
  qed
qed

lemma ensureServer_inv:
  assumes "mgr_inv_except lost env m h" and "plugin_dir env cs" and "valid_res r"
    and "ensureServer env nodes r brs m h = (e, m', h')"
  shows "mgr_inv_except (unrenewed lost m m') env m' h' \<and> topology m' = topology m \<and> (\<forall>r'. r' \<noteq> r \<longrightarrow> servers m' r' = servers m r') \<and>
    (\<forall>s. servers m' r = Some s \<longrightarrow> e = None \<and> agree nodes (set brs) (GetNUMA s)) \<and>
    (servers m' r = None \<and> e = None \<longrightarrow> (\<forall>k. \<not> agree nodes (set brs) k))"
proof -
  let ?k = "getConsistentNUMA nodes brs"
  have k: "(0 \<le> ?k \<longrightarrow> agree nodes (set brs) ?k) \<and> (?k < 0 \<longrightarrow> (\<forall>n. \<not> agree nodes (set brs) n))"
    using getConsistentNUMA_agree [of nodes brs] getConsistentNUMA_disagree [of nodes brs]
    by (metis agree_def linorder_not_le zero_neq_neg_one neg_0_le_iff_le not_one_le_zero)
  have main: "mgr_inv_except (unrenewed lost m m') env m' h' \<and> topology m' = topology m \<and> (\<forall>r'. r' \<noteq> r \<longrightarrow> servers m' r' = servers m r') \<and>
    (\<forall>s. servers m' r = Some s \<longrightarrow> e = None \<and> agree nodes (set brs) (GetNUMA s)) \<and>
    (servers m' r = None \<and> e = None \<longrightarrow> (\<forall>k. \<not> agree nodes (set brs) k))"
    if "mgr_inv_except (lost - {r}) env m1 h1" "servers m1 = (servers m)(r := None)" "topology m1 = topology m"
      "(if ?k < 0 then (None, m1, h1) else start_server env r ?k m1 h1) = (e, m', h')" for m1 h1
  proof (cases "?k < 0")
    case True
    then have eq: "m' = m1" "h' = h1" "e = None" using that(4) by simp_all
    have "mgr_inv_except (unrenewed lost m m1) env m1 h1"
      using that(1) by (rule mgr_inv_mono) (auto simp: unrenewed_def that(2))
    with eq True that(2,3) k show ?thesis by simp
  next
    case False
    have S: "mgr_inv_except (unrenewed (lost - {r}) m1 m') env m' h' \<and> topology m' = topology m1 \<and>
      servers m' = (servers m1)(r := if e = None then Some (running_server env r ?k) else None)"
      using start_server_inv [OF that(1) assms(2,3), of ?k e m' h'] False that(2,4) by simp
    then have "mgr_inv_except (unrenewed lost m m') env m' h'"
      by (elim conjE mgr_inv_mono) (auto simp: unrenewed_def that(2))
    with S False that(2,3) k show ?thesis by (auto split: if_splits)
  qed
  show ?thesis
  proof (cases "servers m r")
    case None
    then have "(servers m)(r := None) = servers m" by auto
    moreover have "mgr_inv_except (lost - {r}) env m h" using assms(1) None by (auto simp: mgr_inv_except_def)
    ultimately show ?thesis using main [of m h] assms(4) None by (simp add: ensureServer_def Let_def)
  next
    case (Some s)
    show ?thesis
    proof (cases "GetNUMA s = ?k")
      case True
      with Some assms(4) have eq: "e = None" "m' = m" "h' = h" by (simp_all add: ensureServer_def)
      have "0 \<le> ?k" using mgr_invD(2) [OF assms(1) Some] True by simp
      with eq Some True assms(1) k show ?thesis by simp
    next
      case False
      with Some assms(4) main [OF stop_server_inv [OF assms(1,2) Some]] show ?thesis
        by (simp add: ensureServer_def Let_def)
    qed
  qed
qed

lemma stop_servers_inv:
  assumes "mgr_inv_except lost env m h" and "plugin_dir env cs" and "stop_servers env gone order m h = (m', h')"
  shows "mgr_inv_except (unrenewed lost m m') env m' h' \<and> topology m' = topology m \<and>
    servers m' = (\<lambda>r. if gone r \<and> r \<in> set order then None else servers m r)"
  using assms(1,3)
proof (induction order arbitrary: lost m h)
  case (Cons r order)
  show ?case
  proof (cases "servers m r")
    case None
    with Cons.prems Cons.IH [of lost m h] show ?thesis by (auto simp: fun_eq_iff)
  next
    case (Some s)
    show ?thesis
    proof (cases "gone r")
      case True
      let ?m1 = "m\<lparr>servers := (servers m)(r := None)\<rparr>"
      note IH = Cons.IH [OF stop_server_inv [OF Cons.prems(1) assms(2) Some]]
      have "servers m' = (\<lambda>q. if gone q \<and> q \<in> set (r # order) then None else servers m q)" "topology m' = topology m"
        using Some True Cons.prems(2) IH by (auto simp: fun_eq_iff)
      moreover have "mgr_inv_except (unrenewed (lost - {r}) ?m1 m') env m' h'" using Some True Cons.prems(2) IH by simp
      then have "mgr_inv_except (unrenewed lost m m') env m' h'" by (rule mgr_inv_mono) (auto simp: unrenewed_def)
      ultimately show ?thesis by blast
    next
      case False
      with Some Cons.prems Cons.IH [of lost m h] show ?thesis by (auto simp: fun_eq_iff)
    qed
  qed
qed simp

text \<open>What the manager owes to a resource with the bridges \<open>B\<close>: a server on the node that they agree on, or no server; with \<open>strict\<close> the server is there.\<close>

definition serves :: "(string \<Rightarrow> int list) \<Rightarrow> string set \<Rightarrow> bool \<Rightarrow> Manager \<Rightarrow> string \<Rightarrow> bool" where
  "serves nodes B strict m r \<longleftrightarrow>
     (\<forall>s. servers m r = Some s \<longrightarrow> agree nodes B (GetNUMA s)) \<and>
     (strict \<and> servers m r = None \<longrightarrow> (\<forall>k. \<not> agree nodes B k))"

lemma ensureServer_serves:
  assumes "mgr_inv_except lost env m h" and "plugin_dir env cs" and "valid_res r"
    and "ensureServer env nodes r brs m h = (e, m', h')"
  shows "mgr_inv_except (unrenewed lost m m') env m' h'" "topology m' = topology m" "r' \<noteq> r \<Longrightarrow> servers m' r' = servers m r'"
    "serves nodes (set brs) (e = None) m' r"
  using ensureServer_inv [OF assms] by (auto simp: serves_def)

lemma serves_cong: "servers m' r = servers m r \<Longrightarrow> serves nodes B b m' r = serves nodes B b m r"
  by (simp add: serves_def)

lemma ensure_all_inv:
  assumes "mgr_inv_except lost env m h" and "plugin_dir env cs" and "\<forall>r \<in> set order. valid_res r" and "distinct order"
    and "ensure_all env nodes byRes order m h = (errs, m', h')"
  shows "mgr_inv_except (unrenewed lost m m') env m' h' \<and> topology m' = topology m \<and> (\<forall>r. r \<notin> set order \<longrightarrow> servers m' r = servers m r) \<and>
    (\<forall>r \<in> set order. serves nodes (set (case byRes r of None \<Rightarrow> [] | Some brs \<Rightarrow> brs)) (errs = []) m' r)"
  using assms(1,3-5)
proof (induction order arbitrary: lost m h errs m' h')
  case (Cons r order)
  let ?brs = "\<lambda>r. case byRes r of None \<Rightarrow> [] | Some brs \<Rightarrow> brs"
  obtain e m1 h1 where e: "ensureServer env nodes r (?brs r) m h = (e, m1, h1)" by (metis surj_pair)
  obtain errs2 m2 h2 where a: "ensure_all env nodes byRes order m1 h1 = (errs2, m2, h2)" by (metis surj_pair)
  have eq: "errs = (case e of None \<Rightarrow> [] | Some err \<Rightarrow> [Errorf ''resource %s: %w'' [AStr r] [err]]) @ errs2" "m' = m2" "h' = h2"
    using Cons.prems(4) e a by simp_all
  note first = ensureServer_serves [OF Cons.prems(1) assms(2) _ e]
  have v: "valid_res r" using Cons.prems(2) by simp
  have rest: "mgr_inv_except (unrenewed (unrenewed lost m m1) m1 m2) env m2 h2 \<and> topology m2 = topology m1 \<and> (\<forall>r. r \<notin> set order \<longrightarrow> servers m2 r = servers m1 r) \<and>
    (\<forall>r \<in> set order. serves nodes (set (?brs r)) (errs2 = []) m2 r)"
    using Cons.IH [OF first(1) [OF v] _ _ a] Cons.prems(2,3) by simp
  have "serves nodes (set (?brs r)) (errs = []) m2 r"
  proof -
    have "servers m2 r = servers m1 r" using rest Cons.prems(3) by simp
    moreover have "errs = [] \<longrightarrow> e = None" using eq(1) by (cases e) simp_all
    ultimately show ?thesis using first(4) [OF v] by (auto simp: serves_def)
  qed
  moreover have "serves nodes (set (?brs r')) (errs = []) m2 r'" if "r' \<in> set order" for r'
    using rest that eq(1) by (auto simp: serves_def)
  moreover have "mgr_inv_except (unrenewed lost m m2) env m2 h2" using rest by (intro unrenewed_trans [of lost m m1]) simp
  ultimately show ?case using rest first(2,3) [OF v] eq Cons.prems(3) by auto
qed simp

section \<open>UpdateResources\<close>

definition valid_list :: "BridgeSpec list \<Rightarrow> bool" where
  "valid_list bridges \<longleftrightarrow> list_all (\<lambda>b. TopologyResource b = [] \<or> valid_suffix (TopologyResource b)) bridges"

lemma wanted_valid: "valid_list bridges \<Longrightarrow> wanted bridges r \<noteq> {} \<Longrightarrow> valid_res r"
  by (auto simp: valid_list_def wanted_def valid_res_def list_all_iff)

text \<open>\<open>order1\<close> and \<open>order2\<close> are possible orders of the two ranges.\<close>

definition update_orders :: "BridgeSpec list \<Rightarrow> Manager \<Rightarrow> string list \<Rightarrow> string list \<Rightarrow> bool" where
  "update_orders bridges m order1 order2 \<longleftrightarrow>
     range_order (servers m) order1 \<and> distinct order2 \<and> set order2 = {r. wanted bridges r \<noteq> {}}"

lemma UpdateResources_conflict:
  "conflicting bridges \<Longrightarrow> \<exists>err. UpdateResources env nodes order1 order2 bridges m h = (Some err, m, h)"
  using build_topology_fails_iff [of bridges] by (auto simp: UpdateResources_def)

lemma UpdateResources_inv:
  assumes "mgr_inv_except lost env m h" and "plugin_dir env cs" and "valid_list bridges" and "update_orders bridges m order1 order2"
    and "\<not> conflicting bridges" and "UpdateResources env nodes order1 order2 bridges m h = (e, m', h')"
  shows "mgr_inv_except (unrenewed lost m m') env m' h'" "topology m' b = Some r \<longleftrightarrow> b \<in> wanted bridges r" "serves nodes (wanted bridges r) (e = None) m' r"
proof -
  obtain topo byRes where t: "build_topology Map.empty Map.empty bridges = Inr (topo, byRes)"
    using assms(5) build_topology_fails_iff [of bridges] by (metis old.sum.exhaust surj_pair)
  note T = build_topology_spec [OF t]
  obtain m1 h1 where s: "stop_servers env (\<lambda>r. byRes r = None) order1 (m\<lparr>topology := topo\<rparr>) h = (m1, h1)" by fastforce
  obtain errs m2 h2 where a: "ensure_all env nodes byRes order2 m1 h1 = (errs, m2, h2)" by (metis surj_pair)
  have eq: "e = errors_Join errs" "m' = m2" "h' = h2" using assms(6) t s a by (simp_all add: UpdateResources_def)
  have e: "errs = [] \<longleftrightarrow> e = None" using eq(1) by (simp add: errors_Join_def)
  have o1: "set order1 = dom (servers m)" and o2: "distinct order2" "set order2 = {r. wanted bridges r \<noteq> {}}"
    using assms(4) by (simp_all add: update_orders_def range_order_def)
  have st: "mgr_inv_except (unrenewed lost m m1) env m1 h1" "topology m1 = topo" "wanted bridges r = {} \<Longrightarrow> servers m1 r = None" for r
  proof -
    have "mgr_inv_except lost env (m\<lparr>topology := topo\<rparr>) h" using assms(1) by simp
    from stop_servers_inv [OF this assms(2) s] o1 T(2)
    show "mgr_inv_except (unrenewed lost m m1) env m1 h1" "topology m1 = topo" "wanted bridges r = {} \<Longrightarrow> servers m1 r = None" by (auto simp: domIff)
  qed
  have "\<forall>r \<in> set order2. valid_res r" using o2(2) wanted_valid [OF assms(3)] by simp
  from ensure_all_inv [OF st(1) assms(2) this o2(1) a]
  have all: "mgr_inv_except (unrenewed (unrenewed lost m m1) m1 m2) env m2 h2" "topology m2 = topo" "\<And>r. r \<notin> set order2 \<Longrightarrow> servers m2 r = servers m1 r"
    "\<And>r. r \<in> set order2 \<Longrightarrow> serves nodes (wanted bridges r) (errs = []) m2 r"
    using st(2) T(3) by simp_all
  show "mgr_inv_except (unrenewed lost m m') env m' h'" using unrenewed_trans [OF all(1)] eq by simp
  show "topology m' b = Some r \<longleftrightarrow> b \<in> wanted bridges r" using all(2) eq T(1) by simp
  show "serves nodes (wanted bridges r) (e = None) m' r"
  proof (cases "wanted bridges r = {}")
    case True
    then have "servers m2 r = None" using all(3) [of r] st(3) o2(2) by simp
    with True eq(2) show ?thesis by (simp add: serves_def agree_def)
  next
    case False
    with all(4) [of r] o2(2) e eq(2) show ?thesis by simp
  qed
qed

text \<open>
  C16. \<^verbatim>\<open>UpdateResources\<close> brings the topology Device Plugins in line with the bridge list:
  without an error, exactly those resources are announced whose bridges all lie on one
  known NUMA node, each with that node, and their sockets are exactly the ones that are
  served; every server is registered, but for those that had lost their registration before
  and were kept. With an error, a list that gives a bridge two resources has changed nothing;
  else the new assignment is in force and no resource is announced with a wrong node.
\<close>

theorem UpdateResources_spec:
  assumes "mgr_inv_except lost env m h" and "plugin_dir env cs" and "valid_list bridges" and "update_orders bridges m order1 order2"
    and "UpdateResources env nodes order1 order2 bridges m h = (e, m', h')"
  shows "(if conflicting bridges then e \<noteq> None \<and> m' = m \<and> h' = h
     else mgr_inv_except (unrenewed lost m m') env m' h' \<and> (\<forall>b r. topology m' b = Some r \<longleftrightarrow> b \<in> wanted bridges r) \<and>
       (\<forall>r s. servers m' r = Some s \<longrightarrow> agree nodes (wanted bridges r) (GetNUMA s)) \<and>
       (e = None \<longrightarrow> (\<forall>r k. agree nodes (wanted bridges r) k \<longrightarrow> map_option GetNUMA (servers m' r) = Some k)))"
proof (cases "conflicting bridges")
  case True
  with UpdateResources_conflict [OF True, of env nodes order1 order2 m h] assms(5) show ?thesis by auto
next
  case False
  note U = UpdateResources_inv [OF assms(1-4) False assms(5)]
  have "map_option GetNUMA (servers m' r) = Some k" if "agree nodes (wanted bridges r) k" "e = None" for r k
  proof -
    from U(3) [of r] that obtain s where s: "servers m' r = Some s" "agree nodes (wanted bridges r) (GetNUMA s)"
      by (cases "servers m' r") (auto simp: serves_def)
    moreover have "GetNUMA s = k" using s(2) that(1) by (auto simp: agree_def)
    ultimately show ?thesis by simp
  qed
  moreover have "servers m' r = Some s \<Longrightarrow> agree nodes (wanted bridges r) (GetNUMA s)" for r s
    using U(3) [of r] by (simp add: serves_def)
  ultimately show ?thesis using False U(1,2) by simp
qed

definition numa0_bridges :: "BridgeSpec list" where
  "numa0_bridges =
     [\<lparr>bs_Name = ''br0'', TopologyResource = ''numa0'', bs_Mtu = 1500\<rparr>,
      \<lparr>bs_Name = ''br1'', TopologyResource = ''numa0'', bs_Mtu = 9000\<rparr>,
      \<lparr>bs_Name = ''br2'', TopologyResource = [], bs_Mtu = 1500\<rparr>]"

definition numa0_nodes :: "string \<Rightarrow> int list" where
  "numa0_nodes b = (if b = ''br0'' \<or> b = ''br1'' then [0] else [])"

abbreviation numa0 :: string where
  "numa0 \<equiv> TopologyResourcePrefix @ ''numa0''"

definition fresh_host :: dp_host where
  "fresh_host = \<lparr>socket_files = {}, serving = {}, registrations = [], dp_clock = 0\<rparr>"

definition numa0_update :: "error option \<times> Manager \<times> dp_host" where
  "numa0_update = UpdateResources kubelet_env numa0_nodes [] [numa0] numa0_bridges new_Manager fresh_host"

lemma new_manager_inv: "mgr_inv env new_Manager fresh_host"
  by (simp add: mgr_inv_except_def new_Manager_def fresh_host_def)

lemma numa0_wanted: "wanted numa0_bridges r = (if r = numa0 then {''br0'', ''br1''} else {})"
  by (simp add: numa0_bridges_def wanted_Cons) (simp add: wanted_def)

lemma numa0_list: "valid_list numa0_bridges" "update_orders numa0_bridges new_Manager [] [numa0]" "\<not> conflicting numa0_bridges"
proof -
  show "valid_list numa0_bridges" by (simp add: valid_list_def valid_suffix_def numa0_bridges_def)
  show "update_orders numa0_bridges new_Manager [] [numa0]" by (simp add: update_orders_def range_order_def new_Manager_def numa0_wanted)
  show "\<not> conflicting numa0_bridges" by (simp add: conflicting_def numa0_wanted)
qed

lemma numa0_agree: "agree numa0_nodes (wanted numa0_bridges r) k \<longleftrightarrow> r = numa0 \<and> k = 0"
  by (auto simp: agree_def numa0_nodes_def numa0_wanted)

lemma numa0_update_ok: "fst numa0_update = None"
  by code_simp

lemma numa0_update_result:
  obtains m' h' where "numa0_update = (None, m', h')"
    and "UpdateResources kubelet_env numa0_nodes [] [numa0] numa0_bridges new_Manager fresh_host = (None, m', h')"
    and "mgr_inv kubelet_env m' h'" and "dom (servers m') = {numa0}"
proof -
  obtain m' h' where u: "numa0_update = (None, m', h')" using numa0_update_ok by (metis prod.exhaust_sel)
  note r = u [unfolded numa0_update_def]
  note U = UpdateResources_inv [OF new_manager_inv kubelet_dir numa0_list r]
  have "servers m' r \<noteq> None \<longleftrightarrow> r = numa0" for r
    using U(3) [of r] by (auto simp: serves_def numa0_agree)
  then have "dom (servers m') = {numa0}" by (auto simp: domIff)
  moreover have "mgr_inv kubelet_env m' h'" using U(1) by simp
  ultimately show ?thesis using that u r by blast
qed

theorem UpdateResources_spec_witness:
  "map_option GetNUMA (servers (fst (snd numa0_update)) numa0) = Some 0
   \<and> serving (snd (snd numa0_update)) = {socketPath kubelet_env numa0}"
proof -
  obtain m' h' where u: "numa0_update = (None, m', h')"
      "UpdateResources kubelet_env numa0_nodes [] [numa0] numa0_bridges new_Manager fresh_host = (None, m', h')"
    and d: "dom (servers m') = {numa0}" by (rule numa0_update_result)
  from UpdateResources_spec [OF new_manager_inv kubelet_dir numa0_list(1,2) u(2)] numa0_list(3)
  have "mgr_inv kubelet_env m' h'" "map_option GetNUMA (servers m' numa0) = Some 0" by (simp_all add: numa0_agree)
  then show ?thesis unfolding u(1) using d by (simp add: mgr_inv_except_def)
qed

section \<open>The manager under any order of events\<close>

text \<open>
  A new kubelet knows no plugin, and it deletes the sockets of the old ones (documented for
  device plugins: \<^verbatim>\<open>a new kubelet instance deletes all the existing Unix sockets\<close> of the plugin
  directory \<^verbatim>\<open>when it starts\<close>). The servers of this process keep running on the deleted sockets.
\<close>

definition kubelet_restart :: "dp_host \<Rightarrow> dp_host" where
  "kubelet_restart h = h\<lparr>socket_files := {}, registrations := []\<rparr>"

text \<open>
  The NUMA map of the OVS client can change at any time; the bridge is then \<open>stale\<close> until
  the manager hears of it, or until the policies are evaluated again. The kubelet can
  restart at any time; the registrations of the servers that run are then \<open>lost\<close>, each until
  the watcher's event renews it or the server is replaced. A registration that the
  watcher tries and fails to renew stays lost. The two sets are not in the code: they say
  which notifications and which registrations are still to come.
\<close>

definition lost_after_event :: "dp_env \<Rightarrow> string list \<Rightarrow> bool \<Rightarrow> string \<Rightarrow> Manager \<Rightarrow> dp_host \<Rightarrow> string set \<Rightarrow> string set" where
  "lost_after_event env order created name m h lost =
     (if created \<and> filepath_Base name = filepath_Base (KubeletSocket env) then lost \<inter> set (reregister_failures env order m h) else lost)"

type_synonym dp_state = "(string \<Rightarrow> int list) \<times> string set \<times> string set \<times> Manager \<times> dp_host"

inductive dp_step :: "dp_env \<Rightarrow> dp_state \<Rightarrow> dp_state \<Rightarrow> bool" for env where
  numa_changed: "dp_step env (nodes, stale, lost, m, h) (nodes(b := ns), insert b stale, lost, m, h)"
| interface_notified: "range_order (topology m) order \<Longrightarrow> OnInterfaceChange env nodes order b m h = (m', h') \<Longrightarrow>
    dp_step env (nodes, stale, lost, m, h) (nodes, stale - {b}, unrenewed lost m m', m', h')"
| policies_updated: "valid_list bridges \<Longrightarrow> update_orders bridges m order1 order2 \<Longrightarrow>
    UpdateResources env nodes order1 order2 bridges m h = (e, m', h') \<Longrightarrow>
    dp_step env (nodes, stale, lost, m, h) (nodes, if conflicting bridges then stale else {}, unrenewed lost m m', m', h')"
| kubelet_restarted: "dp_step env (nodes, stale, lost, m, h) (nodes, stale, dom (servers m), m, kubelet_restart h)"
| kubelet_event: "range_order (servers m) order \<Longrightarrow>
    dp_step env (nodes, stale, lost, m, h)
      (nodes, stale, lost_after_event env order created name m h lost, m, kubelet_watch_event env order created name m h)"
| all_stopped: "range_order (servers m) order \<Longrightarrow> StopAll env order m h = (m', h') \<Longrightarrow>
    dp_step env (nodes, stale, lost, m, h) (nodes, stale, unrenewed lost m m', m', h')"

inductive dp_reachable :: "dp_env \<Rightarrow> dp_state \<Rightarrow> bool" for env where
  dp_start: "serving h = {} \<Longrightarrow> dp_reachable env (nodes, stale, {}, new_Manager, h)"
| dp_next: "dp_reachable env s \<Longrightarrow> dp_step env s s' \<Longrightarrow> dp_reachable env s'"

abbreviation bridges_of :: "Manager \<Rightarrow> string \<Rightarrow> string set" where
  "bridges_of m r \<equiv> {b. topology m b = Some r}"

definition dp_inv :: "dp_env \<Rightarrow> dp_state \<Rightarrow> bool" where
  "dp_inv env s \<longleftrightarrow>
     (case s of (nodes, stale, lost, m, h) \<Rightarrow>
        mgr_inv_except lost env m h \<and> (\<forall>b r. topology m b = Some r \<longrightarrow> valid_res r) \<and>
        (\<forall>r srv. servers m r = Some srv \<and> bridges_of m r \<inter> stale = {} \<longrightarrow> agree nodes (bridges_of m r) (GetNUMA srv)))"

lemma reregisterAll_keeps:
  "serving (reregisterAll env order m h) = serving h \<and> set (registrations h) \<subseteq> set (registrations (reregisterAll env order m h))"
proof (induction order arbitrary: h)
  case (Cons r order)
  show ?case
  proof (cases "servers m r")
    case (Some s)
    obtain e h1 where "Server_Register env s h = (e, h1)" by (cases "Server_Register env s h")
    with Server_Register_effect [OF this] Cons [of h1] Some show ?thesis by auto
  qed (simp add: Cons)
qed simp

lemma reregisterAll_registers:
  assumes "\<And>q s. servers m q = Some s \<Longrightarrow> s = running_server env q (GetNUMA s)" and "servers m r = Some s"
    and "r \<in> set order" and "r \<notin> set (reregister_failures env order m h)"
  shows "registered env r (reregisterAll env order m h)"
  using assms(3,4)
proof (induction order arbitrary: h)
  case (Cons q order)
  show ?case
  proof (cases "servers m q")
    case None
    with Cons assms(2) show ?thesis by auto
  next
    case (Some sv)
    obtain e h1 where g: "Server_Register env sv h = (e, h1)" by fastforce
    have sv: "srv_socketPath sv = socketPath env q" "srv_resourceName sv = q"
      using assms(1) [OF Some] by (metis running_server_fields(1), metis running_server_fields(4))
    show ?thesis
    proof (cases "r = q")
      case True
      with Cons.prems(2) Some g have "e = None" by (auto split: option.splits)
      with Server_Register_effect [OF g] sv True have "registered env r h1" by simp
      with reregisterAll_keeps [of env order m h1] registered_mono [of env r h1] Some g show ?thesis by simp
    next
      case False
      with Cons.prems Some g have "r \<in> set order" "r \<notin> set (reregister_failures env order m h1)" by (auto split: option.splits)
      with Cons.IH [of h1] Some g show ?thesis by simp
    qed
  qed
qed simp

lemma kubelet_watch_event_inv:
  assumes "mgr_inv_except lost env m h" and "range_order (servers m) order"
  shows "mgr_inv_except (lost_after_event env order created name m h lost) env m (kubelet_watch_event env order created name m h)"
proof (cases "created \<and> filepath_Base name = filepath_Base (KubeletSocket env)")
  case True
  let ?h' = "reregisterAll env order m h"
  have "registered env r ?h'" if s: "servers m r = Some s" and l: "r \<notin> lost \<inter> set (reregister_failures env order m h)" for r s
  proof (cases "r \<in> lost")
    case True
    moreover have "r \<in> set order" using assms(2) s by (auto simp: range_order_def)
    ultimately show ?thesis using l by (intro reregisterAll_registers [OF mgr_invD(1) [OF assms(1)] s]) auto
  next
    case False
    from mgr_invD(4) [OF assms(1) s False] reregisterAll_keeps [of env order m h] show ?thesis by (blast intro: registered_mono)
  qed
  then show ?thesis
    using assms(1) True reregisterAll_keeps [of env order m h]
    by (simp add: mgr_inv_except_def lost_after_event_def kubelet_watch_event_def)
qed (use assms(1) in \<open>auto simp: lost_after_event_def kubelet_watch_event_def\<close>)

lemma kubelet_restart_inv: "mgr_inv_except lost env m h \<Longrightarrow> mgr_inv_except (dom (servers m)) env m (kubelet_restart h)"
  by (auto simp: mgr_inv_except_def kubelet_restart_def)

lemma numa_changed_inv:
  assumes "dp_inv env (nodes, stale, lost, m, h)"
  shows "dp_inv env (nodes(b := ns), insert b stale, lost, m, h)"
  using assms by (auto simp: dp_inv_def agree_def)

lemma OnInterfaceChange_inv:
  assumes "dp_inv env (nodes, stale, lost, m, h)" and "plugin_dir env cs" and "range_order (topology m) order"
    and "OnInterfaceChange env nodes order b m h = (m', h')"
  shows "dp_inv env (nodes, stale - {b}, unrenewed lost m m', m', h')"
proof (cases "topology m b")
  case None
  with assms(4) have eq: "m' = m" "h' = h" by (simp_all add: OnInterfaceChange_def)
  have "bridges_of m r \<inter> (stale - {b}) = bridges_of m r \<inter> stale" for r using None by auto
  with assms(1) eq show ?thesis by (simp add: dp_inv_def)
next
  case (Some r)
  let ?brs = "filter (\<lambda>br. topology m br = Some r) order"
  obtain e where e: "ensureServer env nodes r ?brs m h = (e, m', h')"
    using assms(4) Some by (auto simp: OnInterfaceChange_def split: prod.splits)
  have brs: "set ?brs = bridges_of m r" using assms(3) by (auto simp: range_order_def)
  have inv: "mgr_inv_except lost env m h" "\<And>b r. topology m b = Some r \<Longrightarrow> valid_res r"
    and old: "\<And>r s. servers m r = Some s \<Longrightarrow> bridges_of m r \<inter> stale = {} \<Longrightarrow> agree nodes (bridges_of m r) (GetNUMA s)"
    using assms(1) by (auto simp: dp_inv_def)
  note S = ensureServer_serves [OF inv(1) assms(2) inv(2) [OF Some] e, unfolded brs]
  have "agree nodes (bridges_of m r') (GetNUMA s)"
    if "servers m' r' = Some s" "bridges_of m r' \<inter> (stale - {b}) = {}" for r' s
  proof (cases "r' = r")
    case True
    with S(4) that(1) show ?thesis by (simp add: serves_def)
  next
    case False
    then have "b \<notin> bridges_of m r'" using Some by simp
    with that(2) have "bridges_of m r' \<inter> stale = {}" by blast
    with old [of r' s] S(3) [OF False] that(1) show ?thesis by simp
  qed
  with S(1,2) inv(2) show ?thesis by (simp add: dp_inv_def)
qed

lemma UpdateResources_dp_inv:
  assumes "dp_inv env (nodes, stale, lost, m, h)" and "plugin_dir env cs" and "valid_list bridges"
    and "update_orders bridges m order1 order2" and "UpdateResources env nodes order1 order2 bridges m h = (e, m', h')"
  shows "dp_inv env (nodes, if conflicting bridges then stale else {}, unrenewed lost m m', m', h')"
proof (cases "conflicting bridges")
  case True
  with UpdateResources_conflict [OF True, of env nodes order1 order2 m h] assms(1,5) show ?thesis by auto
next
  case False
  have "mgr_inv_except lost env m h" using assms(1) by (simp add: dp_inv_def)
  note U = UpdateResources_inv [OF this assms(2-4) False assms(5)]
  have "topology m' b = Some r \<Longrightarrow> valid_res r" for b r using U(2) wanted_valid [OF assms(3)] by blast
  moreover have "bridges_of m' r = wanted bridges r" for r using U(2) by simp
  moreover have "servers m' r = Some s \<Longrightarrow> agree nodes (wanted bridges r) (GetNUMA s)" for r s
    using U(3) [of r] by (simp add: serves_def)
  ultimately show ?thesis using U(1) False by (simp add: dp_inv_def)
qed

lemma StopAll_effect:
  assumes "mgr_inv_except lost env m h" and "plugin_dir env cs" and "range_order (servers m) order" and "StopAll env order m h = (m', h')"
  shows "mgr_inv env m' h' \<and> servers m' = Map.empty \<and> topology m' = topology m \<and> serving h' = {}"
  using stop_servers_inv [OF assms(1,2) assms(4) [unfolded StopAll_def]] assms(3)
  by (auto simp: range_order_def mgr_inv_except_def fun_eq_iff domIff)

lemma dp_step_inv:
  assumes "dp_step env s s'" and "plugin_dir env cs" and "dp_inv env s"
  shows "dp_inv env s'"
  using assms(1,3)
proof (induction rule: dp_step.induct)
  case (numa_changed nodes stale lost m h b ns)
  then show ?case by (rule numa_changed_inv)
next
  case (interface_notified m order nodes b h m' h' stale lost)
  then show ?case using OnInterfaceChange_inv [OF _ assms(2)] by blast
next
  case (policies_updated bridges m order1 order2 nodes h e m' h' stale lost)
  then show ?case using UpdateResources_dp_inv [OF _ assms(2)] by blast
next
  case (kubelet_restarted nodes stale lost m h)
  then show ?case by (auto simp: dp_inv_def intro: kubelet_restart_inv)
next
  case (kubelet_event m order nodes stale lost h created name)
  then show ?case by (simp add: dp_inv_def kubelet_watch_event_inv)
next
  case (all_stopped m order h m' h' nodes stale lost)
  then have "mgr_inv_except lost env m h" by (simp add: dp_inv_def)
  from StopAll_effect [OF this assms(2) all_stopped(1,2)] all_stopped(3) show ?case
    by (auto simp: dp_inv_def intro: mgr_inv_mono)
qed

lemma dp_reachable_inv:
  assumes "dp_reachable env s" and "plugin_dir env cs"
  shows "dp_inv env s"
  using assms(1)
proof induction
  case (dp_start h nodes stale)
  then show ?case by (simp add: dp_inv_def mgr_inv_except_def new_Manager_def)
qed (rule dp_step_inv [OF _ assms(2)])

text \<open>
  C15. Whatever the order of NUMA changes, notifications, policy updates, restarts of the
  kubelet, events of the watcher and failures: the sockets that are served are exactly
  those of the manager's servers. Every server announces the fixed number of devices
  under its own resource, with the node of all bridges of the resource unless the change
  of one of them is still to be told to the manager. And every server is registered with
  the kubelet that runs now, unless that kubelet has started after the server and the
  watcher has not renewed the registration since; an event for the kubelet's socket renews
  the registration of every server but those for which it logs a failure.
\<close>

theorem manager_reachable:
  assumes "dp_reachable env (nodes, stale, lost, m, h)" and "plugin_dir env cs"
  shows "serving h = socketPath env ` dom (servers m)
    \<and> (\<forall>r s. servers m r = Some s \<longrightarrow>
         (registered env r h \<or> r \<in> lost) \<and> srv_resourceName s = r \<and> length (Server_devices s) = DefaultTopologyDeviceCount
         \<and> (bridges_of m r \<inter> stale = {} \<longrightarrow> agree nodes (bridges_of m r) (GetNUMA s)))
    \<and> (\<forall>order name r. range_order (servers m) order \<and> filepath_Base name = filepath_Base (KubeletSocket env) \<and> r \<in> dom (servers m) \<longrightarrow>
         registered env r (kubelet_watch_event env order True name m h) \<or> r \<in> set (reregister_failures env order m h))"
proof -
  have inv: "dp_inv env (nodes, stale, lost, m, h)" using assms by (rule dp_reachable_inv)
  then have mi: "mgr_inv_except lost env m h" by (simp add: dp_inv_def)
  have "(registered env r h \<or> r \<in> lost) \<and> srv_resourceName s = r \<and> length (Server_devices s) = DefaultTopologyDeviceCount"
    if "servers m r = Some s" for r s
  proof -
    note M = mgr_invD [OF mi that]
    have "srv_deviceCount s = DefaultTopologyDeviceCount"
      by (subst M(1)) (simp add: running_server_def newServer_def)
    moreover have "srv_resourceName s = r" by (subst M(1)) simp
    ultimately show ?thesis using M(4) by (auto simp: Server_devices_def)
  qed
  moreover have "registered env r (kubelet_watch_event env order True name m h) \<or> r \<in> set (reregister_failures env order m h)"
    if "range_order (servers m) order" "filepath_Base name = filepath_Base (KubeletSocket env)" "servers m r = Some s" for order name r s
    using reregisterAll_registers [OF mgr_invD(1) [OF mi] that(3), of order h] that
    by (auto simp: range_order_def kubelet_watch_event_def)
  then have "\<forall>order name r. range_order (servers m) order \<and> filepath_Base name = filepath_Base (KubeletSocket env) \<and> r \<in> dom (servers m) \<longrightarrow>
      registered env r (kubelet_watch_event env order True name m h) \<or> r \<in> set (reregister_failures env order m h)" by blast
  moreover have "serving h = socketPath env ` dom (servers m)" using mi by (simp add: mgr_inv_except_def)
  moreover have "agree nodes (bridges_of m r) (GetNUMA s)" if "servers m r = Some s" "bridges_of m r \<inter> stale = {}" for r s
    using inv that by (simp add: dp_inv_def)
  ultimately show ?thesis by blast
qed

text \<open>The manager of the sample bridges, after a restart of the kubelet and the event of its new socket.\<close>

theorem manager_reachable_witness:
  "case numa0_update of (e, m, h) \<Rightarrow>
     let h' = kubelet_watch_event kubelet_env [numa0] True (KubeletSocket kubelet_env) m (kubelet_restart h)
     in serving h' = {socketPath kubelet_env numa0} \<and> map_option GetNUMA (servers m numa0) = Some 0
       \<and> \<not> registered kubelet_env numa0 (kubelet_restart h) \<and> registered kubelet_env numa0 h'"
proof -
  obtain m' h' where u: "numa0_update = (None, m', h')"
      "UpdateResources kubelet_env numa0_nodes [] [numa0] numa0_bridges new_Manager fresh_host = (None, m', h')"
    and d: "dom (servers m') = {numa0}" by (rule numa0_update_result)
  let ?h1 = "kubelet_restart h'"
  let ?h2 = "kubelet_watch_event kubelet_env [numa0] True (KubeletSocket kubelet_env) m' ?h1"
  have o: "range_order (servers m') [numa0]" using d by (simp add: range_order_def)
  have "dp_reachable kubelet_env (numa0_nodes, {}, {}, new_Manager, fresh_host)" by (rule dp_start) (simp add: fresh_host_def)
  from dp_next [OF this policies_updated [OF numa0_list(1,2) u(2)]] numa0_list(3)
  have "dp_reachable kubelet_env (numa0_nodes, {}, {}, m', h')" by simp
  note one = dp_next [OF this kubelet_restarted]
  obtain s where s: "servers m' numa0 = Some s" using d by auto
  have nf: "reregister_failures kubelet_env [numa0] m' ?h1 = []"
    using s by (simp add: Server_Register_def kubelet_env_def Let_def)
  from dp_next [OF one kubelet_event [OF o, of _ _ _ _ _ True "KubeletSocket kubelet_env"]] nf
  have two: "dp_reachable kubelet_env (numa0_nodes, {}, {}, m', ?h2)" by (simp add: lost_after_event_def)
  note M = manager_reachable [OF two kubelet_dir]
  from M s have a: "agree numa0_nodes (bridges_of m' numa0) (GetNUMA s)" "registered kubelet_env numa0 ?h2" by auto
  then have "GetNUMA s = 0" by (auto simp: agree_def numa0_nodes_def split: if_splits)
  moreover have "serving ?h2 = {socketPath kubelet_env numa0}" using M d by simp
  moreover have "\<not> registered kubelet_env numa0 ?h1" by (simp add: registered_def kubelet_restart_def)
  ultimately show ?thesis unfolding u(1) using s a(2) by (simp add: Let_def)
qed

text \<open>The goroutines that end with the context may come before \<^verbatim>\<open>StopAll\<close>, all or some of them.\<close>

lemma contexts_done_serving: "serving (contexts_done rs m h) \<subseteq> serving h"
proof (induction rs arbitrary: h)
  case (Cons r rs)
  have "serving (Server_context_done srv h) \<subseteq> serving h" for srv by (auto simp: Server_context_done_def grpc_Stop_def)
  with Cons show ?case by (auto split: option.split)
qed simp

lemma stop_servers_serving:
  assumes "\<And>r s. servers m r = Some s \<Longrightarrow> s = running_server env r (GetNUMA s)" and "stop_servers env (\<lambda>_. True) order m h = (m', h')"
  shows "serving h' \<subseteq> serving h - socketPath env ` (set order \<inter> dom (servers m))"
  using assms
proof (induction order arbitrary: m h)
  case (Cons r order)
  show ?case
  proof (cases "servers m r")
    case None
    with Cons.IH [of m h] Cons.prems show ?thesis by auto
  next
    case (Some sv)
    let ?m1 = "m\<lparr>servers := (servers m)(r := None)\<rparr>" and ?h1 = "Server_Stop env sv h"
    have "serving h' \<subseteq> serving ?h1 - socketPath env ` (set order \<inter> dom (servers ?m1))"
      using Cons.prems Some by (intro Cons.IH) (auto split: if_splits)
    moreover have "serving ?h1 = serving h - {socketPath env r}"
      using Cons.prems(1) [OF Some] by (metis Server_Stop_effect(1) running_server_fields(1,2))
    ultimately show ?thesis by auto
  qed
qed simp

lemma StopAll_after_context:
  assumes "mgr_inv_except lost env m h" and "range_order (servers m) order" and "StopAll env order m (contexts_done rs m h) = (m', h')"
  shows "serving h' = {}"
proof -
  have "serving h' \<subseteq> serving (contexts_done rs m h) - socketPath env ` (set order \<inter> dom (servers m))"
    using stop_servers_serving [OF mgr_invD(1) [OF assms(1)] assms(3) [unfolded StopAll_def]] .
  moreover have "set order = dom (servers m)" "serving h = socketPath env ` dom (servers m)"
    using assms(1,2) by (simp_all add: range_order_def mgr_inv_except_def)
  ultimately show ?thesis using contexts_done_serving [of rs m h] by auto
qed

text \<open>
  After \<^verbatim>\<open>StopAll\<close> no server is left and none of their sockets is served.
\<close>

theorem StopAll_stops:
  assumes "mgr_inv_except lost env m h" and "plugin_dir env cs" and "range_order (servers m) order"
  shows "servers (fst (StopAll env order m h)) = Map.empty \<and> serving (snd (StopAll env order m h)) = {}"
  using StopAll_effect [OF assms] by (metis prod.collapse)

theorem StopAll_stops_witness:
  "serving (snd (StopAll kubelet_env [numa0] (fst (snd numa0_update)) (snd (snd numa0_update)))) = {}"
proof -
  obtain m' h' where u: "numa0_update = (None, m', h')" "mgr_inv kubelet_env m' h'" "dom (servers m') = {numa0}"
    by (rule numa0_update_result)
  have "range_order (servers m') [numa0]" using u(3) by (simp add: range_order_def)
  from StopAll_stops [OF u(2) kubelet_dir this] show ?thesis unfolding u(1) by simp
qed

end
