(* ===== verification/Controllers.thy ===== *)
theory Controllers
  imports DeviceState PluginManager
begin

text \<open>
  \<^verbatim>\<open>pkg/controllers\<close>: the reconcilers of the two custom resources. The Kubernetes client, the
  node selector library and the OVS client are parameters; the device state is the model
  of \<^verbatim>\<open>pkg/devicestate\<close>, and the topology Device Plugins are reached through the interface
  \<^verbatim>\<open>ResourceUpdater\<close>, whose contract is the locale \<open>resource_updater\<close>.
\<close>

section \<open>Interfaces\<close>

record NodeMeta =
  nm_Name :: string
  nm_Labels :: "string \<rightharpoonup> string"

text \<open>
  \<open>'term\<close> are the terms of a node selector, \<open>'w\<close> the world outside the device state. The
  reads of the client's cache and of the OVS cache do not change the world.
\<close>

record ('term, 'w) controller_env =
  k8s_GetNode :: "string \<Rightarrow> 'w \<Rightarrow> error + NodeMeta"
  k8s_ListPolicies :: "string \<Rightarrow> 'w \<Rightarrow> error + 'term list OvsDpdkResourcePolicy list"
  k8s_GetConfig :: "string \<Rightarrow> 'w \<Rightarrow> error + OvsDpdkConfigSpec"
  nodeaffinity_NewNodeSelector :: "'term list \<Rightarrow> error + (NodeMeta \<Rightarrow> bool)"
  ce_BridgeExists :: "string \<Rightarrow> 'w \<Rightarrow> error + bool"
  ce_republish :: "DeviceState \<Rightarrow> 'w \<Rightarrow> error option \<times> 'w"
  ce_UpdateResources :: "BridgeSpec list \<Rightarrow> 'w \<Rightarrow> error option \<times> 'w"

text \<open>\<^verbatim>\<open>ctrl.Result\<close>, with the duration in nanoseconds. A reconcile that fails returns the empty result.\<close>

record ctrl_Result =
  RequeueAfter :: nat

definition time_Second :: nat where
  "time_Second = 1000000000"

text \<open>
  The structs of the two reconcilers. The client, the device state, the OVS client and the
  manager that they hold are the environment and the states that the operations take.
\<close>

record OvsDpdkConfigReconciler =
  occ_configName :: string

definition NewOvsDpdkConfigReconciler :: "string \<Rightarrow> OvsDpdkConfigReconciler" where
  "NewOvsDpdkConfigReconciler configName = \<lparr>occ_configName = configName\<rparr>"

record OvsDpdkResourcePolicyReconciler =
  orp_nodeName :: string
  orp_namespace :: string

definition NewOvsDpdkResourcePolicyReconciler :: "string \<Rightarrow> string \<Rightarrow> OvsDpdkResourcePolicyReconciler" where
  "NewOvsDpdkResourcePolicyReconciler nodeName namespace = \<lparr>orp_nodeName = nodeName, orp_namespace = namespace\<rparr>"

section \<open>OvsDpdkConfig\<close>

definition config_Reconcile ::
  "('term, 'w) controller_env \<Rightarrow> string \<Rightarrow> string \<Rightarrow> DeviceState \<Rightarrow> 'w \<Rightarrow> ctrl_Result res \<times> DeviceState" where
  "config_Reconcile env configName reqName d w =
     (if reqName \<noteq> configName then (Ok \<lparr>RequeueAfter = 0\<rparr>, d)
      else
        (let update = (\<lambda>spec. case UpdateConfig spec d of
                          (Ok _, d') \<Rightarrow> (Ok \<lparr>RequeueAfter = 0\<rparr>, d')
                        | (Err err, d') \<Rightarrow> (Err err, d')
                        | (Panic m, d') \<Rightarrow> (Panic m, d'))
         in case k8s_GetConfig env configName w of
              Inl err \<Rightarrow> if errors_Is err (ApiStatus NotFound) then update None else (Err err, d)
            | Inr spec \<Rightarrow> update (Some spec)))"

section \<open>OvsDpdkResourcePolicy\<close>

definition matchesNodeSelector ::
  "('term list \<Rightarrow> error + (NodeMeta \<Rightarrow> bool)) \<Rightarrow> NodeMeta \<Rightarrow> 'term list option \<Rightarrow> bool" where
  "matchesNodeSelector newNodeSelector nodeMeta ns =
     (case ns of
        None \<Rightarrow> True
      | Some terms \<Rightarrow>
          if terms = [] then True
          else (case newNodeSelector terms of Inl _ \<Rightarrow> False | Inr selector \<Rightarrow> selector nodeMeta))"

text \<open>The two nested loops that collect the bridges; the list grows at its end.\<close>

fun present_bridges :: "(string \<Rightarrow> error + bool) \<Rightarrow> BridgeSpec list \<Rightarrow> BridgeSpec list \<Rightarrow> error + BridgeSpec list" where
  "present_bridges bridgeExists activeBridges [] = Inr activeBridges"
| "present_bridges bridgeExists activeBridges (b # bs) =
     (case bridgeExists (bs_Name b) of
        Inl err \<Rightarrow> Inl err
      | Inr present \<Rightarrow>
          if \<not> present then present_bridges bridgeExists activeBridges bs
          else present_bridges bridgeExists (activeBridges @ [b]) bs)"

fun collect_bridges ::
  "('term list option \<Rightarrow> bool) \<Rightarrow> (string \<Rightarrow> error + bool) \<Rightarrow> BridgeSpec list \<Rightarrow> 'term list OvsDpdkResourcePolicy list
   \<Rightarrow> error + BridgeSpec list" where
  "collect_bridges matches bridgeExists activeBridges [] = Inr activeBridges"
| "collect_bridges matches bridgeExists activeBridges (policy # policies) =
     (if \<not> matches (pol_NodeSelector policy) then collect_bridges matches bridgeExists activeBridges policies
      else
        (case present_bridges bridgeExists activeBridges (pol_Bridges policy) of
           Inl err \<Rightarrow> Inl err
         | Inr activeBridges' \<Rightarrow> collect_bridges matches bridgeExists activeBridges' policies))"

text \<open>The request is only logged: the reconciler always looks at all policies.\<close>

definition policy_Reconcile ::
  "('term, 'w) controller_env \<Rightarrow> string \<Rightarrow> string \<Rightarrow> DeviceState \<Rightarrow> 'w \<Rightarrow> ctrl_Result res \<times> DeviceState \<times> 'w" where
  "policy_Reconcile env nodeName namespace d w =
     (case k8s_GetNode env nodeName w of
        Inl err \<Rightarrow>
          if errors_Is err (ApiStatus NotFound) then (Ok \<lparr>RequeueAfter = 30 * time_Second\<rparr>, d, w)
          else (Err err, d, w)
      | Inr nodeMeta \<Rightarrow>
     (case k8s_ListPolicies env namespace w of
        Inl err \<Rightarrow> (Err err, d, w)
      | Inr policies \<Rightarrow>
     (case collect_bridges (matchesNodeSelector (nodeaffinity_NewNodeSelector env) nodeMeta)
             (\<lambda>n. ce_BridgeExists env n w) [] policies of
        Inl err \<Rightarrow> (Err err, d, w)
      | Inr activeBridges \<Rightarrow>
     (case UpdatePolicyDevices (ce_republish env) activeBridges d w of
        (Panic m, d1, w1) \<Rightarrow> (Panic m, d1, w1)
      | (Err err, d1, w1) \<Rightarrow> (Err err, d1, w1)
      | (Ok _, d1, w1) \<Rightarrow>
     (case ce_UpdateResources env activeBridges w1 of
        (Some err, w2) \<Rightarrow> (Err err, d1, w2)
      | (None, w2) \<Rightarrow> (Ok \<lparr>RequeueAfter = 0\<rparr>, d1, w2))))))"

section \<open>Triggers\<close>

definition resourcePolicySyncEventName :: string where
  "resourcePolicySyncEventName = ''resource-policy-sync''"

record object_key =
  ok_Namespace :: string
  ok_Name :: string

definition sync_request :: "string \<Rightarrow> object_key" where
  "sync_request namespace = \<lparr>ok_Namespace = namespace, ok_Name = resourcePolicySyncEventName\<rparr>"

text \<open>The three sources that \<^verbatim>\<open>SetupWithManager\<close> watches, with their predicates, all mapped to one request.\<close>

datatype watch = PolicyWatch | NodeWatch | TriggerWatch

definition watch_requests :: "string \<Rightarrow> string \<Rightarrow> watch \<Rightarrow> object_key \<Rightarrow> object_key list" where
  "watch_requests nodeName namespace source obj =
     (case source of
        PolicyWatch \<Rightarrow> if ok_Namespace obj = namespace then [sync_request namespace] else []
      | NodeWatch \<Rightarrow> if ok_Name obj = nodeName then [sync_request namespace] else []
      | TriggerWatch \<Rightarrow> [sync_request namespace])"

definition triggerChan_cap :: nat where
  "triggerChan_cap = 1"

text \<open>The bridge notifier: a \<open>select\<close> with a default case, so that a full channel drops the event.\<close>

definition bridge_notifier :: "string \<Rightarrow> object_key list \<Rightarrow> object_key list" where
  "bridge_notifier namespace triggerChan =
     (if length triggerChan < triggerChan_cap then triggerChan @ [sync_request namespace] else triggerChan)"

section \<open>Registration of the controllers\<close>

text \<open>
  What the builder of the controller library collects: for each source a predicate on the
  objects and the map from an object to the requests it stands for. A \<^verbatim>\<open>For\<close> clause has no
  predicate and asks for the object itself.
\<close>

record 'source controller_watch =
  cw_source :: 'source
  cw_predicate :: "object_key \<Rightarrow> bool"
  cw_map :: "object_key \<Rightarrow> object_key list"

record 'source controller =
  ctl_Named :: "string option"
  ctl_Watches :: "'source controller_watch list"

definition controller_requests :: "'source controller \<Rightarrow> 'source \<Rightarrow> object_key \<Rightarrow> object_key list" where
  "controller_requests ctl source obj =
     concat (map (\<lambda>w. cw_map w obj) (filter (\<lambda>w. cw_source w = source \<and> cw_predicate w obj) (ctl_Watches ctl)))"

definition config_controller :: "OvsDpdkConfigReconciler \<Rightarrow> unit controller" where
  "config_controller r =
     \<lparr>ctl_Named = None, ctl_Watches = [\<lparr>cw_source = (), cw_predicate = (\<lambda>_. True), cw_map = (\<lambda>obj. [obj])\<rparr>]\<rparr>"

definition policy_controller :: "OvsDpdkResourcePolicyReconciler \<Rightarrow> watch controller" where
  "policy_controller r =
     (let mapFn = (\<lambda>obj. [\<lparr>ok_Namespace = orp_namespace r, ok_Name = resourcePolicySyncEventName\<rparr>])
      in \<lparr>ctl_Named = Some ''ovsdpdkresourcepolicy'',
          ctl_Watches =
            [\<lparr>cw_source = PolicyWatch, cw_predicate = (\<lambda>obj. ok_Namespace obj = orp_namespace r), cw_map = mapFn\<rparr>,
             \<lparr>cw_source = NodeWatch, cw_predicate = (\<lambda>obj. ok_Name obj = orp_nodeName r), cw_map = mapFn\<rparr>,
             \<lparr>cw_source = TriggerWatch, cw_predicate = (\<lambda>obj. True), cw_map = mapFn\<rparr>]\<rparr>)"

text \<open>\<open>complete\<close> is the call of the builder that adds the controller to the manager \<open>'m\<close>.\<close>

definition config_SetupWithManager ::
  "(unit controller \<Rightarrow> 'm \<Rightarrow> error option \<times> 'm) \<Rightarrow> OvsDpdkConfigReconciler \<Rightarrow> 'm \<Rightarrow> error option \<times> 'm" where
  "config_SetupWithManager complete r mgr = complete (config_controller r) mgr"

definition policy_SetupWithManager ::
  "(watch controller \<Rightarrow> 'm \<Rightarrow> error option \<times> 'm) \<Rightarrow> OvsDpdkResourcePolicyReconciler \<Rightarrow> ovsClient \<Rightarrow> 'm
   \<Rightarrow> error option \<times> ovsClient \<times> 'm" where
  "policy_SetupWithManager complete r c mgr =
     (let c' = SetBridgeNotifier True c
      in case complete (policy_controller r) mgr of (err, mgr') \<Rightarrow> (err, c', mgr'))"

text \<open>The registered controller makes the requests of \<open>watch_requests\<close>.\<close>

lemma policy_controller_requests:
  "controller_requests (policy_controller r) source obj = watch_requests (orp_nodeName r) (orp_namespace r) source obj"
  by (cases source) (simp_all add: controller_requests_def policy_controller_def watch_requests_def sync_request_def Let_def)

lemma config_controller_requests: "controller_requests (config_controller r) source obj = [obj]"
  by (simp add: controller_requests_def config_controller_def)

lemmas controllers_defs [go_defs] =
  time_Second_def config_Reconcile_def matchesNodeSelector_def policy_Reconcile_def resourcePolicySyncEventName_def
  sync_request_def watch_requests_def triggerChan_cap_def bridge_notifier_def

section \<open>What a reconcile sees and does\<close>

text \<open>The bridges that a list of policies gives a node.\<close>

definition active_bridges :: "('term list option \<Rightarrow> bool) \<Rightarrow> (string \<Rightarrow> error + bool) \<Rightarrow> 'term list OvsDpdkResourcePolicy list \<Rightarrow> BridgeSpec list" where
  "active_bridges matches bridgeExists policies =
     concat (map (\<lambda>p. filter (\<lambda>b. bridgeExists (bs_Name b) = Inr True) (pol_Bridges p))
              (filter (\<lambda>p. matches (pol_NodeSelector p)) policies))"

lemma present_bridges_spec:
  "present_bridges ex acc bs = Inr res \<Longrightarrow> res = acc @ filter (\<lambda>b. ex (bs_Name b) = Inr True) bs"
proof (induction bs arbitrary: acc)
  case (Cons b bs)
  then show ?case using Cons.IH [of acc] Cons.IH [of "acc @ [b]"] by (auto split: sum.splits if_splits)
qed simp

lemma collect_bridges_spec:
  "collect_bridges matches ex acc ps = Inr res \<Longrightarrow> res = acc @ active_bridges matches ex ps"
proof (induction ps arbitrary: acc)
  case (Cons p ps)
  show ?case
  proof (cases "matches (pol_NodeSelector p)")
    case True
    with Cons.prems obtain acc' where acc': "present_bridges ex acc (pol_Bridges p) = Inr acc'" "collect_bridges matches ex acc' ps = Inr res"
      by (auto split: sum.splits)
    from Cons.IH [OF acc'(2)] present_bridges_spec [OF acc'(1)] True show ?thesis by (simp add: active_bridges_def)
  next
    case False
    with Cons show ?thesis by (simp add: active_bridges_def)
  qed
qed (simp add: active_bridges_def)

text \<open>The view of a reconcile: what it read, when it could read everything.\<close>

definition policy_view ::
  "('term, 'w) controller_env \<Rightarrow> string \<Rightarrow> string \<Rightarrow> 'w \<Rightarrow> BridgeSpec list option" where
  "policy_view env nodeName namespace w =
     (case (k8s_GetNode env nodeName w, k8s_ListPolicies env namespace w) of
        (Inr nodeMeta, Inr policies) \<Rightarrow>
          (case collect_bridges (matchesNodeSelector (nodeaffinity_NewNodeSelector env) nodeMeta)
                  (\<lambda>n. ce_BridgeExists env n w) [] policies of
             Inr bs \<Rightarrow> Some bs | Inl _ \<Rightarrow> None)
      | _ \<Rightarrow> None)"

lemma policy_view_Some:
  "policy_view env nodeName namespace w = Some bs \<longleftrightarrow>
     (\<exists>node ps. k8s_GetNode env nodeName w = Inr node \<and> k8s_ListPolicies env namespace w = Inr ps \<and>
        collect_bridges (matchesNodeSelector (nodeaffinity_NewNodeSelector env) node) (\<lambda>n. ce_BridgeExists env n w) [] ps = Inr bs)"
  by (auto simp: policy_view_def split: sum.splits)

text \<open>A reconcile that could not read everything changes nothing; else it is an update of the device state and of the plugins.\<close>

lemma policy_Reconcile_blind:
  assumes "policy_view env nodeName namespace w = None"
  shows "\<exists>r. policy_Reconcile env nodeName namespace d w = (r, d, w) \<and>
    (r = Ok \<lparr>RequeueAfter = 30 * time_Second\<rparr> \<or> (\<exists>e. r = Err e))"
  using assms by (auto simp: policy_Reconcile_def policy_view_def split: sum.splits)

lemma policy_Reconcile_seen:
  assumes "policy_view env nodeName namespace w = Some bs"
  shows "policy_Reconcile env nodeName namespace d w =
     (case UpdatePolicyDevices (ce_republish env) bs d w of
        (Panic m, d1, w1) \<Rightarrow> (Panic m, d1, w1)
      | (Err err, d1, w1) \<Rightarrow> (Err err, d1, w1)
      | (Ok _, d1, w1) \<Rightarrow>
          (case ce_UpdateResources env bs w1 of
             (Some err, w2) \<Rightarrow> (Err err, d1, w2)
           | (None, w2) \<Rightarrow> (Ok \<lparr>RequeueAfter = 0\<rparr>, d1, w2)))"
proof -
  from assms obtain node ps where "k8s_GetNode env nodeName w = Inr node" "k8s_ListPolicies env namespace w = Inr ps"
    "collect_bridges (matchesNodeSelector (nodeaffinity_NewNodeSelector env) node) (\<lambda>n. ce_BridgeExists env n w) [] ps = Inr bs"
    unfolding policy_view_Some by blast
  then show ?thesis by (simp add: policy_Reconcile_def)
qed

lemma policy_Reconcile_ok:
  assumes "policy_Reconcile env nodeName namespace d w = (Ok \<lparr>RequeueAfter = 0\<rparr>, d', w')"
  obtains bs w1 where "policy_view env nodeName namespace w = Some bs" and "valid_bridges bs"
    and "UpdatePolicyDevices (ce_republish env) bs d w = (Ok (), d', w1)" and "d' = updateBridges bs d"
    and "ce_UpdateResources env bs w1 = (None, w')"
proof -
  obtain bs where v: "policy_view env nodeName namespace w = Some bs"
    using policy_Reconcile_blind [of env nodeName namespace w d] assms
    by (cases "policy_view env nodeName namespace w") (auto simp: time_Second_def)
  from assms obtain w1 where u: "UpdatePolicyDevices (ce_republish env) bs d w = (Ok (), d', w1)"
    and r: "ce_UpdateResources env bs w1 = (None, w')"
    unfolding policy_Reconcile_seen [OF v] by (auto split: prod.splits res.splits option.splits)
  from u have "valid_bridges bs \<and> d' = updateBridges bs d" by (cases rule: UpdatePolicyDevices_cases) auto
  with v u r that show ?thesis by blast
qed

section \<open>Properties of the reconcilers\<close>

text \<open>
  C19. A successful policy reconcile advertises exactly the right devices: one for each bridge
  that a policy matching this node lists and that OVS has, made from that policy's spec;
  the vhost-user configuration is not touched.
\<close>

theorem policy_Reconcile_success:
  assumes "policy_Reconcile env nodeName namespace d w = (Ok \<lparr>RequeueAfter = 0\<rparr>, d', w')"
  shows "\<exists>node ps. k8s_GetNode env nodeName w = Inr node \<and> k8s_ListPolicies env namespace w = Inr ps
    \<and> (\<forall>n ad. allocatable d' n = Some ad \<longleftrightarrow>
         (\<exists>p \<in> set ps. \<exists>b \<in> set (pol_Bridges p).
            matchesNodeSelector (nodeaffinity_NewNodeSelector env) node (pol_NodeSelector p)
            \<and> ce_BridgeExists env (bs_Name b) w = Inr True \<and> bs_Name b = n \<and> ad = bridgeToDevice b))
    \<and> vhostUserConfig d' = vhostUserConfig d"
proof -
  obtain bs w1 where v: "policy_view env nodeName namespace w = Some bs" and valid: "valid_bridges bs"
    and d': "d' = updateBridges bs d" by (rule policy_Reconcile_ok [OF assms]) blast
  from v obtain node ps where read: "k8s_GetNode env nodeName w = Inr node" "k8s_ListPolicies env namespace w = Inr ps"
    and c: "collect_bridges (matchesNodeSelector (nodeaffinity_NewNodeSelector env) node) (\<lambda>n. ce_BridgeExists env n w) [] ps = Inr bs"
    unfolding policy_view_Some by blast
  have dist: "distinct (map bs_Name bs)" using valid by (simp add: valid_bridges_def)
  have "allocatable d' n = Some ad \<longleftrightarrow> (\<exists>b \<in> set bs. bs_Name b = n \<and> ad = bridgeToDevice b)" for n ad
    unfolding d' updateBridges_def
    by (simp add: computeAllocatableDevices_iff [OF dist])
  moreover have "set bs = {b. \<exists>p \<in> set ps. b \<in> set (pol_Bridges p) \<and>
      matchesNodeSelector (nodeaffinity_NewNodeSelector env) node (pol_NodeSelector p) \<and> ce_BridgeExists env (bs_Name b) w = Inr True}"
    using collect_bridges_spec [OF c] by (auto simp: active_bridges_def)
  ultimately have "allocatable d' n = Some ad \<longleftrightarrow>
         (\<exists>p \<in> set ps. \<exists>b \<in> set (pol_Bridges p).
            matchesNodeSelector (nodeaffinity_NewNodeSelector env) node (pol_NodeSelector p)
            \<and> ce_BridgeExists env (bs_Name b) w = Inr True \<and> bs_Name b = n \<and> ad = bridgeToDevice b)" for n ad by blast
  moreover have "vhostUserConfig d' = vhostUserConfig d" by (simp add: d' updateBridges_def)
  ultimately show ?thesis using read by blast
qed

text \<open>One policy without a selector, of two bridges of which OVS has one.\<close>

definition one_policy :: "(string, unit) controller_env" where
  "one_policy =
     \<lparr>k8s_GetNode = (\<lambda>n w. Inr \<lparr>nm_Name = n, nm_Labels = Map.empty\<rparr>),
      k8s_ListPolicies = (\<lambda>ns w. Inr [\<lparr>pol_Name = ''p'', pol_NodeSelector = None,
        pol_Bridges = [sample_bridge, sample_bridge\<lparr>bs_Name := ''br9''\<rparr>]\<rparr>]),
      k8s_GetConfig = (\<lambda>n w. Inl (ApiStatus NotFound)),
      nodeaffinity_NewNodeSelector = (\<lambda>terms. Inl (External ''invalid'')),
      ce_BridgeExists = (\<lambda>n w. Inr (n = ''br0'')),
      ce_republish = (\<lambda>d w. (None, w)), ce_UpdateResources = (\<lambda>bs w. (None, w))\<rparr>"

lemma one_policy_reconcile:
  "policy_Reconcile one_policy ''node1'' ''ns'' DeviceState_New ()
     = (Ok \<lparr>RequeueAfter = 0\<rparr>, updateBridges [sample_bridge] DeviceState_New, ())"
  by (simp add: policy_Reconcile_def one_policy_def matchesNodeSelector_def sample_bridge_def UpdatePolicyDevices_def
      DeviceState_New_def updateBridges_def)

theorem policy_Reconcile_success_witness:
  "allocatable (updateBridges [sample_bridge] DeviceState_New) ''br0'' = Some (bridgeToDevice sample_bridge)
   \<and> allocatable (updateBridges [sample_bridge] DeviceState_New) ''br9'' = None"
proof -
  have iff: "allocatable (updateBridges [sample_bridge] DeviceState_New) n = Some ad \<longleftrightarrow> n = ''br0'' \<and> ad = bridgeToDevice sample_bridge" for n ad
    using policy_Reconcile_success [OF one_policy_reconcile]
    by (simp add: one_policy_def matchesNodeSelector_def sample_bridge_def) (simp add: eq_commute)
  have "allocatable (updateBridges [sample_bridge] DeviceState_New) ''br9'' = None"
    by (rule ccontr) (auto simp: iff)
  then show ?thesis by (simp add: iff)
qed

text \<open>
  What a policy reconcile leaves behind on every path: when the node, the policies or the
  bridges could not be read it changes nothing (and a missing node is tried again after 30
  seconds); a view with a repeated bridge or a bad MTU changes nothing; with any other view
  the advertised devices are those of the view, also when publishing or the plugins fail.
\<close>

theorem policy_Reconcile_paths:
  "(case policy_Reconcile env nodeName namespace d w of
      (r, d', w') \<Rightarrow>
        (case policy_view env nodeName namespace w of
           None \<Rightarrow> d' = d \<and> w' = w \<and> (r = Ok \<lparr>RequeueAfter = 30 * time_Second\<rparr> \<or> (\<exists>e. r = Err e))
         | Some bs \<Rightarrow> if valid_bridges bs then d' = updateBridges bs d \<and> (r = Ok \<lparr>RequeueAfter = 0\<rparr> \<or> (\<exists>e. r = Err e))
                      else d' = d \<and> w' = w \<and> (\<exists>e. r = Err e)))"
proof (cases "policy_view env nodeName namespace w")
  case None
  with policy_Reconcile_blind [OF None, of d] show ?thesis by auto
next
  case (Some bs)
  obtain r1 d1 w1 where u: "UpdatePolicyDevices (ce_republish env) bs d w = (r1, d1, w1)" by (metis prod_cases3)
  have np: "r1 \<noteq> Panic m" for m
    using u by (auto simp: UpdatePolicyDevices_def Let_def split: option.splits if_splits prod.splits)
  from u show ?thesis
    using np by (cases rule: UpdatePolicyDevices_cases)
      (auto simp: Some policy_Reconcile_seen [OF Some] u split: res.split prod.split option.split)
qed

text \<open>
  The configuration reconciler follows the one object with the configured name: another
  name and a failed read change nothing; a missing object or one without a vhost-user part
  clears the configuration; else the configuration is the object's, with the default
  container root filled in. The advertised devices are never touched.
\<close>

theorem config_Reconcile_paths:
  "(case config_Reconcile env configName reqName d w of
      (r, d') \<Rightarrow>
        allocatable d' = allocatable d \<and> republishCallback d' = republishCallback d \<and>
        (if reqName \<noteq> configName then r = Ok \<lparr>RequeueAfter = 0\<rparr> \<and> d' = d
         else case k8s_GetConfig env configName w of
                Inl err \<Rightarrow> if errors_Is err (ApiStatus NotFound)
                           then r = Ok \<lparr>RequeueAfter = 0\<rparr> \<and> GetVhostUserConfig d' = None
                           else r = Err err \<and> d' = d
              | Inr spec \<Rightarrow> r = Ok \<lparr>RequeueAfter = 0\<rparr> \<and>
                  GetVhostUserConfig d' = map_option (\<lambda>v. if ContainerRootPath v = [] then v\<lparr>ContainerRootPath := ''/var/run/ovsdpdk''\<rparr> else v)
                                            (VhostUser spec)))"
  by (simp add: config_Reconcile_def UpdateConfig_def clearConfig_def updateConfig_def GetVhostUserConfig_def
      DefaultContainerRootPath_def Let_def split: sum.split option.split)

section \<open>No trigger is lost\<close>

text \<open>
  The path from a bridge change to a reconcile: the change, the call of the notifier, the
  trigger channel, the controller's work queue (a set of requests), the start of a
  reconcile, which then sees the change. \<open>ts_unseen\<close> says that a change has happened that no
  reconcile has seen.
\<close>

record trigger_state =
  ts_unseen :: bool
  ts_events :: nat
  ts_chan :: "object_key list"
  ts_queue :: "object_key set"

text \<open>The steps of the driver itself, and those with the changes from outside.\<close>

inductive deliver_step :: "string \<Rightarrow> string \<Rightarrow> trigger_state \<Rightarrow> trigger_state \<Rightarrow> bool" for nodeName namespace where
  notifier_run: "ts_events s = Suc n \<Longrightarrow>
    deliver_step nodeName namespace s (s\<lparr>ts_events := n, ts_chan := bridge_notifier namespace (ts_chan s)\<rparr>)"
| trigger_received: "ts_chan s = obj # objs \<Longrightarrow> deliver_step nodeName namespace s
    (s\<lparr>ts_chan := objs, ts_queue := ts_queue s \<union> set (watch_requests nodeName namespace TriggerWatch obj)\<rparr>)"
| reconcile_started: "req \<in> ts_queue s \<Longrightarrow>
    deliver_step nodeName namespace s (s\<lparr>ts_unseen := False, ts_queue := ts_queue s - {req}\<rparr>)"

inductive trig_step :: "string \<Rightarrow> string \<Rightarrow> trigger_state \<Rightarrow> trigger_state \<Rightarrow> bool" for nodeName namespace where
  bridge_changed: "trig_step nodeName namespace s (s\<lparr>ts_unseen := True, ts_events := Suc (ts_events s)\<rparr>)"
| object_event: "trig_step nodeName namespace s
    (s\<lparr>ts_queue := ts_queue s \<union> set (watch_requests nodeName namespace src obj)\<rparr>)"
| delivered: "deliver_step nodeName namespace s s' \<Longrightarrow> trig_step nodeName namespace s s'"

inductive trig_reachable :: "string \<Rightarrow> string \<Rightarrow> trigger_state \<Rightarrow> bool" for nodeName namespace where
  trig_start: "trig_reachable nodeName namespace \<lparr>ts_unseen = False, ts_events = 0, ts_chan = [], ts_queue = {}\<rparr>"
| trig_next: "trig_reachable nodeName namespace s \<Longrightarrow> trig_step nodeName namespace s s' \<Longrightarrow> trig_reachable nodeName namespace s'"

definition trig_inv :: "string \<Rightarrow> trigger_state \<Rightarrow> bool" where
  "trig_inv namespace s \<longleftrightarrow> length (ts_chan s) \<le> triggerChan_cap \<and> ts_queue s \<subseteq> {sync_request namespace} \<and>
     (ts_unseen s \<longrightarrow> ts_events s \<noteq> 0 \<or> ts_chan s \<noteq> [] \<or> ts_queue s \<noteq> {})"

lemma deliver_step_inv: "deliver_step nodeName namespace s s' \<Longrightarrow> trig_inv namespace s \<Longrightarrow> trig_inv namespace s'"
  by (induction rule: deliver_step.induct)
    (auto simp: trig_inv_def bridge_notifier_def triggerChan_cap_def watch_requests_def)

lemma trig_step_inv: "trig_step nodeName namespace s s' \<Longrightarrow> trig_inv namespace s \<Longrightarrow> trig_inv namespace s'"
proof (induction rule: trig_step.induct)
  case (delivered s s')
  then show ?case by (rule deliver_step_inv)
qed (auto simp: trig_inv_def watch_requests_def split: watch.splits)

lemma trig_reachable_inv: "trig_reachable nodeName namespace s \<Longrightarrow> trig_inv namespace s"
proof (induction rule: trig_reachable.induct)
  case trig_start
  then show ?case by (simp add: trig_inv_def)
qed (rule trig_step_inv)

text \<open>Every delivery step brings the change nearer, and only a state without unseen change has none.\<close>

definition distance :: "trigger_state \<Rightarrow> nat" where
  "distance s = 3 * ts_events s + 2 * length (ts_chan s) + card (ts_queue s)"

lemma deliver_step_distance:
  assumes "deliver_step nodeName namespace s s'" and "trig_inv namespace s"
  shows "distance s' < distance s"
proof -
  have fin: "finite (ts_queue s)" using assms(2) finite_subset unfolding trig_inv_def by blast
  have grow: "card (insert x (ts_queue s)) \<le> Suc (card (ts_queue s))" for x by (rule card_insert_le_m1) simp_all
  from assms(1) show ?thesis
  proof cases
    case (notifier_run n)
    then show ?thesis by (simp add: distance_def bridge_notifier_def)
  next
    case (trigger_received obj objs)
    then show ?thesis using grow [of "sync_request namespace"] by (simp add: distance_def watch_requests_def)
  next
    case (reconcile_started req)
    then show ?thesis using card_Diff1_less [OF fin] by (simp add: distance_def)
  qed
qed

lemma deliver_steps_bounded:
  "(deliver_step nodeName namespace ^^ n) s s' \<Longrightarrow> trig_inv namespace s \<Longrightarrow> trig_inv namespace s' \<and> n + distance s' \<le> distance s"
proof (induction n arbitrary: s')
  case (Suc n)
  from Suc.prems(1) obtain v where v: "(deliver_step nodeName namespace ^^ n) s v" "deliver_step nodeName namespace v s'" by auto
  have "trig_inv namespace v \<and> n + distance v \<le> distance s" using Suc.IH [OF v(1) Suc.prems(2)] .
  with deliver_step_inv [OF v(2)] deliver_step_distance [OF v(2)] show ?case by simp
qed simp

lemma deliver_step_possible:
  assumes "trig_inv namespace s" and "ts_unseen s"
  shows "\<exists>s'. deliver_step nodeName namespace s s'"
proof -
  from assms consider n where "ts_events s = Suc n" | obj objs where "ts_chan s = obj # objs" | req where "req \<in> ts_queue s"
    unfolding trig_inv_def by (metis all_not_in_conv neq_Nil_conv not0_implies_Suc)
  then show ?thesis by cases (blast intro: deliver_step.intros)+
qed

text \<open>
  C23. Although a full trigger channel drops bridge events, none is lost: as long as a change
  has not been seen by a reconcile, an event, a trigger or the sync request is on its way;
  with nothing new from outside, the driver's own steps come to an end, whatever their
  order, and when no step is left a reconcile has seen the change. The work queue never
  holds more than that one request.
\<close>

theorem no_lost_trigger:
  assumes "trig_reachable nodeName namespace s"
  shows "ts_queue s \<subseteq> {sync_request namespace} \<and> length (ts_chan s) \<le> 1
    \<and> (ts_unseen s \<longrightarrow> ts_events s \<noteq> 0 \<or> ts_chan s \<noteq> [] \<or> sync_request namespace \<in> ts_queue s)
    \<and> (\<forall>n s'. (deliver_step nodeName namespace ^^ n) s s' \<longrightarrow>
         n \<le> 3 * ts_events s + 3 \<and> ((\<nexists>s''. deliver_step nodeName namespace s' s'') \<longrightarrow> \<not> ts_unseen s'))"
proof -
  have inv: "trig_inv namespace s" using trig_reachable_inv [OF assms] .
  then have "card (ts_queue s) \<le> card {sync_request namespace}" unfolding trig_inv_def by (intro card_mono) simp_all
  then have "distance s \<le> 3 * ts_events s + 3" using inv by (simp add: distance_def trig_inv_def triggerChan_cap_def)
  then have "n \<le> 3 * ts_events s + 3 \<and> ((\<nexists>s''. deliver_step nodeName namespace s' s'') \<longrightarrow> \<not> ts_unseen s')"
    if "(deliver_step nodeName namespace ^^ n) s s'" for n s'
    using deliver_steps_bounded [OF that inv] deliver_step_possible [of namespace s' nodeName] by auto
  with inv show ?thesis by (auto simp: trig_inv_def triggerChan_cap_def)
qed

definition two_events :: trigger_state where
  "two_events = \<lparr>ts_unseen = True, ts_events = 0, ts_chan = [sync_request ''ns''], ts_queue = {}\<rparr>"

lemma two_events_reachable: "trig_reachable ''n'' ''ns'' two_events"
proof -
  let ?s = "\<lambda>u e c. \<lparr>ts_unseen = u, ts_events = e, ts_chan = c, ts_queue = {}\<rparr>"
  have "trig_reachable ''n'' ''ns'' (?s True 1 [])" using trig_next [OF trig_start bridge_changed] by simp
  from trig_next [OF this bridge_changed] have "trig_reachable ''n'' ''ns'' (?s True 2 [])" by (simp add: numeral_2_eq_2)
  from trig_next [OF this delivered [OF notifier_run [of _ 1]]] have "trig_reachable ''n'' ''ns'' (?s True 1 [sync_request ''ns''])"
    by (simp add: bridge_notifier_def triggerChan_cap_def)
  from trig_next [OF this delivered [OF notifier_run [of _ 0]]] show ?thesis
    by (simp add: two_events_def bridge_notifier_def triggerChan_cap_def)
qed

lemma two_events_run:
  "(deliver_step ''n'' ''ns'' ^^ 2) two_events \<lparr>ts_unseen = False, ts_events = 0, ts_chan = [], ts_queue = {}\<rparr>"
proof -
  let ?s = "two_events\<lparr>ts_chan := [], ts_queue := {sync_request ''ns''}\<rparr>"
  have "deliver_step ''n'' ''ns'' two_events ?s"
    using trigger_received [of two_events "sync_request ''ns''" "[]" "''n''" "''ns''"] by (simp add: two_events_def watch_requests_def)
  moreover have "deliver_step ''n'' ''ns'' ?s \<lparr>ts_unseen = False, ts_events = 0, ts_chan = [], ts_queue = {}\<rparr>"
    using reconcile_started [of "sync_request ''ns''" ?s "''n''" "''ns''"] by (simp add: two_events_def)
  ultimately show ?thesis by (auto simp: numeral_2_eq_2)
qed

theorem no_lost_trigger_witness:
  "(2::nat) \<le> 3 * ts_events two_events + 3 \<and> (\<exists>s'. deliver_step ''n'' ''ns'' two_events s')"
proof -
  have "ts_unseen two_events" by (simp add: two_events_def)
  moreover have "(deliver_step ''n'' ''ns'' ^^ 0) two_events two_events" by simp
  ultimately have "\<exists>s'. deliver_step ''n'' ''ns'' two_events s'" using no_lost_trigger [OF two_events_reachable] by blast
  moreover have "(2::nat) \<le> 3 * ts_events two_events + 3" using no_lost_trigger [OF two_events_reachable] two_events_run by blast
  ultimately show ?thesis by simp
qed

section \<open>The interface to the Device Plugins\<close>

text \<open>
  The contract behind the Go interface \<^verbatim>\<open>ResourceUpdater\<close>: an update that reports no error
  brings the world in line with the list, one that finds it in line leaves it alone.
\<close>

locale resource_updater =
  fixes update :: "BridgeSpec list \<Rightarrow> 'p \<Rightarrow> error option \<times> 'p" and inv :: "'p \<Rightarrow> bool"
    and in_line :: "BridgeSpec list \<Rightarrow> 'p \<Rightarrow> bool"
  assumes update_keeps: "inv p \<Longrightarrow> valid_list bs \<Longrightarrow> update bs p = (e, p') \<Longrightarrow> inv p'"
    and update_establishes: "inv p \<Longrightarrow> valid_list bs \<Longrightarrow> update bs p = (None, p') \<Longrightarrow> in_line bs p'"
    and update_stable: "inv p \<Longrightarrow> in_line bs p \<Longrightarrow> update bs p = (None, p)"

text \<open>
  The wiring of \<^verbatim>\<open>main.go\<close>: the reads and the publishing act on the cluster side \<open>'k\<close> of the
  world, the resource updater on the plugin side \<open>'p\<close>.
\<close>

definition wire ::
  "('term, 'k) controller_env \<Rightarrow> (BridgeSpec list \<Rightarrow> 'p \<Rightarrow> error option \<times> 'p) \<Rightarrow> ('term, 'k \<times> 'p) controller_env" where
  "wire E update =
     \<lparr>k8s_GetNode = (\<lambda>n w. k8s_GetNode E n (fst w)),
      k8s_ListPolicies = (\<lambda>ns w. k8s_ListPolicies E ns (fst w)),
      k8s_GetConfig = (\<lambda>n w. k8s_GetConfig E n (fst w)),
      nodeaffinity_NewNodeSelector = nodeaffinity_NewNodeSelector E,
      ce_BridgeExists = (\<lambda>n w. ce_BridgeExists E n (fst w)),
      ce_republish = (\<lambda>d w. case ce_republish E d (fst w) of (e, k) \<Rightarrow> (e, (k, snd w))),
      ce_UpdateResources = (\<lambda>bs w. case update bs (snd w) of (e, p) \<Rightarrow> (e, (fst w, p)))\<rparr>"

lemma wire_reads [simp]:
  "k8s_GetNode (wire E update) n w = k8s_GetNode E n (fst w)"
  "k8s_ListPolicies (wire E update) ns w = k8s_ListPolicies E ns (fst w)"
  "nodeaffinity_NewNodeSelector (wire E update) = nodeaffinity_NewNodeSelector E"
  "ce_BridgeExists (wire E update) n w = ce_BridgeExists E n (fst w)"
  by (simp_all add: wire_def)

lemma policy_view_wire: "policy_view (wire E update) nodeName namespace w = policy_view E nodeName namespace (fst w)"
  by (simp add: policy_view_def split: sum.split)

lemma UpdatePolicyDevices_wire:
  "UpdatePolicyDevices (ce_republish (wire E update)) bs d w =
     (case UpdatePolicyDevices (ce_republish E) bs d (fst w) of (r, d', k) \<Rightarrow> (r, d', (k, snd w)))"
proof (cases "ce_republish E (updateBridges bs d) (fst w)")
  case (Pair e k)
  then have "ce_republish (wire E update) (updateBridges bs d) w = (e, (k, snd w))" by (simp add: wire_def)
  with Pair show ?thesis by (simp add: UpdatePolicyDevices_def Let_def split: option.split)
qed

text \<open>What the CRD validation promises for the policies that a reconcile reads.\<close>

definition policies_valid :: "('term, 'k) controller_env \<Rightarrow> string \<Rightarrow> 'k \<Rightarrow> bool" where
  "policies_valid E namespace k \<longleftrightarrow>
     (\<forall>ps. k8s_ListPolicies E namespace k = Inr ps \<longrightarrow> list_all (\<lambda>p. valid_list (pol_Bridges p)) ps)"

lemma policy_view_valid:
  assumes "policy_view E nodeName namespace k = Some bs" and "policies_valid E namespace k"
  shows "valid_list bs"
proof -
  from assms(1) obtain node ps where ps: "k8s_ListPolicies E namespace k = Inr ps"
    and c: "collect_bridges (matchesNodeSelector (nodeaffinity_NewNodeSelector E) node) (\<lambda>n. ce_BridgeExists E n k) [] ps = Inr bs"
    unfolding policy_view_Some by blast
  have "list_all (\<lambda>p. valid_list (pol_Bridges p)) ps" using assms(2) ps by (simp add: policies_valid_def)
  with collect_bridges_spec [OF c] show ?thesis by (auto simp: active_bridges_def valid_list_def list_all_iff)
qed

context resource_updater
begin

lemma reconcile_in_line:
  assumes "inv p" and "policies_valid E namespace k"
    and "policy_Reconcile (wire E update) nodeName namespace d (k, p) = (Ok \<lparr>RequeueAfter = 0\<rparr>, d', (k', p'))"
  shows "\<exists>bs. policy_view E nodeName namespace k = Some bs \<and> d' = updateBridges bs d \<and> inv p' \<and> in_line bs p'"
proof -
  obtain bs w1 where v: "policy_view E nodeName namespace k = Some bs" and d': "d' = updateBridges bs d"
    and u: "UpdatePolicyDevices (ce_republish (wire E update)) bs d (k, p) = (Ok (), d', w1)"
    and r: "ce_UpdateResources (wire E update) bs w1 = (None, (k', p'))"
    by (rule policy_Reconcile_ok [OF assms(3)]) (simp add: policy_view_wire)
  from u have "snd w1 = p" by (auto simp: UpdatePolicyDevices_wire split: prod.splits)
  with r have up: "update bs p = (None, p')" by (auto simp: wire_def split: prod.splits)
  have "valid_list bs" using policy_view_valid [OF v assms(2)] .
  with update_keeps [OF assms(1) _ up] update_establishes [OF assms(1) _ up] v d' show ?thesis by blast
qed

lemma reconcile_again:
  assumes "inv p" and "in_line bs p" and "policy_view E nodeName namespace k = Some bs" and "valid_bridges bs"
    and "fst (ce_republish E (updateBridges bs d) k) = None"
  shows "\<exists>k'. policy_Reconcile (wire E update) nodeName namespace (updateBridges bs d) (k, p)
    = (Ok \<lparr>RequeueAfter = 0\<rparr>, updateBridges bs d, (k', p))"
proof -
  have "policy_view (wire E update) nodeName namespace (k, p) = Some bs" using assms(3) by (simp add: policy_view_wire)
  note seen = policy_Reconcile_seen [OF this]
  have "validate_bridges [] bs = None" using assms(4) validate_bridges_iff [of "[]" bs] by simp
  moreover have "updateBridges bs (updateBridges bs d) = updateBridges bs d" by (simp add: updateBridges_def)
  ultimately have "UpdatePolicyDevices (ce_republish (wire E update)) bs (updateBridges bs d) (k, p) =
      (Ok (), updateBridges bs d, (if republishCallback (updateBridges bs d) then snd (ce_republish E (updateBridges bs d) k) else k, p))"
    using assms(5) unfolding UpdatePolicyDevices_wire
    by (cases "ce_republish E (updateBridges bs d) k") (simp add: UpdatePolicyDevices_def Let_def)
  moreover have "ce_UpdateResources (wire E update) bs (k', p) = (None, (k', p))" for k'
    using update_stable [OF assms(1,2)] by (simp add: wire_def)
  ultimately show ?thesis unfolding seen by simp
qed

end

section \<open>The manager as the resource updater\<close>

definition mgr_update ::
  "dp_env \<Rightarrow> (string \<Rightarrow> int list) \<Rightarrow> (Manager \<Rightarrow> string list) \<Rightarrow> (BridgeSpec list \<Rightarrow> string list)
   \<Rightarrow> BridgeSpec list \<Rightarrow> Manager \<times> dp_host \<Rightarrow> error option \<times> (Manager \<times> dp_host)" where
  "mgr_update env nodes order1 order2 bs p =
     (case p of (m, h) \<Rightarrow> UpdateResources env nodes (order1 m) (order2 bs) bs m h)"

definition mgr_in_line :: "(string \<Rightarrow> int list) \<Rightarrow> BridgeSpec list \<Rightarrow> Manager \<times> dp_host \<Rightarrow> bool" where
  "mgr_in_line nodes bs p \<longleftrightarrow> \<not> conflicting bs \<and>
     (\<forall>b r. topology (fst p) b = Some r \<longleftrightarrow> b \<in> wanted bs r) \<and>
     (\<forall>r k. map_option GetNUMA (servers (fst p) r) = Some k \<longleftrightarrow> agree nodes (wanted bs r) k)"

lemma serves_strict:
  assumes "serves nodes B True m r"
  shows "map_option GetNUMA (servers m r) = Some k \<longleftrightarrow> agree nodes B k"
proof (cases "servers m r")
  case (Some s)
  with assms have "agree nodes B (GetNUMA s)" by (simp add: serves_def)
  with Some show ?thesis by (auto simp: agree_def)
qed (use assms in \<open>simp add: serves_def\<close>)

lemma stop_servers_none: "(\<And>r s. servers m r = Some s \<Longrightarrow> \<not> gone r) \<Longrightarrow> stop_servers env gone order m h = (m, h)"
  by (induction order) (auto split: option.split)

lemma ensureServer_stable:
  assumes "\<And>k. map_option GetNUMA (servers m r) = Some k \<longleftrightarrow> agree nodes (set brs) k"
  shows "ensureServer env nodes r brs m h = (None, m, h)"
proof (cases "servers m r")
  case None
  then have "getConsistentNUMA nodes brs = - 1" using assms by (intro getConsistentNUMA_disagree) simp
  with None show ?thesis by (simp add: ensureServer_def)
next
  case (Some s)
  then have "agree nodes (set brs) (GetNUMA s)" using assms [of "GetNUMA s"] by simp
  from getConsistentNUMA_agree [OF this] Some show ?thesis by (simp add: ensureServer_def)
qed

lemma ensure_all_stable:
  assumes "\<And>r k. map_option GetNUMA (servers m r) = Some k \<longleftrightarrow> agree nodes (set (case byRes r of None \<Rightarrow> [] | Some brs \<Rightarrow> brs)) k"
  shows "ensure_all env nodes byRes order m h = ([], m, h)"
  by (induction order) (simp_all add: ensureServer_stable [OF assms])

text \<open>Servers are not restarted by an update that finds everything in place.\<close>

lemma UpdateResources_stable:
  assumes "mgr_in_line nodes bs (m, h)"
  shows "UpdateResources env nodes order1 order2 bs m h = (None, m, h)"
proof -
  obtain topo byRes where t: "build_topology Map.empty Map.empty bs = Inr (topo, byRes)"
    using assms build_topology_fails_iff [of bs] by (metis mgr_in_line_def old.sum.exhaust surj_pair)
  note T = build_topology_spec [OF t]
  have line: "\<And>b r. topology m b = Some r \<longleftrightarrow> b \<in> wanted bs r"
    "\<And>r k. map_option GetNUMA (servers m r) = Some k \<longleftrightarrow> agree nodes (wanted bs r) k"
    using assms by (simp_all add: mgr_in_line_def)
  have "topo = topology m"
  proof
    show "topo b = topology m b" for b using T(1) line(1) by (metis not_Some_eq)
  qed
  then have m: "m\<lparr>topology := topo\<rparr> = m" by simp
  have "stop_servers env (\<lambda>r. byRes r = None) order1 m h = (m, h)"
  proof (rule stop_servers_none)
    show "byRes r \<noteq> None" if "servers m r = Some s" for r s
      using line(2) [of r "GetNUMA s"] that T(2) [of r] by (simp add: agree_def)
  qed
  moreover have "ensure_all env nodes byRes order2 m h = ([], m, h)"
    by (rule ensure_all_stable) (simp only: T(3) line(2))
  ultimately show ?thesis using t m by (simp add: UpdateResources_def errors_Join_def)
qed

text \<open>A node with a kubelet directory, and orders for the two range loops.\<close>

locale plugin_node =
  fixes env :: dp_env and cs :: "string list" and nodes :: "string \<Rightarrow> int list"
    and order1 :: "Manager \<Rightarrow> string list" and order2 :: "BridgeSpec list \<Rightarrow> string list"
  assumes dir: "plugin_dir env cs"
    and orders: "mgr_inv env m h \<Longrightarrow> update_orders bs m (order1 m) (order2 bs)"

sublocale plugin_node \<subseteq> plugins: resource_updater "mgr_update env nodes order1 order2" "\<lambda>p. mgr_inv env (fst p) (snd p)" "mgr_in_line nodes"
proof
  fix p :: "Manager \<times> dp_host" and bs e p'
  assume inv: "mgr_inv env (fst p) (snd p)" and valid: "valid_list bs" and u: "mgr_update env nodes order1 order2 bs p = (e, p')"
  have U: "UpdateResources env nodes (order1 (fst p)) (order2 bs) bs (fst p) (snd p) = (e, fst p', snd p')"
    using u by (simp add: mgr_update_def split: prod.splits)
  show "mgr_inv env (fst p') (snd p')"
  proof (cases "conflicting bs")
    case True
    with UpdateResources_conflict [OF True, of env nodes "order1 (fst p)" "order2 bs" "fst p" "snd p"] U inv show ?thesis by auto
  qed (use UpdateResources_inv(1) [OF inv dir valid orders [OF inv] _ U] in simp)
next
  fix p :: "Manager \<times> dp_host" and bs p'
  assume inv: "mgr_inv env (fst p) (snd p)" and valid: "valid_list bs" and u: "mgr_update env nodes order1 order2 bs p = (None, p')"
  have U: "UpdateResources env nodes (order1 (fst p)) (order2 bs) bs (fst p) (snd p) = (None, fst p', snd p')"
    using u by (simp add: mgr_update_def split: prod.splits)
  have nc: "\<not> conflicting bs"
    using U UpdateResources_conflict [of bs env nodes "order1 (fst p)" "order2 bs" "fst p" "snd p"] by auto
  note UI = UpdateResources_inv [OF inv dir valid orders [OF inv] nc U]
  show "mgr_in_line nodes bs p'"
    unfolding mgr_in_line_def using nc UI(2) serves_strict UI(3) by simp
next
  fix p :: "Manager \<times> dp_host" and bs
  assume "mgr_in_line nodes bs p"
  then show "mgr_update env nodes order1 order2 bs p = (None, p)"
    by (cases p) (simp add: mgr_update_def UpdateResources_stable)
qed

definition server_order :: "Manager \<Rightarrow> string list" where
  "server_order m = (SOME ks. range_order (servers m) ks)"

definition resource_order :: "BridgeSpec list \<Rightarrow> string list" where
  "resource_order bs = remdups (map (\<lambda>b. TopologyResourcePrefix @ TopologyResource b) (filter (\<lambda>b. TopologyResource b \<noteq> []) bs))"

lemma resource_order_set: "set (resource_order bs) = {r. wanted bs r \<noteq> {}}"
proof -
  have "r \<in> set (resource_order bs) \<longleftrightarrow> wanted bs r \<noteq> {}" for r
    by (induction bs) (simp_all add: resource_order_def wanted_Cons, simp add: wanted_def)
  then show ?thesis by blast
qed

lemma kubelet_orders:
  assumes "finite (dom (servers m))"
  shows "update_orders bs m (server_order m) (resource_order bs)"
proof -
  have "range_order (servers m) (server_order m)"
    unfolding server_order_def using assms by (metis range_order_exists someI_ex)
  then show ?thesis by (simp add: update_orders_def resource_order_set) (simp add: resource_order_def)
qed

interpretation kubelet_node: plugin_node kubelet_env "[''var'', ''lib'', ''kubelet'', ''device-plugins'']" nodes server_order resource_order
  for nodes
proof
  show "plugin_dir kubelet_env [''var'', ''lib'', ''kubelet'', ''device-plugins'']" by (rule kubelet_dir)
  fix m :: Manager and h bs
  assume "mgr_inv kubelet_env m h"
  then show "update_orders bs m (server_order m) (resource_order bs)" by (simp add: mgr_inv_except_def kubelet_orders)
qed

context plugin_node
begin

lemmas reconcile_in_line_law = plugins.reconcile_in_line
lemmas reconcile_again_law = plugins.reconcile_again

end

text \<open>
  C22. The controllers converge in one pass and then rest: after a successful policy reconcile
  wired to the topology Device Plugins, a resource is announced exactly when its active
  bridges agree on a NUMA node; and a further reconcile of an unchanged cluster succeeds,
  with the device state, the servers and their sockets left exactly as they are.
\<close>

theorem reconcile_converges:
  assumes "plugin_dir env cs" and "\<forall>m h bs. mgr_inv env m h \<longrightarrow> update_orders bs m (order1 m) (order2 bs)"
    and "mgr_inv env m h" and "policies_valid E namespace k"
    and "policy_Reconcile (wire E (mgr_update env nodes order1 order2)) nodeName namespace d (k, (m, h))
           = (Ok \<lparr>RequeueAfter = 0\<rparr>, d', (k', (m', h')))"
    and "policy_view E nodeName namespace k' = policy_view E nodeName namespace k"
    and "fst (ce_republish E d' k') = None"
  shows "\<exists>bs k''. policy_view E nodeName namespace k = Some bs \<and> d' = updateBridges bs d
    \<and> (\<forall>r n. map_option GetNUMA (servers m' r) = Some n \<longleftrightarrow> agree nodes (wanted bs r) n)
    \<and> policy_Reconcile (wire E (mgr_update env nodes order1 order2)) nodeName namespace d' (k', (m', h'))
         = (Ok \<lparr>RequeueAfter = 0\<rparr>, d', (k'', (m', h')))"
proof -
  have pn: "plugin_node env cs order1 order2" using assms(1,2) by (auto intro: plugin_node.intro)
  have inv: "mgr_inv env (fst (m, h)) (snd (m, h))" using assms(3) by simp
  from plugin_node.reconcile_in_line_law [OF pn inv assms(4,5)] obtain bs
    where v: "policy_view E nodeName namespace k = Some bs" and d': "d' = updateBridges bs d"
      and inv': "mgr_inv env (fst (m', h')) (snd (m', h'))" and line: "mgr_in_line nodes bs (m', h')" by auto
  have valid: "valid_bridges bs"
    by (rule policy_Reconcile_ok [OF assms(5)]) (use v in \<open>simp add: policy_view_wire\<close>)
  have "policy_view E nodeName namespace k' = Some bs" using assms(6) v by simp
  from plugin_node.reconcile_again_law [OF pn inv' line this valid] assms(7) d' obtain k'' where
    "policy_Reconcile (wire E (mgr_update env nodes order1 order2)) nodeName namespace d' (k', (m', h'))
       = (Ok \<lparr>RequeueAfter = 0\<rparr>, d', (k'', (m', h')))" by auto
  with v d' line show ?thesis unfolding mgr_in_line_def by auto
qed

text \<open>A cluster with one policy of the three sample bridges.\<close>

definition numa0_cluster :: "(string, unit) controller_env" where
  "numa0_cluster = one_policy
     \<lparr>k8s_ListPolicies := (\<lambda>ns k. Inr [\<lparr>pol_Name = ''p'', pol_NodeSelector = None, pol_Bridges = numa0_bridges\<rparr>]),
      ce_BridgeExists := (\<lambda>n k. Inr True)\<rparr>"

lemma numa0_orders: "server_order new_Manager = []" "resource_order numa0_bridges = [numa0]"
proof -
  have "range_order (servers new_Manager) ks \<longleftrightarrow> ks = []" for ks by (auto simp: range_order_def new_Manager_def)
  then show "server_order new_Manager = []" by (simp add: server_order_def)
  show "resource_order numa0_bridges = [numa0]" by (simp add: resource_order_def numa0_bridges_def)
qed

lemma numa0_view: "policy_view numa0_cluster ''node1'' ''ns'' () = Some numa0_bridges"
  by (simp add: policy_view_def numa0_cluster_def one_policy_def matchesNodeSelector_def numa0_bridges_def)

lemma numa0_reconcile:
  "policy_Reconcile (wire numa0_cluster (mgr_update kubelet_env numa0_nodes server_order resource_order)) ''node1'' ''ns''
     DeviceState_New ((), (new_Manager, fresh_host))
   = (Ok \<lparr>RequeueAfter = 0\<rparr>, updateBridges numa0_bridges DeviceState_New, ((), snd numa0_update))"
proof -
  have u: "numa0_update = (None, snd numa0_update)" using numa0_update_ok by (metis prod.collapse)
  have "validate_bridges [] numa0_bridges = None" by (simp add: numa0_bridges_def)
  then have "UpdatePolicyDevices (ce_republish (wire numa0_cluster update)) numa0_bridges DeviceState_New ((), (new_Manager, fresh_host))
      = (Ok (), updateBridges numa0_bridges DeviceState_New, ((), (new_Manager, fresh_host)))" for update
    by (simp add: UpdatePolicyDevices_def updateBridges_def DeviceState_New_def)
  moreover have "ce_UpdateResources (wire numa0_cluster (mgr_update kubelet_env numa0_nodes server_order resource_order))
      numa0_bridges ((), (new_Manager, fresh_host)) = (None, ((), snd numa0_update))"
  proof -
    obtain m' h' where n: "numa0_update = (None, m', h')" using u by (cases "snd numa0_update") simp
    have "ce_UpdateResources (wire numa0_cluster (mgr_update kubelet_env numa0_nodes server_order resource_order))
        numa0_bridges ((), (new_Manager, fresh_host)) = (case numa0_update of (e, p) \<Rightarrow> (e, ((), p)))"
      by (simp add: wire_def mgr_update_def numa0_orders numa0_update_def)
    then show ?thesis by (simp add: n)
  qed
  ultimately show ?thesis
    using numa0_view by (subst policy_Reconcile_seen [of _ _ _ _ numa0_bridges]) (simp_all add: policy_view_wire)
qed

theorem reconcile_converges_witness:
  "map_option GetNUMA (servers (fst (snd numa0_update)) numa0) = Some 0
   \<and> (\<exists>k. policy_Reconcile (wire numa0_cluster (mgr_update kubelet_env numa0_nodes server_order resource_order)) ''node1'' ''ns''
         (updateBridges numa0_bridges DeviceState_New) ((), snd numa0_update)
       = (Ok \<lparr>RequeueAfter = 0\<rparr>, updateBridges numa0_bridges DeviceState_New, (k, snd numa0_update)))"
proof -
  obtain m' h' where u: "snd numa0_update = (m', h')" by (cases "snd numa0_update")
  have "policies_valid numa0_cluster ''ns'' ()"
    using numa0_list(1) by (simp add: policies_valid_def numa0_cluster_def)
  moreover have "fst (ce_republish numa0_cluster (updateBridges numa0_bridges DeviceState_New) ()) = None"
    by (simp add: numa0_cluster_def one_policy_def)
  moreover have "\<forall>m h bs. mgr_inv kubelet_env m h \<longrightarrow> update_orders bs m (server_order m) (resource_order bs)"
    using kubelet_node.orders by blast
  ultimately obtain bs k'' where "policy_view numa0_cluster ''node1'' ''ns'' () = Some bs"
    "\<forall>r n. map_option GetNUMA (servers m' r) = Some n \<longleftrightarrow> agree numa0_nodes (wanted bs r) n"
    "policy_Reconcile (wire numa0_cluster (mgr_update kubelet_env numa0_nodes server_order resource_order)) ''node1'' ''ns''
       (updateBridges numa0_bridges DeviceState_New) ((), (m', h')) = (Ok \<lparr>RequeueAfter = 0\<rparr>, updateBridges numa0_bridges DeviceState_New, (k'', (m', h')))"
    using reconcile_converges [OF kubelet_dir _ new_manager_inv _ numa0_reconcile [unfolded u]] by blast
  then show ?thesis unfolding u using numa0_view by (simp add: numa0_agree)
qed

end
