(* ===== verification/NumaSystem.thy ===== *)
theory NumaSystem
  imports Ovsdb PluginManager
begin

text \<open>
  The NUMA map of \<^verbatim>\<open>pkg/ovs/client.go\<close> and the manager of \<^verbatim>\<open>pkg/deviceplugin\<close> together. First
  what the map reports, in every state that the client can reach; then the composition:
  interface events change the map and are told to the manager, bridge deletions change it
  and are followed by a policy update. The composed system is a refinement of the state
  machine of the theory \<open>PluginManager\<close>.
\<close>

section \<open>The NUMA map\<close>

text \<open>
  In every state the client can reach, under any interleaving of cache events, event
  processing and database changes, the NUMA nodes reported for a bridge are distinct,
  each was read from sysfs for a well-formed PCI address, and the list is empty exactly
  when the map has no entry for the bridge (no bridge is kept with an empty entry).
\<close>

theorem reachable_BridgeNUMANodes:
  assumes "ovs_reachable readFile lib (c, db)"
    and "\<And>m. numaMap c b = Some m \<Longrightarrow> set (order m) = Mapping.keys m"
  shows "distinct (ovsClient_BridgeNUMANodes order b c)
    \<and> (\<forall>n \<in> set (ovsClient_BridgeNUMANodes order b c). sysfs_node readFile n)
    \<and> (ovsClient_BridgeNUMANodes order b c = [] \<longleftrightarrow> numaMap c b = None)"
proof (cases "numaMap c b")
  case None
  then show ?thesis by (simp add: ovsClient_BridgeNUMANodes_def)
next
  case (Some m)
  have inv: "numa_inv readFile c" using reachable_numa_inv [OF assms(1)] by simp
  have ord: "set (order m) = Mapping.keys m" using Some by (rule assms(2))
  note nodes = BridgeNUMANodes_Some [where order = order, OF Some ord]
  obtain u n where "Mapping.lookup m u = Some n"
    using numa_invD(1) [OF inv Some] by (auto simp: mapping_is_empty_iff)
  then have "ovsClient_BridgeNUMANodes order b c \<noteq> []" using nodes(1) by (metis (mono_tags, lifting) empty_iff list.set(1) mem_Collect_eq)
  with nodes Some numa_invD(3) [OF inv Some] show ?thesis by auto
qed

definition uplink_row :: Interface where
  "uplink_row =
     \<lparr>if_UUID = ''i0'', if_Name = ''dpdk0'', if_Type = ''dpdk'', if_Options = [''dpdk-devargs'' \<mapsto> ''0000:03:00.0''],
      if_IngressPolicingRate = 0, if_IngressPolicingBurst = 0, if_MTURequest = None\<rparr>"

definition node1_file :: "string \<Rightarrow> error + string" where
  "node1_file path = Inr ''1''"

text \<open>The client after the interface row has arrived, and after its event has been consumed.\<close>

definition uplink_queued :: ovsClient where
  "uplink_queued = snd (monitor_AddFunc (InterfaceRow uplink_row) (new_ovsClient\<lparr>ifaceNotifier := True\<rparr>))"

definition uplink_consumed :: "string list \<times> ovsClient \<times> ovs_tables" where
  "uplink_consumed = the (processInterfaceEvent node1_file ref_lib [] uplink_queued sample_tables)"

text \<open>An interface event changes the entry of at most one bridge, and that bridge is notified (unless its name is empty).\<close>

definition changes_only :: "ovsClient \<Rightarrow> string list \<Rightarrow> ovsClient \<Rightarrow> bool" where
  "changes_only c bs c' \<longleftrightarrow> ifaceNotifier c' = ifaceNotifier c \<and>
     (\<exists>b. (\<forall>b'. b' \<noteq> b \<longrightarrow> numaMap c' b' = numaMap c b') \<and>
          (numaMap c' = numaMap c \<or> b = [] \<or> (ifaceNotifier c \<longrightarrow> b \<in> set bs)))"

lemma handleInterfaceAdd_change:
  assumes "handleInterfaceAdd readFile lib ev c db = (bs, c', db')"
  shows "changes_only c bs c'"
proof (cases "c' = c")
  case False
  from assms False obtain n b where
    "c' = c\<lparr>numaMap := (numaMap c)(b \<mapsto> Mapping.update (ev_uuid ev) n (case numaMap c b of None \<Rightarrow> Mapping.empty | Some m \<Rightarrow> m))\<rparr>"
    "bs = (if ifaceNotifier c then [b] else [])"
    by (auto simp: handleInterfaceAdd_def Let_def split: sum.splits prod.splits)
  then show ?thesis unfolding changes_only_def by (intro conjI exI [of _ b]) simp_all
qed (simp add: changes_only_def)

lemma handleInterfaceDelete_change:
  assumes "handleInterfaceDelete ks ev c = (bs, c')"
  shows "changes_only c bs c'"
proof (cases "c' = c")
  case False
  from assms False obtain b where
    "c' = c\<lparr>numaMap := (numaMap c)(b := remove_iface (ev_uuid ev) (the (numaMap c b)))\<rparr>"
    "bs = (if ifaceNotifier c \<and> b \<noteq> [] then [b] else [])"
    by (auto simp: handleInterfaceDelete_def Let_def split: option.splits if_splits)
  then show ?thesis unfolding changes_only_def by (intro conjI exI [of _ b]) auto
qed (simp add: changes_only_def)

lemma dom_single:
  assumes "\<forall>k'. k' \<noteq> k \<longrightarrow> f k' = None" and "f a = Some x"
  shows "dom f = {a}"
proof -
  have "a = k" using assms by (metis option.distinct(1))
  with assms show ?thesis by (auto simp: dom_def)
qed

lemma uplink_run:
  "processInterfaceEvent node1_file ref_lib [] uplink_queued sample_tables \<noteq> None"
  "ovsClient_BridgeNUMANodes (\<lambda>_. [''i0'']) ''br0'' (fst (snd uplink_consumed)) = [1]"
  "map_option Mapping.keys (numaMap (fst (snd uplink_consumed)) ''br0'') = Some {''i0''}"
  "numaMap uplink_queued = Map.empty"
  by (code_simp, code_simp, code_simp, simp add: uplink_queued_def monitor_AddFunc_def send_iface_def new_ovsClient_def)

lemma uplink_reachable: "ovs_reachable node1_file ref_lib (snd uplink_consumed)"
proof -
  let ?c = "new_ovsClient\<lparr>ifaceNotifier := True\<rparr>"
  have "ovs_reachable node1_file ref_lib (?c, sample_tables)"
    using ovs_next [OF ovs_start notifiers_set [where f = False and g = True], of node1_file ref_lib sample_tables]
    by (simp add: SetBridgeNotifier_def SetInterfaceNotifier_def new_ovsClient_def)
  moreover have "ovs_step node1_file ref_lib (?c, sample_tables) (uplink_queued, sample_tables)"
    by (rule row_added [where row = "InterfaceRow uplink_row"]) (simp add: uplink_queued_def prod_eq_iff monitor_AddFunc_def)
  moreover have "ovs_step node1_file ref_lib (uplink_queued, sample_tables) (snd uplink_consumed)"
  proof -
    obtain bs c' db' where p: "processInterfaceEvent node1_file ref_lib [] uplink_queued sample_tables = Some (bs, c', db')"
      using uplink_run(1) by (metis option.exhaust prod_cases3)
    have "range_order (numaMap uplink_queued) []" by (simp add: uplink_run(4) range_order_def)
    from event_consumed [OF this p] p show ?thesis by (simp add: uplink_consumed_def)
  qed
  ultimately show ?thesis using ovs_next by blast
qed

theorem reachable_BridgeNUMANodes_witness:
  "sysfs_node node1_file 1 \<and> ovsClient_BridgeNUMANodes (\<lambda>_. [''i0'']) ''br0'' (fst (snd uplink_consumed)) = [1]"
proof -
  have "ovs_reachable node1_file ref_lib (fst (snd uplink_consumed), snd (snd uplink_consumed))" using uplink_reachable by simp
  note reach = reachable_BridgeNUMANodes [where order = "\<lambda>_. [''i0'']" and b = "''br0''", OF this]
  have "Mapping.keys m = {''i0''}" if "numaMap (fst (snd uplink_consumed)) ''br0'' = Some m" for m
    using uplink_run(3) that by simp
  then have "\<forall>n \<in> set (ovsClient_BridgeNUMANodes (\<lambda>_. [''i0'']) ''br0'' (fst (snd uplink_consumed))). sysfs_node node1_file n"
    using reach by simp
  then show ?thesis by (simp add: uplink_run(2))
qed

text \<open>
  An interface that is added and then deleted leaves the NUMA map exactly as it was
  before, whatever the outcome of the add and in whatever order the deletion ranges over
  the map, provided the interface was unknown before.
\<close>

theorem interface_add_delete_roundtrip:
  assumes "numa_inv readFile c"
    and "\<And>b m. numaMap c b = Some m \<Longrightarrow> Mapping.lookup m (ev_uuid ev) = None"
    and "handleInterfaceAdd readFile lib ev c db = (ns, c1, db1)"
    and "range_order (numaMap c1) order" and "ev_uuid ev' = ev_uuid ev"
  shows "numaMap (snd (handleInterfaceDelete order ev' c1)) = numaMap c"
proof (cases "c1 = c")
  case True
  with assms(2,5) show ?thesis by (simp add: handleInterfaceDelete_unknown)
next
  case False
  from assms(3) False obtain n b where
    c1: "numaMap c1 = (numaMap c)(b \<mapsto> Mapping.update (ev_uuid ev) n
                 (case numaMap c b of None \<Rightarrow> Mapping.empty | Some m \<Rightarrow> m))"
    by (auto simp: handleInterfaceAdd_def Let_def split: sum.splits prod.splits)
  let ?old = "case numaMap c b of None \<Rightarrow> Mapping.empty | Some m \<Rightarrow> m"
  have old: "Mapping.lookup ?old (ev_uuid ev) = None" using assms(2) by (simp split: option.split)
  have "numaMap (snd (handleInterfaceDelete order ev' c1))
      = (numaMap c1)(b := remove_iface (ev_uuid ev') (Mapping.update (ev_uuid ev) n ?old))"
    using assms(2,4,5) c1 by (intro handleInterfaceDelete_only) (auto split: if_splits)
  also have "\<dots> = numaMap c"
  proof (cases "numaMap c b")
    case None
    then show ?thesis
      using c1 old assms(5) by (auto simp: remove_iface_def delete_update_fresh mapping_is_empty_iff)
  next
    case (Some m)
    with numa_invD(1) [OF assms(1) Some] c1 old assms(5) show ?thesis
      by (auto simp: remove_iface_def delete_update_fresh)
  qed
  finally show ?thesis .
qed

abbreviation uplink_event :: ifaceEvent where
  "uplink_event \<equiv> \<lparr>ev_uuid = ''i0'', ev_name = ''dpdk0'', ev_devargs = ''0000:03:00.0'', ev_added = True\<rparr>"

lemma uplink_added:
  "handleInterfaceAdd node1_file ref_lib uplink_event (new_ovsClient\<lparr>ifaceNotifier := True\<rparr>) sample_tables
     = (fst uplink_consumed, fst (snd uplink_consumed), snd (snd uplink_consumed))"
proof -
  have q: "uplink_queued = new_ovsClient\<lparr>ifaceNotifier := True, ifaceCh := [uplink_event]\<rparr>"
    by (simp add: uplink_queued_def monitor_AddFunc_def send_iface_def new_ovsClient_def ifaceCh_cap_def uplink_row_def)
  have "uplink_consumed = handleInterfaceAdd node1_file ref_lib uplink_event (new_ovsClient\<lparr>ifaceNotifier := True\<rparr>) sample_tables"
    by (simp add: uplink_consumed_def q processInterfaceEvent_def new_ovsClient_def)
  then show ?thesis by simp
qed

lemma uplink_dom: "dom (numaMap (fst (snd uplink_consumed))) = {''br0''}"
proof -
  have ch: "numaMap (new_ovsClient\<lparr>ifaceNotifier := True\<rparr>) = Map.empty" by (simp add: new_ovsClient_def)
  from handleInterfaceAdd_change [OF uplink_added] obtain b where
    b: "\<forall>b'. b' \<noteq> b \<longrightarrow> numaMap (fst (snd uplink_consumed)) b' = None"
    unfolding changes_only_def ch by auto
  obtain x where "numaMap (fst (snd uplink_consumed)) ''br0'' = Some x" using uplink_run(3) by auto
  from dom_single [OF b this] show ?thesis .
qed

theorem interface_add_delete_roundtrip_witness:
  "numaMap (snd (handleInterfaceDelete [''br0''] (uplink_event\<lparr>ev_added := False\<rparr>) (fst (snd uplink_consumed)))) = Map.empty"
proof -
  let ?c = "new_ovsClient\<lparr>ifaceNotifier := True\<rparr>"
  have ch: "numaMap ?c = Map.empty" by (simp add: new_ovsClient_def)
  have inv: "numa_inv node1_file ?c" using numa_inv_new [of node1_file] by (simp add: numa_inv_def new_ovsClient_def)
  have "range_order (numaMap (fst (snd uplink_consumed))) [''br0'']" by (simp add: range_order_def uplink_dom)
  from interface_add_delete_roundtrip [OF inv _ uplink_added this] ch show ?thesis by simp
qed

section \<open>The client and the manager together\<close>

text \<open>
  A state of the composed system: the client and its database, the notifications that the
  event goroutine still has to deliver, the bridges that were deleted since the policies
  were last evaluated, the manager and the host. \<open>order\<close> fixes how ranges over the inner
  maps run.
\<close>

record 'db numa_system =
  ns_client :: ovsClient
  ns_db :: 'db
  ns_todo :: "string list"
  ns_deleted :: "string set"
  ns_manager :: Manager
  ns_host :: dp_host

abbreviation client_nodes :: "((string, int) mapping \<Rightarrow> string list) \<Rightarrow> ovsClient \<Rightarrow> string \<Rightarrow> int list" where
  "client_nodes order c b \<equiv> ovsClient_BridgeNUMANodes order b c"

inductive ns_step ::
  "dp_env \<Rightarrow> (string \<Rightarrow> error + string) \<Rightarrow> ('op, 'res, 'db) libovsdb \<Rightarrow> ((string, int) mapping \<Rightarrow> string list)
   \<Rightarrow> 'db numa_system \<Rightarrow> 'db numa_system \<Rightarrow> bool" for env readFile lib order where
  row_added: "monitor_AddFunc row (ns_client s) = (es, c') \<Longrightarrow> ns_step env readFile lib order s (s\<lparr>ns_client := c'\<rparr>)"
| interface_row_deleted: "monitor_DeleteFunc (InterfaceRow i) (ns_client s) = (es, c') \<Longrightarrow>
    ns_step env readFile lib order s (s\<lparr>ns_client := c'\<rparr>)"
| bridge_row_deleted: "monitor_DeleteFunc (BridgeRow br) (ns_client s) = (es, c') \<Longrightarrow>
    ns_step env readFile lib order s (s\<lparr>ns_client := c', ns_deleted := insert (br_Name br) (ns_deleted s)\<rparr>)"
| event_consumed: "ns_todo s = [] \<Longrightarrow> range_order (numaMap (ns_client s)) ks \<Longrightarrow>
    processInterfaceEvent readFile lib ks (ns_client s) (ns_db s) = Some (bs, c', db') \<Longrightarrow>
    ns_step env readFile lib order s (s\<lparr>ns_client := c', ns_db := db', ns_todo := bs\<rparr>)"
| notifier_called: "ns_todo s = b # bs \<Longrightarrow> range_order (topology (ns_manager s)) ks \<Longrightarrow>
    OnInterfaceChange env (client_nodes order (ns_client s)) ks b (ns_manager s) (ns_host s) = (m', h') \<Longrightarrow>
    ns_step env readFile lib order s (s\<lparr>ns_todo := bs, ns_manager := m', ns_host := h'\<rparr>)"
| policies_evaluated: "valid_list bridges \<Longrightarrow> update_orders bridges (ns_manager s) ks1 ks2 \<Longrightarrow>
    UpdateResources env (client_nodes order (ns_client s)) ks1 ks2 bridges (ns_manager s) (ns_host s) = (e, m', h') \<Longrightarrow>
    ns_step env readFile lib order s
      (s\<lparr>ns_manager := m', ns_host := h', ns_deleted := if conflicting bridges then ns_deleted s else {}\<rparr>)"
| kubelet_replaced: "ns_step env readFile lib order s (s\<lparr>ns_host := kubelet_restart (ns_host s)\<rparr>)"
| watcher_event: "range_order (servers (ns_manager s)) ks \<Longrightarrow>
    ns_step env readFile lib order s
      (s\<lparr>ns_host := kubelet_watch_event env ks created name (ns_manager s) (ns_host s)\<rparr>)"
| bridge_notifier_set: "ns_step env readFile lib order s (s\<lparr>ns_client := SetBridgeNotifier f (ns_client s)\<rparr>)"
| database_changed: "ns_step env readFile lib order s (s\<lparr>ns_db := db'\<rparr>)"

text \<open>The manager's constructor installs the notifier before anything else happens.\<close>

inductive ns_reachable ::
  "dp_env \<Rightarrow> (string \<Rightarrow> error + string) \<Rightarrow> ('op, 'res, 'db) libovsdb \<Rightarrow> ((string, int) mapping \<Rightarrow> string list)
   \<Rightarrow> 'db numa_system \<Rightarrow> bool" for env readFile lib order where
  ns_start: "ovs_reachable readFile lib (c, ns_db s) \<Longrightarrow> ns_client s = SetInterfaceNotifier True c \<Longrightarrow> ns_manager s = new_Manager \<Longrightarrow> serving (ns_host s) = {} \<Longrightarrow>
    ns_reachable env readFile lib order s"
| ns_next: "ns_reachable env readFile lib order s \<Longrightarrow> ns_step env readFile lib order s s' \<Longrightarrow> ns_reachable env readFile lib order s'"

lemma nodes_cong: "numaMap c' = numaMap c \<Longrightarrow> client_nodes order c' = client_nodes order c"
  by (simp add: ovsClient_BridgeNUMANodes_def fun_eq_iff)

lemma nodes_update:
  "(\<And>b'. b' \<noteq> b \<Longrightarrow> numaMap c' b' = numaMap c b') \<Longrightarrow> client_nodes order c' = (client_nodes order c)(b := client_nodes order c' b)"
  by (auto simp: ovsClient_BridgeNUMANodes_def fun_eq_iff)

lemma send_iface_keeps [simp]: "numaMap (send_iface ev c) = numaMap c" "ifaceNotifier (send_iface ev c) = ifaceNotifier c"
  by (simp_all add: send_iface_def)

lemma process_change:
  assumes "processInterfaceEvent readFile lib ks c db = Some (bs, c', db')"
  shows "changes_only c bs c'"
proof -
  obtain ev evs where ch: "ifaceCh c = ev # evs"
    using assms by (auto simp: processInterfaceEvent_def split: list.splits)
  have "changes_only (c\<lparr>ifaceCh := evs\<rparr>) bs c'"
  proof (cases "ev_added ev")
    case True
    with assms ch show ?thesis
      by (intro handleInterfaceAdd_change [of readFile lib ev _ db _ _ db']) (simp add: processInterfaceEvent_def)
  next
    case False
    with assms ch show ?thesis
      by (intro handleInterfaceDelete_change [of ks ev]) (simp add: processInterfaceEvent_def split: prod.splits)
  qed
  then show ?thesis by (simp add: changes_only_def)
qed

text \<open>
  The simulation: the composed state appears in the manager's state machine with a stale
  set of bridges that are about to be notified, deleted, or without a name.
\<close>

definition pending :: "'db numa_system \<Rightarrow> string set" where
  "pending s = insert [] (set (ns_todo s) \<union> ns_deleted s)"

definition simulated :: "dp_env \<Rightarrow> ((string, int) mapping \<Rightarrow> string list) \<Rightarrow> 'db numa_system \<Rightarrow> bool" where
  "simulated env order s \<longleftrightarrow> ifaceNotifier (ns_client s) \<and>
     (\<exists>stale \<subseteq> pending s. \<exists>lost. dp_reachable env (client_nodes order (ns_client s), stale, lost, ns_manager s, ns_host s))"

lemma simulated_same_map:
  assumes "simulated env order s" and "numaMap (ns_client s') = numaMap (ns_client s)" and "ifaceNotifier (ns_client s')"
    and "ns_manager s' = ns_manager s" and "ns_host s' = ns_host s" and "pending s \<subseteq> pending s'"
  shows "simulated env order s'"
  using assms nodes_cong [OF assms(2), of order] unfolding simulated_def by (metis order_trans)

lemma simulated_changed_map:
  assumes "simulated env order s" and "\<And>b'. b' \<noteq> b \<Longrightarrow> numaMap (ns_client s') b' = numaMap (ns_client s) b'"
    and "ifaceNotifier (ns_client s')" and "ns_manager s' = ns_manager s" and "ns_host s' = ns_host s"
    and "insert b (pending s) \<subseteq> pending s'"
  shows "simulated env order s'"
proof -
  obtain stale lost where st: "stale \<subseteq> pending s"
    and r: "dp_reachable env (client_nodes order (ns_client s), stale, lost, ns_manager s, ns_host s)"
    using assms(1) by (auto simp: simulated_def)
  let ?ns = "client_nodes order (ns_client s') b"
  have "dp_reachable env ((client_nodes order (ns_client s))(b := ?ns), insert b stale, lost, ns_manager s', ns_host s')"
    using dp_next [OF r numa_changed [of env _ stale lost _ _ b ?ns]] assms(4,5) by simp
  also have "(client_nodes order (ns_client s))(b := ?ns) = client_nodes order (ns_client s')"
    using nodes_update [OF assms(2), where order = order] by simp
  finally have "dp_reachable env (client_nodes order (ns_client s'), insert b stale, lost, ns_manager s', ns_host s')" .
  moreover have "insert b stale \<subseteq> pending s'" using st assms(6) by blast
  ultimately show ?thesis using assms(3) unfolding simulated_def by blast
qed

lemma simulated_dp_step:
  assumes "simulated env order s" and "ns_client s' = ns_client s"
    and "\<And>stale. stale \<subseteq> pending s \<Longrightarrow> f stale \<subseteq> pending s'"
    and "\<And>stale lost. dp_step env (client_nodes order (ns_client s), stale, lost, ns_manager s, ns_host s)
                             (client_nodes order (ns_client s), f stale, g lost, ns_manager s', ns_host s')"
  shows "simulated env order s'"
  using assms dp_next unfolding simulated_def by metis

lemma event_simulated:
  assumes "simulated env order s" and "ns_todo s = []"
    and "processInterfaceEvent readFile lib ks (ns_client s) (ns_db s) = Some (bs, c', db')"
  shows "simulated env order (s\<lparr>ns_client := c', ns_db := db', ns_todo := bs\<rparr>)" (is "simulated env order ?s'")
proof -
  have n: "ifaceNotifier (ns_client s)" using assms(1) by (simp add: simulated_def)
  have p: "pending s \<subseteq> pending ?s'" using assms(2) by (auto simp: pending_def)
  from process_change [OF assms(3)] n obtain b where n': "ifaceNotifier c'"
    and b: "\<And>b'. b' \<noteq> b \<Longrightarrow> numaMap c' b' = numaMap (ns_client s) b'"
    and bs: "numaMap c' = numaMap (ns_client s) \<or> b = [] \<or> b \<in> set bs" unfolding changes_only_def by blast
  show ?thesis
  proof (cases "numaMap c' = numaMap (ns_client s)")
    case True
    with n' p show ?thesis by (intro simulated_same_map [OF assms(1)]) simp_all
  next
    case False
    with bs have "b \<in> pending ?s'" by (auto simp: pending_def)
    with n' p b show ?thesis by (intro simulated_changed_map [OF assms(1), of b]) simp_all
  qed
qed

lemma ns_step_simulated: "ns_step env readFile lib order s s' \<Longrightarrow> simulated env order s \<Longrightarrow> simulated env order s'"
proof (induction rule: ns_step.induct)
  case (row_added row s es c')
  then have "numaMap c' = numaMap (ns_client s)" "ifaceNotifier c' = ifaceNotifier (ns_client s)"
    by (auto simp: monitor_AddFunc_def split: cache_row.splits)
  with row_added show ?case by (intro simulated_same_map [OF row_added(2)]) (auto simp: simulated_def pending_def)
next
  case (interface_row_deleted i s es c')
  then have "numaMap c' = numaMap (ns_client s)" "ifaceNotifier c' = ifaceNotifier (ns_client s)"
    by (auto simp: monitor_DeleteFunc_def)
  with interface_row_deleted show ?case
    by (intro simulated_same_map [OF interface_row_deleted(2)]) (auto simp: simulated_def pending_def)
next
  case (bridge_row_deleted br s es c')
  then have "\<And>b'. b' \<noteq> br_Name br \<Longrightarrow> numaMap c' b' = numaMap (ns_client s) b'" "ifaceNotifier c' = ifaceNotifier (ns_client s)"
    by (auto simp: monitor_DeleteFunc_def)
  with bridge_row_deleted show ?case
    by (intro simulated_changed_map [OF bridge_row_deleted(2), of "br_Name br"]) (auto simp: simulated_def pending_def)
next
  case (event_consumed s ks bs c' db')
  then show ?case by (intro event_simulated)
next
  case (notifier_called s b bs ks m' h')
  then show ?case
    using interface_notified [OF notifier_called(2,3)]
    by (intro simulated_dp_step [OF notifier_called(4), where f = "\<lambda>stale. stale - {b}" and g = "\<lambda>lost. unrenewed lost (ns_manager s) m'"]) (auto simp: pending_def)
next
  case (policies_evaluated bridges s ks1 ks2 e m' h')
  then show ?case
    using policies_updated [OF policies_evaluated(1-3)]
    by (intro simulated_dp_step [OF policies_evaluated(4), where f = "\<lambda>stale. if conflicting bridges then stale else {}"
          and g = "\<lambda>lost. unrenewed lost (ns_manager s) m'"])
       (auto simp: pending_def)
next
  case (kubelet_replaced s)
  then show ?case
    using kubelet_restarted
    by (intro simulated_dp_step [OF kubelet_replaced, where f = "\<lambda>stale. stale" and g = "\<lambda>lost. dom (servers (ns_manager s))"])
       (auto simp: pending_def)
next
  case (watcher_event s ks created name)
  then show ?case
    using kubelet_event [OF watcher_event(1)]
    by (intro simulated_dp_step [OF watcher_event(2), where f = "\<lambda>stale. stale"
          and g = "lost_after_event env ks created name (ns_manager s) (ns_host s)"]) (auto simp: pending_def)
next
  case (bridge_notifier_set s f)
  then show ?case by (intro simulated_same_map [OF bridge_notifier_set]) (auto simp: simulated_def pending_def SetBridgeNotifier_def)
next
  case (database_changed s db')
  then show ?case by (intro simulated_same_map [OF database_changed]) (auto simp: simulated_def pending_def)
qed

lemma ns_reachable_simulated: "ns_reachable env readFile lib order s \<Longrightarrow> simulated env order s"
proof (induction rule: ns_reachable.induct)
  case (ns_start c s)
  then show ?case using dp_start [of "ns_host s" env _ "{}"] by (auto simp: simulated_def SetInterfaceNotifier_def)
qed (rule ns_step_simulated)

lemma ns_step_client:
  "ns_step env readFile lib order s s' \<Longrightarrow>
   (ns_client s', ns_db s') = (ns_client s, ns_db s) \<or> ovs_step readFile lib (ns_client s, ns_db s) (ns_client s', ns_db s')"
proof (induction rule: ns_step.induct)
  case (bridge_notifier_set s f)
  have "SetInterfaceNotifier (ifaceNotifier (ns_client s)) (ns_client s) = ns_client s" by (simp add: SetInterfaceNotifier_def)
  with notifiers_set [of readFile lib "ns_client s" "ns_db s" f "ifaceNotifier (ns_client s)"] show ?case by simp
qed (auto intro: ovs_step.intros)

lemma ns_reachable_client: "ns_reachable env readFile lib order s \<Longrightarrow> ovs_reachable readFile lib (ns_client s, ns_db s)"
proof (induction rule: ns_reachable.induct)
  case (ns_start c s)
  have "SetBridgeNotifier (bridgeNotifier c) (SetInterfaceNotifier True c) = SetInterfaceNotifier True c"
    by (simp add: SetBridgeNotifier_def SetInterfaceNotifier_def)
  with ovs_next [OF ns_start(1) notifiers_set [where f = "bridgeNotifier c" and g = True]] ns_start(2) show ?case by simp
next
  case (ns_next s s')
  with ns_step_client [OF ns_next(2)] show ?case by (metis ovs_next)
qed

text \<open>
  C18. From sysfs to the kubelet: in every state that the OVS client and the manager can reach
  together, an announced resource whose bridges have no notification outstanding is on a
  NUMA node that was read from sysfs, and every DPDK interface known on any of its bridges
  is on exactly that node.
\<close>

theorem announced_node_is_current:
  assumes "ns_reachable env readFile lib order s" and "plugin_dir env cs"
    and "\<forall>b m. numaMap (ns_client s) b = Some m \<longrightarrow> set (order m) = Mapping.keys m"
    and "servers (ns_manager s) r = Some srv" and "bridges_of (ns_manager s) r \<inter> pending s = {}"
  shows "sysfs_node readFile (GetNUMA srv) \<and> bridges_of (ns_manager s) r \<noteq> {}
    \<and> (\<forall>b \<in> bridges_of (ns_manager s) r. \<exists>m. numaMap (ns_client s) b = Some m
         \<and> (\<forall>u n. Mapping.lookup m u = Some n \<longrightarrow> n = GetNUMA srv))"
proof -
  let ?c = "ns_client s" and ?B = "bridges_of (ns_manager s) r" and ?k = "GetNUMA srv"
  obtain stale lost where st: "stale \<subseteq> pending s" and r: "dp_reachable env (client_nodes order ?c, stale, lost, ns_manager s, ns_host s)"
    using ns_reachable_simulated [OF assms(1)] by (auto simp: simulated_def)
  have "?B \<inter> stale = {}" using st assms(5) by blast
  with dp_reachable_inv [OF r assms(2)] assms(4) have a: "agree (client_nodes order ?c) ?B ?k" by (simp add: dp_inv_def)
  have inv: "numa_inv readFile ?c" using reachable_numa_inv [OF ns_reachable_client [OF assms(1)]] by simp
  have one: "\<exists>m. numaMap ?c b = Some m \<and> {n. \<exists>u. Mapping.lookup m u = Some n} = {?k}" if "b \<in> ?B" for b
  proof -
    have k: "client_nodes order ?c b = [?k]" using a that by (simp add: agree_def)
    then obtain m where m: "numaMap ?c b = Some m" by (auto simp: ovsClient_BridgeNUMANodes_def split: option.splits)
    then have "set (order m) = Mapping.keys m" using assms(3) by blast
    from BridgeNUMANodes_Some(1) [where order = order, OF m this] k m show ?thesis by auto
  qed
  obtain b where b: "b \<in> ?B" using a by (auto simp: agree_def)
  from one [OF b] obtain m u where "numaMap ?c b = Some m" "Mapping.lookup m u = Some ?k" by blast
  then have "sysfs_node readFile ?k" using numa_invD(3) [OF inv] by blast
  moreover have "\<forall>b \<in> ?B. \<exists>m. numaMap ?c b = Some m \<and> (\<forall>u n. Mapping.lookup m u = Some n \<longrightarrow> n = ?k)"
    using one by blast
  ultimately show ?thesis using b by blast
qed

text \<open>The uplink of the sample client on NUMA node 1, and a policy for its bridge.\<close>

definition numa1_bridges :: "BridgeSpec list" where
  "numa1_bridges = [\<lparr>bs_Name = ''br0'', TopologyResource = ''numa1'', bs_Mtu = 1500\<rparr>]"

abbreviation numa1 :: string where
  "numa1 \<equiv> TopologyResourcePrefix @ ''numa1''"

definition numa1_start :: "ovs_tables numa_system" where
  "numa1_start = \<lparr>ns_client = fst (snd uplink_consumed), ns_db = snd (snd uplink_consumed), ns_todo = [], ns_deleted = {},
     ns_manager = new_Manager, ns_host = fresh_host\<rparr>"

definition numa1_update :: "error option \<times> Manager \<times> dp_host" where
  "numa1_update = UpdateResources kubelet_env (client_nodes (\<lambda>_. [''i0'']) (ns_client numa1_start)) [] [numa1] numa1_bridges new_Manager fresh_host"

definition numa1_system :: "ovs_tables numa_system" where
  "numa1_system = numa1_start\<lparr>ns_manager := fst (snd numa1_update), ns_host := snd (snd numa1_update)\<rparr>"

lemma numa1_update_ok: "fst numa1_update = None" "ifaceNotifier (fst (snd uplink_consumed))"
  by code_simp+

lemma numa1_wanted: "wanted numa1_bridges r = (if r = numa1 then {''br0''} else {})"
  by (simp add: numa1_bridges_def wanted_Cons) (simp add: wanted_def)

lemma numa1_list: "valid_list numa1_bridges" "update_orders numa1_bridges new_Manager [] [numa1]" "\<not> conflicting numa1_bridges"
proof -
  show "valid_list numa1_bridges" by (simp add: valid_list_def valid_suffix_def numa1_bridges_def)
  show "update_orders numa1_bridges new_Manager [] [numa1]" by (simp add: update_orders_def range_order_def new_Manager_def numa1_wanted)
  show "\<not> conflicting numa1_bridges" by (simp add: conflicting_def numa1_wanted)
qed

lemma numa1_reachable: "ns_reachable kubelet_env node1_file ref_lib (\<lambda>_. [''i0'']) numa1_system"
proof -
  let ?c = "fst (snd uplink_consumed)"
  have "SetInterfaceNotifier True ?c = ?c" using numa1_update_ok(2) by (simp add: SetInterfaceNotifier_def)
  moreover have "ovs_reachable node1_file ref_lib (?c, ns_db numa1_start)" using uplink_reachable by (simp add: numa1_start_def)
  ultimately have st: "ns_reachable kubelet_env node1_file ref_lib (\<lambda>_. [''i0'']) numa1_start"
    by (intro ns_start [of _ _ ?c]) (simp_all add: numa1_start_def fresh_host_def)
  obtain m' h' where u: "numa1_update = (None, m', h')" using numa1_update_ok(1) by (metis prod.exhaust_sel)
  have "ns_step kubelet_env node1_file ref_lib (\<lambda>_. [''i0'']) numa1_start
      (numa1_start\<lparr>ns_manager := m', ns_host := h', ns_deleted := if conflicting numa1_bridges then ns_deleted numa1_start else {}\<rparr>)"
  proof (rule policies_evaluated)
    show "update_orders numa1_bridges (ns_manager numa1_start) [] [numa1]" using numa1_list(2) by (simp add: numa1_start_def)
    show "UpdateResources kubelet_env (client_nodes (\<lambda>_. [''i0'']) (ns_client numa1_start)) [] [numa1] numa1_bridges
        (ns_manager numa1_start) (ns_host numa1_start) = (None, m', h')"
      using u by (simp add: numa1_start_def numa1_update_def)
  qed (rule numa1_list)
  moreover have "numa1_start\<lparr>ns_manager := m', ns_host := h', ns_deleted := if conflicting numa1_bridges then ns_deleted numa1_start else {}\<rparr> = numa1_system"
    by (simp add: numa1_system_def u numa1_list(3) numa1_start_def)
  ultimately show ?thesis using ns_next [OF st] by simp
qed

lemma numa1_manager:
  obtains srv where "servers (ns_manager numa1_system) numa1 = Some srv" and "bridges_of (ns_manager numa1_system) numa1 = {''br0''}"
proof -
  obtain m' h' where u: "numa1_update = (None, m', h')" using numa1_update_ok(1) by (metis prod.exhaust_sel)
  note U = UpdateResources_inv [OF new_manager_inv kubelet_dir numa1_list u [unfolded numa1_update_def]]
  have "agree (client_nodes (\<lambda>_. [''i0'']) (ns_client numa1_start)) (wanted numa1_bridges numa1) 1"
    using uplink_run(2) by (simp add: agree_def numa1_wanted numa1_start_def)
  with U(3) [of numa1] obtain srv where "servers m' numa1 = Some srv" by (auto simp: serves_def)
  moreover have "bridges_of m' numa1 = {''br0''}" using U(2) by (simp add: numa1_wanted)
  moreover have "ns_manager numa1_system = m'" by (simp add: numa1_system_def u)
  ultimately show ?thesis using that by simp
qed

theorem announced_node_is_current_witness:
  "\<exists>srv. servers (ns_manager numa1_system) numa1 = Some srv \<and> sysfs_node node1_file (GetNUMA srv)"
proof -
  obtain srv where srv: "servers (ns_manager numa1_system) numa1 = Some srv" "bridges_of (ns_manager numa1_system) numa1 = {''br0''}"
    by (rule numa1_manager)
  have "pending numa1_system = {[]}" by (simp add: pending_def numa1_system_def numa1_start_def)
  then have p: "bridges_of (ns_manager numa1_system) numa1 \<inter> pending numa1_system = {}" using srv(2) by simp
  have c: "ns_client numa1_system = fst (snd uplink_consumed)" by (simp add: numa1_system_def numa1_start_def)
  have "set [''i0''] = Mapping.keys m" if "numaMap (fst (snd uplink_consumed)) b = Some m" for b m
  proof -
    have "b \<in> dom (numaMap (fst (snd uplink_consumed)))" using that by (simp add: domIff)
    then have "b = ''br0''" by (simp add: uplink_dom)
    with that uplink_run(3) show ?thesis by simp
  qed
  then have "\<forall>b m. numaMap (ns_client numa1_system) b = Some m \<longrightarrow> set [''i0''] = Mapping.keys m" unfolding c by blast
  from announced_node_is_current [where order = "\<lambda>_. [''i0'']", OF numa1_reachable kubelet_dir this srv(1) p] srv(1)
  show ?thesis by blast
qed

end
