(* ===== verification/Startup.thy ===== *)
theory Startup
  imports NumaSystem Prepare
begin

text \<open>
  Starting and stopping the program: the connection to OVSDB and its monitor
  (\<^verbatim>\<open>pkg/ovs/client.go\<close>, \<^verbatim>\<open>New\<close> and \<^verbatim>\<open>startMonitor\<close>), the constructor of the plugin manager and its
  watch of the kubelet socket (\<^verbatim>\<open>pkg/deviceplugin/manager.go\<close>), and the function \<^verbatim>\<open>run\<close> of
  \<^verbatim>\<open>cmd/dra-driver-ovsdpdk/main.go\<close> with its deferred calls.
\<close>

section \<open>Connecting to OVSDB\<close>

text \<open>
  The library calls of \<^verbatim>\<open>New\<close>: the model and the client are built once, \<open>ob_Connect n\<close> is the
  attempt number \<open>n\<close>, \<open>ob_cancelled n\<close> the context's error when it ends before the timer that
  follows the attempt, \<open>ob_Monitor\<close> starts the monitor.
\<close>

record 'w ovs_boot =
  ob_NewClientDBModel :: "error option"
  ob_NewOVSDBClient :: "string \<Rightarrow> error option"
  ob_Connect :: "nat \<Rightarrow> 'w \<Rightarrow> error option \<times> 'w"
  ob_cancelled :: "nat \<Rightarrow> error option"
  ob_Monitor :: "'w \<Rightarrow> error option \<times> 'w"
  ob_Disconnect :: "'w \<Rightarrow> 'w"
  ob_Connected :: "'w \<Rightarrow> bool"

text \<open>The rows that the conditional monitor asks for.\<close>

fun monitored :: "cache_row \<Rightarrow> bool" where
  "monitored (BridgeRow br) = (br_DatapathType br = ''netdev'')"
| "monitored (InterfaceRow i) = (if_Type i = ''dpdk'')"
| "monitored OtherRow = False"

definition startMonitor :: "'w ovs_boot \<Rightarrow> 'w \<Rightarrow> error option \<times> 'w" where
  "startMonitor b w =
     (case ob_Monitor b w of
        (Some err, w') \<Rightarrow> (Some (Errorf ''monitor Bridge/Interface tables: %w'' [] [err]), w')
      | (None, w') \<Rightarrow> (None, w'))"

text \<open>The retry loop has no bound; a run that never ends has the value \<open>None\<close>.\<close>

partial_function (option) connect_loop :: "'w ovs_boot \<Rightarrow> string \<Rightarrow> nat \<Rightarrow> 'w \<Rightarrow> (error option \<times> 'w) option" where
  "connect_loop b endpoint n w =
     (case ob_Connect b n w of
        (None, w1) \<Rightarrow> Some (None, w1)
      | (Some err, w1) \<Rightarrow>
          (case ob_cancelled b n of
             Some ctxErr \<Rightarrow>
               Some (Some (Errorf ''context cancelled while waiting for OVSDB at %q: %w'' [AStr endpoint] [ctxErr]), ob_Disconnect b w1)
           | None \<Rightarrow> connect_loop b endpoint (Suc n) w1))"

definition ovs_New :: "'w ovs_boot \<Rightarrow> string \<Rightarrow> 'w \<Rightarrow> ((error + ovsClient) \<times> 'w) option" where
  "ovs_New b runDir w =
     (let endpoint = ''unix:'' @ filepath_Join [runDir, ''db.sock'']
      in case ob_NewClientDBModel b of
           Some err \<Rightarrow> Some (Inl (Errorf ''build OVSDB client model: %w'' [] [err]), w)
         | None \<Rightarrow>
        (case ob_NewOVSDBClient b endpoint of
           Some err \<Rightarrow> Some (Inl (Errorf ''create OVSDB client: %w'' [] [err]), w)
         | None \<Rightarrow>
        (case connect_loop b endpoint 0 w of
           None \<Rightarrow> None
         | Some (Some err, w1) \<Rightarrow> Some (Inl err, w1)
         | Some (None, w1) \<Rightarrow>
             (case startMonitor b w1 of
                (Some err, w2) \<Rightarrow> Some (Inl (Errorf ''start bridge monitor: %w'' [] [err]), ob_Disconnect b w2)
              | (None, w2) \<Rightarrow> Some (Inr new_ovsClient, w2)))))"

definition ovsClient_Connected :: "'w ovs_boot \<Rightarrow> 'w \<Rightarrow> bool" where
  "ovsClient_Connected b w = ob_Connected b w"

definition ovsClient_Close :: "'w ovs_boot \<Rightarrow> 'w \<Rightarrow> 'w" where
  "ovsClient_Close b w = ob_Disconnect b w"

text \<open>The world before attempt number \<open>n\<close>.\<close>

fun before_attempt :: "'w ovs_boot \<Rightarrow> nat \<Rightarrow> 'w \<Rightarrow> 'w" where
  "before_attempt b 0 w = w"
| "before_attempt b (Suc n) w = snd (ob_Connect b n (before_attempt b n w))"

text \<open>The attempt that ends the loop.\<close>

definition attempt_ends :: "'w ovs_boot \<Rightarrow> 'w \<Rightarrow> nat \<Rightarrow> bool" where
  "attempt_ends b w n \<longleftrightarrow> fst (ob_Connect b n (before_attempt b n w)) = None \<or> ob_cancelled b n \<noteq> None"

lemma connect_loop_ends:
  assumes "attempt_ends b w n" and "k \<le> n" and "\<forall>i. k \<le> i \<and> i < n \<longrightarrow> \<not> attempt_ends b w i"
  shows "connect_loop b endpoint k (before_attempt b k w) \<noteq> None"
  using assms(2,3)
proof (induction "n - k" arbitrary: k)
  case 0
  then have "k = n" by simp
  with assms(1) show ?case
    by (subst connect_loop.simps) (auto simp: attempt_ends_def split: prod.splits option.splits)
next
  case (Suc m)
  then have "\<not> attempt_ends b w k" by simp
  then obtain err w1 where c: "ob_Connect b k (before_attempt b k w) = (Some err, w1)" "ob_cancelled b k = None"
    by (cases "ob_Connect b k (before_attempt b k w)") (auto simp: attempt_ends_def)
  have "connect_loop b endpoint (Suc k) (before_attempt b (Suc k) w) \<noteq> None"
    using Suc by (intro Suc.hyps(1)) auto
  with c show ?case by (subst connect_loop.simps) simp
qed

lemma connect_loop_Some:
  assumes "connect_loop b endpoint n w' = Some r" and "w' = before_attempt b n w"
  shows "\<exists>m \<ge> n. attempt_ends b w m \<and>
    (case fst r of
       None \<Rightarrow> r = ob_Connect b m (before_attempt b m w)
     | Some err \<Rightarrow> snd r = ob_Disconnect b (before_attempt b (Suc m) w))"
  using assms
proof (induction rule: connect_loop.raw_induct [rotated, consumes 1])
  case (1 loop b endpoint n w' r)
  show ?case
  proof (cases "attempt_ends b w n")
    case True
    obtain e w1 where c: "ob_Connect b n w' = (e, w1)" by (cases "ob_Connect b n w'")
    with True 1(2,3) have "case fst r of None \<Rightarrow> r = ob_Connect b n (before_attempt b n w)
       | Some err \<Rightarrow> snd r = ob_Disconnect b (before_attempt b (Suc n) w)"
      by (cases e) (auto simp: attempt_ends_def)
    with True show ?thesis by blast
  next
    case False
    then obtain err w1 where c: "ob_Connect b n w' = (Some err, w1)" "ob_cancelled b n = None"
      using 1(3) by (cases "ob_Connect b n w'") (auto simp: attempt_ends_def)
    with 1(2) have "loop b endpoint (Suc n) w1 = Some r" by simp
    moreover have "w1 = before_attempt b (Suc n) w" using c(1) 1(3) by simp
    ultimately obtain m where "m \<ge> Suc n" "attempt_ends b w m"
      "case fst r of None \<Rightarrow> r = ob_Connect b m (before_attempt b m w)
       | Some err \<Rightarrow> snd r = ob_Disconnect b (before_attempt b (Suc m) w)" using 1(1) by blast
    then show ?thesis by (intro exI [of _ m]) simp
  qed
qed

lemma connect_loop_returns: "connect_loop b endpoint 0 w \<noteq> None \<longleftrightarrow> (\<exists>n. attempt_ends b w n)"
proof
  assume "connect_loop b endpoint 0 w \<noteq> None"
  then obtain r where "connect_loop b endpoint 0 w = Some r" by blast
  from connect_loop_Some [OF this, of w] show "\<exists>n. attempt_ends b w n" by auto
next
  assume ex: "\<exists>n. attempt_ends b w n"
  define n where "n = (LEAST n. attempt_ends b w n)"
  have "attempt_ends b w n" unfolding n_def using ex by (rule LeastI_ex)
  moreover have "\<forall>i. 0 \<le> i \<and> i < n \<longrightarrow> \<not> attempt_ends b w i" unfolding n_def using not_less_Least by blast
  ultimately show "connect_loop b endpoint 0 w \<noteq> None" using connect_loop_ends [of b w n 0 endpoint] by simp
qed

lemma ovs_New_result:
  assumes "ob_NewClientDBModel b = None" and "\<forall>endpoint. ob_NewOVSDBClient b endpoint = None"
    and o: "ovs_New b runDir w = Some (r, w')"
  shows "case r of
      Inl err \<Rightarrow> \<exists>w1. w' = ob_Disconnect b w1
    | Inr c \<Rightarrow> c = new_ovsClient \<and> (\<exists>n w1. ob_Connect b n (before_attempt b n w) = (None, w1) \<and> ob_Monitor b w1 = (None, w'))"
proof -
  let ?ep = "''unix:'' @ filepath_Join [runDir, ''db.sock'']"
  obtain e w1 where l: "connect_loop b ?ep 0 w = Some (e, w1)"
    using o assms by (auto simp: ovs_New_def Let_def split: option.splits prod.splits)
  from connect_loop_Some [OF this, of w] obtain m where
    m: "case e of None \<Rightarrow> (None, w1) = ob_Connect b m (before_attempt b m w)
        | Some err \<Rightarrow> w1 = ob_Disconnect b (before_attempt b (Suc m) w)" by (cases e) fastforce+
  show ?thesis
  proof (cases e)
    case None
    with m have c: "ob_Connect b m (before_attempt b m w) = (None, w1)" by simp
    obtain e2 w2 where m2: "ob_Monitor b w1 = (e2, w2)" by (cases "ob_Monitor b w1")
    with o l assms None have "(r, w') = (case e2 of
        None \<Rightarrow> (Inr new_ovsClient, w2)
      | Some err \<Rightarrow> (Inl (Errorf ''start bridge monitor: %w'' [] [Errorf ''monitor Bridge/Interface tables: %w'' [] [err]]), ob_Disconnect b w2))"
      by (simp add: ovs_New_def startMonitor_def Let_def split: option.splits)
    with m2 c show ?thesis by (cases e2) auto
  next
    case (Some err)
    with o l assms m show ?thesis by (auto simp: ovs_New_def Let_def)
  qed
qed

text \<open>
  C33. The client's constructor waits for OVSDB exactly as long as it must: when the client can
  be built, it returns if and only if some attempt to connect succeeds or the context ends;
  when it returns an error, a client that was built has been disconnected, and when it
  returns a client, the connection and the monitor are up and the NUMA map is empty.
\<close>

theorem ovs_New_returns:
  assumes "ob_NewClientDBModel b = None" and "\<forall>endpoint. ob_NewOVSDBClient b endpoint = None"
  shows "(ovs_New b runDir w \<noteq> None \<longleftrightarrow> (\<exists>n. attempt_ends b w n))
    \<and> (\<forall>r w'. ovs_New b runDir w = Some (r, w') \<longrightarrow>
         (case r of
            Inl err \<Rightarrow> \<exists>w1. w' = ob_Disconnect b w1
          | Inr c \<Rightarrow> c = new_ovsClient \<and> (\<exists>n w1. ob_Connect b n (before_attempt b n w) = (None, w1) \<and> ob_Monitor b w1 = (None, w'))))"
proof -
  have "ovs_New b runDir w \<noteq> None \<longleftrightarrow> connect_loop b (''unix:'' @ filepath_Join [runDir, ''db.sock'']) 0 w \<noteq> None"
    using assms by (auto simp: ovs_New_def Let_def split: option.splits prod.splits)
  with ovs_New_result [OF assms, of runDir w] show ?thesis unfolding connect_loop_returns by (intro conjI allI impI)
qed

text \<open>A database that answers at the third attempt.\<close>

definition late_ovsdb :: "bool ovs_boot" where
  "late_ovsdb =
     \<lparr>ob_NewClientDBModel = None, ob_NewOVSDBClient = (\<lambda>_. None),
      ob_Connect = (\<lambda>n w. if n < 2 then (Some (External ''connection refused''), w) else (None, True)),
      ob_cancelled = (\<lambda>_. None), ob_Monitor = (\<lambda>w. (None, w)), ob_Disconnect = (\<lambda>_. False), ob_Connected = (\<lambda>w. w)\<rparr>"

theorem ovs_New_returns_witness: "\<exists>r. ovs_New late_ovsdb ''/var/run/openvswitch'' False = Some r"
proof -
  have "attempt_ends late_ovsdb False 2" by (simp add: attempt_ends_def late_ovsdb_def)
  with ovs_New_returns [of late_ovsdb "''/var/run/openvswitch''" False] show ?thesis by (auto simp: late_ovsdb_def)
qed

section \<open>Starting the plugin manager\<close>

text \<open>
  \<open>newWatcher\<close> and \<open>add\<close> are the calls of the file watcher library. The second component tells
  whether a watcher is left open.
\<close>

definition startKubeletWatcher ::
  "error option \<Rightarrow> (string \<Rightarrow> error option) \<Rightarrow> dp_env \<Rightarrow> error option \<times> bool" where
  "startKubeletWatcher newWatcher add env =
     (case newWatcher of
        Some err \<Rightarrow> (Some (Errorf ''create fsnotify watcher: %w'' [] [err]), False)
      | None \<Rightarrow>
          (let socketDir = filepath_Dir (KubeletSocket env)
           in case add socketDir of
                Some err \<Rightarrow> (Some (Errorf ''watch kubelet socket directory %q: %w'' [AStr socketDir] [err]), False)
              | None \<Rightarrow> (None, True)))"

definition NewManager ::
  "error option \<Rightarrow> (string \<Rightarrow> error option) \<Rightarrow> dp_env \<Rightarrow> ovsClient \<Rightarrow> (error + Manager) \<times> ovsClient \<times> bool" where
  "NewManager newWatcher add env c =
     (let c1 = SetInterfaceNotifier True c
      in case startKubeletWatcher newWatcher add env of
           (Some err, watching) \<Rightarrow> (Inl (Errorf ''start kubelet watcher: %w'' [] [err]), SetInterfaceNotifier False c1, watching)
         | (None, watching) \<Rightarrow> (Inr new_Manager, c1, watching))"

text \<open>
  The manager's constructor is all or nothing: without an error the notifier is set and
  the directory of the kubelet socket is watched, with an error the client has no notifier
  left and no watcher stays open; the NUMA map and the event channel are not touched.
\<close>

theorem NewManager_all_or_nothing:
  "(case NewManager newWatcher add env c of
      (r, c', watching) \<Rightarrow>
        numaMap c' = numaMap c \<and> ifaceCh c' = ifaceCh c \<and> bridgeNotifier c' = bridgeNotifier c \<and>
        (if newWatcher = None \<and> add (filepath_Dir (KubeletSocket env)) = None
         then r = Inr new_Manager \<and> ifaceNotifier c' \<and> watching
         else (\<exists>err. r = Inl err) \<and> \<not> ifaceNotifier c' \<and> \<not> watching))"
  by (simp add: NewManager_def startKubeletWatcher_def SetInterfaceNotifier_def Let_def split: option.split)

section \<open>The main program\<close>

record Flags =
  NodeName :: string
  Namespace :: string
  ConfigName :: string
  CdiRoot :: string
  DBPath :: string
  KubeletRegistrarDirectoryPath :: string
  KubeletPluginsDirectoryPath :: string
  OVSRunDir :: string
  EnableDeviceMetadata :: bool

text \<open>The values that the command line leaves in place; the node name is required and has none.\<close>

definition DefaultDBPath :: string where
  "DefaultDBPath = ''/var/run/ovsdpdk/ovsdpdk.db''"

definition DefaultNamespace :: string where
  "DefaultNamespace = ''dra-driver-ovsdpdk''"

definition default_Flags :: "string \<Rightarrow> Flags" where
  "default_Flags nodeName =
     \<lparr>NodeName = nodeName, Namespace = DefaultNamespace, ConfigName = ''default'', CdiRoot = ''/var/run/cdi'',
      DBPath = DefaultDBPath, KubeletRegistrarDirectoryPath = ''/var/lib/kubelet/plugins_registry'',
      KubeletPluginsDirectoryPath = ''/var/lib/kubelet/plugins'', OVSRunDir = ''/var/run/openvswitch'',
      EnableDeviceMetadata = False\<rparr>"

definition DriverPluginPath :: "Flags \<Rightarrow> string" where
  "DriverPluginPath f = KubeletPluginsDirectoryPath f @ ''/'' @ DriverName"

record driver_Config =
  drv_NodeName :: string
  drv_EnableDeviceMetadata :: bool
  drv_PluginDataDir :: string
  drv_CdiDir :: string
  drv_DBPath :: string

text \<open>
  The options that \<^verbatim>\<open>driver.New\<close> hands to \<^verbatim>\<open>kubeletplugin.Start\<close>; the metadata versions are those
  of the library's own API group.
\<close>

datatype plugin_option =
    OptDriverName string
  | OptNodeName string
  | OptKubeClient
  | OptPluginDataDirectoryPath string
  | OptEnableDeviceMetadata bool
  | OptMetadataVersions
  | OptCDIDirectory string

definition driver_options :: "driver_Config \<Rightarrow> plugin_option list" where
  "driver_options config =
     [OptDriverName DriverName, OptNodeName (drv_NodeName config), OptKubeClient,
      OptPluginDataDirectoryPath (drv_PluginDataDir config)] @
     (if drv_EnableDeviceMetadata config
      then [OptEnableDeviceMetadata True, OptMetadataVersions, OptCDIDirectory (drv_CdiDir config)] else [])"

text \<open>
  The constructors and the deferred calls of the components, over a world \<open>'w\<close>. \<open>me_serve\<close>
  runs the controller manager until a signal cancels the context (\<open>ContextCancelled\<close>) or
  the manager exits while the context is still alive (\<open>ManagerExited\<close>).
\<close>

datatype run_end = ContextCancelled | ManagerExited "error option"

record 'w main_env =
  me_MkdirAll :: "string \<Rightarrow> 12 word \<Rightarrow> 'w \<Rightarrow> error option \<times> 'w"
  me_ovs_New :: "string \<Rightarrow> 'w \<Rightarrow> error option \<times> 'w"
  me_ovs_Close :: "'w \<Rightarrow> 'w"
  me_cdi_New :: "string \<Rightarrow> 'w \<Rightarrow> error option \<times> 'w"
  me_NewManager :: "'w \<Rightarrow> error option \<times> 'w"
  me_StopAll :: "'w \<Rightarrow> 'w"
  me_driver_New :: "driver_Config \<Rightarrow> 'w \<Rightarrow> error option \<times> 'w"
  me_driver_Stop :: "'w \<Rightarrow> 'w"
  me_SetupPolicyReconciler :: "string \<Rightarrow> string \<Rightarrow> 'w \<Rightarrow> error option \<times> 'w"
  me_SetupConfigReconciler :: "string \<Rightarrow> 'w \<Rightarrow> error option \<times> 'w"
  me_serve :: "'w \<Rightarrow> run_end \<times> 'w"

definition context_Canceled :: error where
  "context_Canceled = External ''context canceled''"

text \<open>
  The end of \<^verbatim>\<open>run\<close>: an error of the manager becomes the cause of the context; a cancelled
  context has the cause \<^verbatim>\<open>context.Canceled\<close>, and a clean exit leaves the context without one.
\<close>

definition run_result :: "run_end \<Rightarrow> error option" where
  "run_result e =
     (case (case e of
              ContextCancelled \<Rightarrow> Some context_Canceled
            | ManagerExited None \<Rightarrow> None
            | ManagerExited (Some err) \<Rightarrow> Some (Errorf ''controller manager exited: %w'' [] [err])) of
        None \<Rightarrow> None
      | Some cause \<Rightarrow> if errors_Is cause context_Canceled then None else Some cause)"

definition run :: "'w main_env \<Rightarrow> Flags \<Rightarrow> 'w \<Rightarrow> error option \<times> 'w" where
  "run env f w =
     (case me_MkdirAll env (DriverPluginPath f) 0x1E8 w of
        (Some err, w1) \<Rightarrow> (Some (Errorf ''create driver plugin path %q: %w'' [AStr (DriverPluginPath f)] [err]), w1)
      | (None, w1) \<Rightarrow>
     (case me_MkdirAll env (CdiRoot f) 0x1E8 w1 of
        (Some err, w2) \<Rightarrow> (Some (Errorf ''create CDI root %q: %w'' [AStr (CdiRoot f)] [err]), w2)
      | (None, w2) \<Rightarrow>
     (case me_ovs_New env (OVSRunDir f) w2 of
        (Some err, w3) \<Rightarrow> (Some (Errorf ''create OVS client: %w'' [] [err]), w3)
      | (None, w3) \<Rightarrow>
     (case me_cdi_New env (CdiRoot f) w3 of
        (Some err, w4) \<Rightarrow> (Some (Errorf ''create DRI Handler: %w'' [] [err]), me_ovs_Close env w4)
      | (None, w4) \<Rightarrow>
     (case me_NewManager env w4 of
        (Some err, w5) \<Rightarrow> (Some (Errorf ''create device plugin manager: %w'' [] [err]), me_ovs_Close env w5)
      | (None, w5) \<Rightarrow>
     (case me_driver_New env \<lparr>drv_NodeName = NodeName f, drv_EnableDeviceMetadata = EnableDeviceMetadata f,
             drv_PluginDataDir = DriverPluginPath f, drv_CdiDir = CdiRoot f, drv_DBPath = DBPath f\<rparr> w5 of
        (Some err, w6) \<Rightarrow> (Some (Errorf ''create DRA driver: %w'' [] [err]), me_ovs_Close env (me_StopAll env w6))
      | (None, w6) \<Rightarrow>
     (let shutdown = (\<lambda>w. me_ovs_Close env (me_StopAll env (me_driver_Stop env w)))
      in case me_SetupPolicyReconciler env (NodeName f) (Namespace f) w6 of
        (Some err, w7) \<Rightarrow> (Some (Errorf ''setup controller: %w'' [] [err]), shutdown w7)
      | (None, w7) \<Rightarrow>
     (case me_SetupConfigReconciler env (ConfigName f) w7 of
        (Some err, w8) \<Rightarrow> (Some (Errorf ''setup config controller: %w'' [] [err]), shutdown w8)
      | (None, w8) \<Rightarrow>
     (case me_serve env w8 of (e, w9) \<Rightarrow> (run_result e, shutdown w9))))))))))"

section \<open>Everything that was started is stopped\<close>

text \<open>A world that records what was started (or failed to) and what was stopped, with failures at will.\<close>

datatype component = OvsClient | PluginServers | DraDriver

datatype main_event = Started component | Failed component | Stopped component | Other

definition recorded_start :: "(main_event list \<Rightarrow> error option) \<Rightarrow> component \<Rightarrow> main_event list \<Rightarrow> error option \<times> main_event list" where
  "recorded_start fails c log = (fails log, log @ [if fails log = None then Started c else Failed c])"

definition recording_main :: "(main_event list \<Rightarrow> error option) \<Rightarrow> (main_event list \<Rightarrow> run_end) \<Rightarrow> main_event list main_env" where
  "recording_main fails ending =
     \<lparr>me_MkdirAll = (\<lambda>p mode log. (fails log, log @ [Other])),
      me_ovs_New = (\<lambda>dir. recorded_start fails OvsClient), me_ovs_Close = (\<lambda>log. log @ [Stopped OvsClient]),
      me_cdi_New = (\<lambda>root log. (fails log, log @ [Other])),
      me_NewManager = recorded_start fails PluginServers, me_StopAll = (\<lambda>log. log @ [Stopped PluginServers]),
      me_driver_New = (\<lambda>cfg. recorded_start fails DraDriver), me_driver_Stop = (\<lambda>log. log @ [Stopped DraDriver]),
      me_SetupPolicyReconciler = (\<lambda>n ns log. (fails log, log @ [Other])),
      me_SetupConfigReconciler = (\<lambda>n log. (fails log, log @ [Other])),
      me_serve = (\<lambda>log. (ending log, log @ [Other]))\<rparr>"

text \<open>Components are stopped in the reverse of the order in which they were started, each once.\<close>

fun balanced :: "component list \<Rightarrow> main_event list \<Rightarrow> bool" where
  "balanced running [] = (running = [])"
| "balanced running (Started c # es) = balanced (c # running) es"
| "balanced running (Stopped c # es) = (case running of [] \<Rightarrow> False | c' # cs \<Rightarrow> c' = c \<and> balanced cs es)"
| "balanced running (Failed c # es) = balanced running es"
| "balanced running (Other # es) = balanced running es"

text \<open>
  Whatever fails during start-up and however the program ends, every component that was
  started is stopped exactly once, in reverse order: the DRA driver (with its checkpoint
  database) before the plugin manager, and the OVS connection last.
\<close>

theorem run_stops_everything:
  "balanced [] (snd (run (recording_main fails ending) f []))"
  by (simp add: run_def recording_main_def recorded_start_def Let_def split: option.split prod.split)

text \<open>
  The socket directory of a request is never the checkpoint database of the default
  configuration, nor a directory above it, so that removing the directory cannot remove
  the checkpoints.
\<close>

theorem socket_dir_spares_database:
  assumes "slash_free podUID claim result"
  shows "unrelated (getSocketDir podUID claim result) (DBPath (default_Flags node))"
proof -
  have "CHR ''_'' \<in> set (dir_name podUID claim result)" by (simp add: dir_name_def)
  then have "dir_name podUID claim result \<noteq> ''ovsdpdk.db''" by auto
  moreover have "plain_comp ''ovsdpdk.db''" by (simp add: plain_comp_def)
  ultimately have "unrelated (HostRootPath @ CHR ''/'' # dir_name podUID claim result) (HostRootPath @ CHR ''/'' # ''ovsdpdk.db'')"
    by (intro siblings_unrelated plain_dir_name assms)
  then show ?thesis using assms by (simp add: getSocketDir_eq default_Flags_def DefaultDBPath_def HostRootPath_def)
qed

theorem socket_dir_spares_database_witness:
  "unrelated (getSocketDir ''pod-1'' \<lparr>rc_Name = ''c'', rc_Namespace = ''ns'', rc_UID = ''u'', rc_PodClaimName = [], rc_ResourceVersion = 0,
         rc_Allocation = None, rc_ReservedFor = [], rc_Devices = []\<rparr>
       \<lparr>dr_Request = ''net'', dr_Driver = DriverName, dr_Pool = [], dr_Device = ''br0'', dr_ShareID = None\<rparr>)
     (DBPath (default_Flags ''node1''))"
  by (rule socket_dir_spares_database) (simp add: slash_free_def getPodClaimName_def)

end
