(* ===== verification/App.thy ===== *)
theory App
  imports Startup "HOL-Library.Multiset"
begin

text \<open>
  The command line application: the flags of \<^verbatim>\<open>pkg/flags\<close> and of \<^verbatim>\<open>newApp\<close>, the REST
  configuration and the clients made from them, the functions \<^verbatim>\<open>Before\<close> and \<^verbatim>\<open>Action\<close>, and \<^verbatim>\<open>main\<close>
  with its exit code (\<^verbatim>\<open>cmd/dra-driver-ovsdpdk/main.go\<close>).
\<close>

section \<open>Names of environment variables\<close>

text \<open>\<^verbatim>\<open>strings.ReplaceAll\<close> with single characters, and \<^verbatim>\<open>strings.ToUpper\<close> on ASCII.\<close>

definition strings_ReplaceAll :: "char \<Rightarrow> char \<Rightarrow> string \<Rightarrow> string" where
  "strings_ReplaceAll old new s = map (\<lambda>c. if c = old then new else c) s"

definition upper_char :: "char \<Rightarrow> char" where
  "upper_char c = (if 97 \<le> (of_char c :: nat) \<and> (of_char c :: nat) \<le> 122 then char_of (of_char c - (32 :: nat)) else c)"

definition strings_ToUpper :: "string \<Rightarrow> string" where
  "strings_ToUpper s = map upper_char s"

definition env_name :: "string \<Rightarrow> string" where
  "env_name name = strings_ToUpper (strings_ReplaceAll (CHR ''-'') (CHR ''_'') name)"

text \<open>The spelling of flag names: small letters, digits and dashes.\<close>

definition kebab_char :: "char \<Rightarrow> bool" where
  "kebab_char c \<longleftrightarrow> c = CHR ''-'' \<or> (97 \<le> (of_char c :: nat) \<and> (of_char c :: nat) \<le> 122) \<or> (48 \<le> (of_char c :: nat) \<and> (of_char c :: nat) \<le> 57)"

definition kebab :: "string \<Rightarrow> bool" where
  "kebab s \<longleftrightarrow> list_all kebab_char s"

section \<open>Flags\<close>

text \<open>
  A value of a flag; \<open>'q\<close> are the 64-bit floats and \<open>'v\<close> the \<^verbatim>\<open>pflag.Value\<close> objects of the library.
  A destination is a field of \<^verbatim>\<open>Flags\<close>, by how it is set, or the \<^verbatim>\<open>Value\<close> object itself.
\<close>

datatype ('q, 'v) flag_value = StringValue string | BoolValue bool | FloatValue 'q | IntValue int | GenericValue 'v

datatype ('q, 'v, 'f) destination = FieldDest "('q, 'v) flag_value \<Rightarrow> 'f \<Rightarrow> 'f" | ValueDest 'v

record ('q, 'v, 'f) cli_flag =
  fl_Category :: string
  fl_Name :: string
  fl_Usage :: string
  fl_Value :: "('q, 'v) flag_value"
  fl_Required :: bool
  fl_Destination :: "('q, 'v, 'f) destination"
  fl_EnvVars :: "string list"

record 'q KubeClientConfig =
  KubeAPIQPS :: 'q
  KubeAPIBurst :: int

record ('fg, 'cfg) LoggingConfig =
  featureGate :: 'fg
  lc_config :: 'cfg

text \<open>All fields of \<^verbatim>\<open>types.Flags\<close>; the settings of the other theories are its first part.\<close>

record ('q, 'fg, 'cfg) all_Flags = Flags +
  af_LoggingConfig :: "('fg, 'cfg) LoggingConfig"
  af_KubeClientConfig :: "'q KubeClientConfig"

text \<open>A pointer to a field of the struct: what is stored there when a value of the flag's kind arrives.\<close>

definition string_dest :: "((string \<Rightarrow> string) \<Rightarrow> 'f \<Rightarrow> 'f) \<Rightarrow> ('q, 'v, 'f) destination" where
  "string_dest upd = FieldDest (\<lambda>v. case v of StringValue s \<Rightarrow> upd (\<lambda>_. s) | _ \<Rightarrow> (\<lambda>f. f))"

definition bool_dest :: "((bool \<Rightarrow> bool) \<Rightarrow> 'f \<Rightarrow> 'f) \<Rightarrow> ('q, 'v, 'f) destination" where
  "bool_dest upd = FieldDest (\<lambda>v. case v of BoolValue b \<Rightarrow> upd (\<lambda>_. b) | _ \<Rightarrow> (\<lambda>f. f))"

definition KubeClientConfig_Flags :: "('q :: numeral, 'v, ('q, 'fg, 'cfg) all_Flags) cli_flag list" where
  "KubeClientConfig_Flags =
     [\<lparr>fl_Category = ''Kubernetes client:'', fl_Name = ''kube-api-qps'',
       fl_Usage = ''`QPS` to use while communicating with the Kubernetes apiserver.'', fl_Value = FloatValue 5, fl_Required = False,
       fl_Destination = FieldDest (\<lambda>v. case v of FloatValue q \<Rightarrow> af_KubeClientConfig_update (KubeAPIQPS_update (\<lambda>_. q)) | _ \<Rightarrow> (\<lambda>f. f)),
       fl_EnvVars = [''KUBE_API_QPS'']\<rparr>,
      \<lparr>fl_Category = ''Kubernetes client:'', fl_Name = ''kube-api-burst'',
       fl_Usage = ''`Burst` to use while communicating with the Kubernetes apiserver.'', fl_Value = IntValue 10, fl_Required = False,
       fl_Destination = FieldDest (\<lambda>v. case v of IntValue i \<Rightarrow> af_KubeClientConfig_update (KubeAPIBurst_update (\<lambda>_. i)) | _ \<Rightarrow> (\<lambda>f. f)),
       fl_EnvVars = [''KUBE_API_BURST'']\<rparr>]"

section \<open>The logging configuration\<close>

record 'v pflag =
  pf_Name :: string
  pf_Usage :: string
  pf_Value :: 'v

text \<open>The calls of the logging and flag libraries.\<close>

record ('fg, 'cfg, 'v) logs_lib =
  NewFeatureGate :: 'fg
  NewLoggingConfiguration :: 'cfg
  AddFeatureGates :: "'fg \<Rightarrow> error option \<times> 'fg"
  ContextualLogging :: string
  SetFromMap :: "(string \<rightharpoonup> bool) \<Rightarrow> 'fg \<Rightarrow> error option \<times> 'fg"
  KnownFeatures :: "'fg \<Rightarrow> string list"
  gate_Value :: "'fg \<Rightarrow> 'v"
  logs_AddFlags :: "'cfg \<Rightarrow> 'v pflag list"
  AddFlag :: "'v pflag \<Rightarrow> 'v pflag list \<Rightarrow> 'v pflag list res"
  VisitAll :: "'v pflag list \<Rightarrow> 'v pflag list"
  ValidateAndApply :: "'cfg \<Rightarrow> 'fg \<Rightarrow> error option"

text \<open>\<^verbatim>\<open>utilruntime.Must\<close> panics on an error.\<close>

definition Must :: "error option \<times> 'a \<Rightarrow> 'a res" where
  "Must r = (case r of (None, x) \<Rightarrow> Ok x | (Some err, x) \<Rightarrow> Panic ''utilruntime.Must'')"

definition NewLoggingConfig :: "('fg, 'cfg, 'v) logs_lib \<Rightarrow> ('fg, 'cfg) LoggingConfig res" where
  "NewLoggingConfig lib =
     (case Must (AddFeatureGates lib (NewFeatureGate lib)) of
        Ok fg1 \<Rightarrow>
          (case Must (SetFromMap lib [ContextualLogging lib \<mapsto> True] fg1) of
             Ok fg2 \<Rightarrow> Ok \<lparr>featureGate = fg2, lc_config = NewLoggingConfiguration lib\<rparr>
           | Err e \<Rightarrow> Err e | Panic m \<Rightarrow> Panic m)
      | Err e \<Rightarrow> Err e | Panic m \<Rightarrow> Panic m)"

definition LoggingConfig_Apply :: "('fg, 'cfg, 'v) logs_lib \<Rightarrow> ('fg, 'cfg) LoggingConfig \<Rightarrow> error option" where
  "LoggingConfig_Apply lib l = ValidateAndApply lib (lc_config l) (featureGate l)"

definition pflagToCLI :: "'v pflag \<Rightarrow> string \<Rightarrow> ('q, 'v, 'f) cli_flag" where
  "pflagToCLI flag category =
     \<lparr>fl_Category = category, fl_Name = pf_Name flag, fl_Usage = pf_Usage flag, fl_Value = GenericValue (pf_Value flag),
      fl_Required = False, fl_Destination = ValueDest (pf_Value flag), fl_EnvVars = [env_name (pf_Name flag)]\<rparr>"

definition gates_pflag :: "('fg, 'cfg, 'v) logs_lib \<Rightarrow> ('fg, 'cfg) LoggingConfig \<Rightarrow> 'v pflag" where
  "gates_pflag lib l =
     \<lparr>pf_Name = ''feature-gates'',
      pf_Usage = ''A set of key=value pairs that describe feature gates for alpha/experimental features. '' @
                 ''Options are:'' @ CHR 0x0A # ''     '' @ strings_Join (CHR 0x0A # ''     '') (KnownFeatures lib (featureGate l)),
      pf_Value = gate_Value lib (featureGate l)\<rparr>"

definition LoggingConfig_Flags :: "('fg, 'cfg, 'v) logs_lib \<Rightarrow> ('fg, 'cfg) LoggingConfig \<Rightarrow> ('q, 'v, 'f) cli_flag list res" where
  "LoggingConfig_Flags lib l =
     (case AddFlag lib (gates_pflag lib l) (logs_AddFlags lib (lc_config l)) of
        Ok fs \<Rightarrow> Ok (map (\<lambda>flag. pflagToCLI flag ''Logging:'') (VisitAll lib fs))
      | Err e \<Rightarrow> Err e | Panic m \<Rightarrow> Panic m)"

section \<open>Clients\<close>

text \<open>
  The REST configuration: \<open>'q2\<close> are the 32-bit floats, \<open>'r\<close> what else the library keeps in it. The
  in-cluster configuration is read from the container's environment at each call.
\<close>

record ('q2, 'r) rest_Config =
  rest_QPS :: 'q2
  rest_Burst :: int
  rest_other :: 'r

text \<open>The options given to the controller manager: the parts that are set.\<close>

record manager_Options =
  mo_MetricsBindAddress :: string
  mo_HealthProbeBindAddress :: string
  mo_LeaderElection :: bool
  mo_DefaultNamespaces :: "string list"

record ('q, 'q2, 'r, 'w) app_env =
  ae_InClusterConfig :: "'w \<Rightarrow> (error + ('q2, 'r) rest_Config) \<times> 'w"
  ae_float32 :: "'q \<Rightarrow> 'q2"
  ae_NewForConfig :: "('q2, 'r) rest_Config \<Rightarrow> 'w \<Rightarrow> error option \<times> 'w"
  ae_NewManager :: "('q2, 'r) rest_Config \<Rightarrow> manager_Options \<Rightarrow> 'w \<Rightarrow> error option \<times> 'w"
  ae_SetLogger :: "'w \<Rightarrow> 'w"
  ae_main :: "'w main_env"

definition RestConfig ::
  "('q, 'q2, 'r, 'w) app_env \<Rightarrow> 'q KubeClientConfig \<Rightarrow> 'w \<Rightarrow> (error + ('q2, 'r) rest_Config) \<times> 'w" where
  "RestConfig env k w =
     (case ae_InClusterConfig env w of
        (Inl err, w1) \<Rightarrow> (Inl (Errorf ''create in-cluster client configuration: %v'' [AErr err] []), w1)
      | (Inr cfg, w1) \<Rightarrow> (Inr (cfg\<lparr>rest_QPS := ae_float32 env (KubeAPIQPS k), rest_Burst := KubeAPIBurst k\<rparr>), w1))"

definition NewCoreClient :: "('q, 'q2, 'r, 'w) app_env \<Rightarrow> 'q KubeClientConfig \<Rightarrow> 'w \<Rightarrow> error option \<times> 'w" where
  "NewCoreClient env k w =
     (case RestConfig env k w of
        (Inl err, w1) \<Rightarrow> (Some err, w1)
      | (Inr cfg, w1) \<Rightarrow>
          (case ae_NewForConfig env cfg w1 of
             (Some err, w2) \<Rightarrow> (Some (Errorf ''create core client: %v'' [AErr err] []), w2)
           | (None, w2) \<Rightarrow> (None, w2)))"

section \<open>The scheme of the client\<close>

text \<open>
  \<open>add_known\<close> and \<open>add_meta\<close> are \<^verbatim>\<open>AddKnownTypes\<close> and \<^verbatim>\<open>AddToGroupVersion\<close> of the library, \<open>add_core\<close> the
  registration of the Kubernetes types; a Go type is registered under its name.
\<close>

definition GroupVersion :: "string \<times> string" where
  "GroupVersion = (GroupName, ''v1alpha1'')"

definition addKnownTypes ::
  "(string \<times> string \<Rightarrow> string list \<Rightarrow> 's \<Rightarrow> 's) \<Rightarrow> (string \<times> string \<Rightarrow> 's \<Rightarrow> 's) \<Rightarrow> 's \<Rightarrow> error option \<times> 's" where
  "addKnownTypes add_known add_meta s =
     (None, add_meta GroupVersion
        (add_known GroupVersion [''OvsDpdkConfig'', ''OvsDpdkConfigList'', ''OvsDpdkResourcePolicy'', ''OvsDpdkResourcePolicyList''] s))"

definition flags_init ::
  "('s \<Rightarrow> error option \<times> 's) \<Rightarrow> (string \<times> string \<Rightarrow> string list \<Rightarrow> 's \<Rightarrow> 's) \<Rightarrow> (string \<times> string \<Rightarrow> 's \<Rightarrow> 's) \<Rightarrow> 's \<Rightarrow> 's res" where
  "flags_init add_core add_known add_meta s =
     (case Must (add_core s) of
        Ok s1 \<Rightarrow> Must (addKnownTypes add_known add_meta s1)
      | Err e \<Rightarrow> Err e | Panic m \<Rightarrow> Panic m)"

text \<open>Starting the process panics here only when the Kubernetes types cannot be registered.\<close>

lemma flags_init_Ok: "(\<exists>s'. flags_init add_core add_known add_meta s = Ok s') \<longleftrightarrow> fst (add_core s) = None"
  by (auto simp: flags_init_def Must_def addKnownTypes_def split: res.splits option.splits prod.splits)

section \<open>The application\<close>

definition string_flag ::
  "string \<Rightarrow> string \<Rightarrow> string \<Rightarrow> bool \<Rightarrow> ((string \<Rightarrow> string) \<Rightarrow> 'f \<Rightarrow> 'f) \<Rightarrow> string \<Rightarrow> ('q, 'v, 'f) cli_flag" where
  "string_flag name usage val required upd env =
     \<lparr>fl_Category = [], fl_Name = name, fl_Usage = usage, fl_Value = StringValue val, fl_Required = required,
      fl_Destination = string_dest upd, fl_EnvVars = [env]\<rparr>"

definition main_flags :: "('q, 'v, ('q, 'fg, 'cfg) all_Flags) cli_flag list" where
  "main_flags =
     [string_flag ''node-name'' ''The name of the node on which the driver is running.'' [] True NodeName_update ''NODE_NAME'',
      string_flag ''namespace'' ''Namespace where the driver watches for OvsDpdkResourcePolicy resources.''
        DefaultNamespace False Namespace_update ''NAMESPACE'',
      string_flag ''config-name'' ''Name of the OvsDpdkConfig cluster-scoped object to watch.'' ''default'' False ConfigName_update ''CONFIG_NAME'',
      string_flag ''cdi-root'' ''Absolute path to the directory where CDI files will be generated.'' ''/var/run/cdi'' False CdiRoot_update ''CDI_ROOT'',
      string_flag ''db-path'' ''Path to the persistent bbolt database file for checkpoint state.'' DefaultDBPath False DBPath_update ''DB_PATH'',
      string_flag ''kubelet-registrar-directory-path'' ''Absolute path to the directory where kubelet stores plugin registrations.''
        ''/var/lib/kubelet/plugins_registry'' False KubeletRegistrarDirectoryPath_update ''KUBELET_REGISTRAR_DIRECTORY_PATH'',
      string_flag ''kubelet-plugins-directory-path'' ''Absolute path to the directory where kubelet stores plugin data.''
        ''/var/lib/kubelet/plugins'' False KubeletPluginsDirectoryPath_update ''KUBELET_PLUGINS_DIRECTORY_PATH'',
      string_flag ''ovs-rundir'' ''Absolute path to the OVS run directory containing db.sock.'' ''/var/run/openvswitch'' False OVSRunDir_update ''OVS_RUNDIR'',
      \<lparr>fl_Category = [], fl_Name = ''enable-device-metadata'',
       fl_Usage = ''Enable DRA DownwardAPI device metadata (KEP-5304). When enabled, a JSON metadata file is bind-mounted into each container with device attributes such as the vhost-user socket path.'',
       fl_Value = BoolValue False, fl_Required = False, fl_Destination = bool_dest EnableDeviceMetadata_update,
       fl_EnvVars = [''ENABLE_DEVICE_METADATA'']\<rparr>]"

text \<open>\<open>Before\<close> gets the arguments that are left after the flags, and both functions the parsed flags.\<close>

record ('q, 'v, 'fg, 'cfg, 'w) cli_App =
  app_Name :: string
  app_Flags :: "('q, 'v, ('q, 'fg, 'cfg) all_Flags) cli_flag list"
  app_Before :: "string list \<Rightarrow> ('q, 'fg, 'cfg) all_Flags \<Rightarrow> 'w \<Rightarrow> error option \<times> 'w"
  app_Action :: "('q, 'fg, 'cfg) all_Flags \<Rightarrow> 'w \<Rightarrow> error option \<times> 'w"

definition newApp_Before ::
  "('fg, 'cfg, 'v) logs_lib \<Rightarrow> ('q, 'q2, 'r, 'w) app_env \<Rightarrow> string list \<Rightarrow> ('q, 'fg, 'cfg) all_Flags \<Rightarrow> 'w \<Rightarrow> error option \<times> 'w" where
  "newApp_Before lib env args f w =
     (if args \<noteq> [] then (Some (Errorf ''arguments not supported: %v'' (map AStr args) []), w)
      else case LoggingConfig_Apply lib (af_LoggingConfig f) of
             Some err \<Rightarrow> (Some err, w)
           | None \<Rightarrow> (None, ae_SetLogger env w))"

definition manager_options :: "('q, 'fg, 'cfg) all_Flags \<Rightarrow> manager_Options" where
  "manager_options f =
     \<lparr>mo_MetricsBindAddress = ''0'', mo_HealthProbeBindAddress = ''0'', mo_LeaderElection = False, mo_DefaultNamespaces = [Namespace f]\<rparr>"

definition newApp_Action :: "('q, 'q2, 'r, 'w) app_env \<Rightarrow> ('q, 'fg, 'cfg) all_Flags \<Rightarrow> 'w \<Rightarrow> error option \<times> 'w" where
  "newApp_Action env f w =
     (case RestConfig env (af_KubeClientConfig f) w of
        (Inl err, w1) \<Rightarrow> (Some (Errorf ''create REST config: %v'' [AErr err] []), w1)
      | (Inr restCfg, w1) \<Rightarrow>
     (case NewCoreClient env (af_KubeClientConfig f) w1 of
        (Some err, w2) \<Rightarrow> (Some (Errorf ''create client: %v'' [AErr err] []), w2)
      | (None, w2) \<Rightarrow>
     (case ae_NewManager env restCfg (manager_options f) w2 of
        (Some err, w3) \<Rightarrow> (Some (Errorf ''create controller manager: %v'' [AErr err] []), w3)
      | (None, w3) \<Rightarrow> run (ae_main env) (Flags.truncate f) w3)))"

definition newApp ::
  "('fg, 'cfg, 'v) logs_lib \<Rightarrow> ('q :: numeral, 'q2, 'r, 'w) app_env \<Rightarrow> ('q, 'v, 'fg, 'cfg, 'w) cli_App res" where
  "newApp lib env =
     (case NewLoggingConfig lib of
        Err e \<Rightarrow> Err e | Panic m \<Rightarrow> Panic m
      | Ok l \<Rightarrow>
     (case LoggingConfig_Flags lib l of
        Err e \<Rightarrow> Err e | Panic m \<Rightarrow> Panic m
      | Ok logFlags \<Rightarrow>
          Ok \<lparr>app_Name = ''dra-driver-ovsdpdk'', app_Flags = main_flags @ KubeClientConfig_Flags @ logFlags,
              app_Before = newApp_Before lib env, app_Action = newApp_Action env\<rparr>))"

text \<open>
  \<^verbatim>\<open>main\<close>: the exit code of the process. \<open>Run\<close> is the library's. An uncaught panic ends a Go
  program with code 2.
\<close>

definition main ::
  "(('q :: numeral, 'v, 'fg, 'cfg, 'w) cli_App \<Rightarrow> string list \<Rightarrow> 'w \<Rightarrow> error option \<times> 'w) \<Rightarrow>
   ('fg, 'cfg, 'v) logs_lib \<Rightarrow> ('q, 'q2, 'r, 'w) app_env \<Rightarrow> string list \<Rightarrow> 'w \<Rightarrow> nat \<times> 'w" where
  "main Run lib env args w =
     (case newApp lib env of
        Ok app \<Rightarrow> (case Run app args w of (Some err, w1) \<Rightarrow> (1, w1) | (None, w1) \<Rightarrow> (0, w1))
      | _ \<Rightarrow> (2, w))"

section \<open>The flags and their variables\<close>

definition env_char :: "char \<Rightarrow> char" where
  "env_char c = upper_char (if c = CHR ''-'' then CHR ''_'' else c)"

lemma env_name_map: "env_name s = map env_char s"
  by (simp add: env_name_def strings_ToUpper_def strings_ReplaceAll_def env_char_def)

lemma of_env_char: "(of_char (env_char c) :: nat) =
  (if c = CHR ''-'' then 95 else if 97 \<le> (of_char c :: nat) \<and> (of_char c :: nat) \<le> 122 then of_char c - 32 else of_char c)"
  by (auto simp: env_char_def upper_char_def)

lemma env_char_inj: "kebab_char c \<Longrightarrow> kebab_char d \<Longrightarrow> env_char c = env_char d \<Longrightarrow> c = d"
proof -
  assume k: "kebab_char c" "kebab_char d" and "env_char c = env_char d"
  then have e: "(of_char (env_char c) :: nat) = of_char (env_char d)" by simp
  have m: "(of_char (CHR ''-'') :: nat) = 45" by simp
  have "(of_char c :: nat) = of_char d"
    using k e unfolding of_env_char kebab_char_def by (auto simp: m simp del: of_char_eq_iff split: if_splits)
  then show "c = d" by simp
qed

text \<open>Flags with different names have different variables.\<close>

lemma env_name_inj:
  assumes "kebab s" and "kebab t" and "env_name s = env_name t"
  shows "s = t"
proof -
  have "inj_on env_char (Collect kebab_char)" by (auto intro!: inj_onI dest: env_char_inj)
  moreover have "set s \<union> set t \<subseteq> Collect kebab_char"
    using assms(1,2) by (auto simp: kebab_def list_all_iff)
  ultimately have "inj_on env_char (set s \<union> set t)" by (rule inj_on_subset)
  with assms(3) show ?thesis by (simp add: env_name_map inj_on_map_eq_map)
qed

lemma own_flag_names:
  "map fl_Name (main_flags :: ('q :: numeral, 'v, ('q, 'fg, 'cfg) all_Flags) cli_flag list) @
   map fl_Name (KubeClientConfig_Flags :: ('q, 'v, ('q, 'fg, 'cfg) all_Flags) cli_flag list) =
   [''node-name'', ''namespace'', ''config-name'', ''cdi-root'', ''db-path'', ''kubelet-registrar-directory-path'',
    ''kubelet-plugins-directory-path'', ''ovs-rundir'', ''enable-device-metadata'', ''kube-api-qps'', ''kube-api-burst'']"
  by (simp add: main_flags_def KubeClientConfig_Flags_def string_flag_def)

definition own_names :: "string list" where
  "own_names = [''node-name'', ''namespace'', ''config-name'', ''cdi-root'', ''db-path'', ''kubelet-registrar-directory-path'',
    ''kubelet-plugins-directory-path'', ''ovs-rundir'', ''enable-device-metadata'', ''kube-api-qps'', ''kube-api-burst'', ''feature-gates'']"

lemma own_names_ok: "distinct own_names" "list_all kebab own_names"
  by code_simp+

lemma own_flags_env:
  "\<forall>fl \<in> set (main_flags @ KubeClientConfig_Flags). fl_EnvVars fl = [env_name (fl_Name fl)]"
proof -
  have e: "env_name ''node-name'' = ''NODE_NAME''" "env_name ''namespace'' = ''NAMESPACE''" "env_name ''config-name'' = ''CONFIG_NAME''"
    "env_name ''cdi-root'' = ''CDI_ROOT''" "env_name ''db-path'' = ''DB_PATH''"
    "env_name ''kubelet-registrar-directory-path'' = ''KUBELET_REGISTRAR_DIRECTORY_PATH''"
    "env_name ''kubelet-plugins-directory-path'' = ''KUBELET_PLUGINS_DIRECTORY_PATH''" "env_name ''ovs-rundir'' = ''OVS_RUNDIR''"
    "env_name ''enable-device-metadata'' = ''ENABLE_DEVICE_METADATA''" "env_name ''kube-api-qps'' = ''KUBE_API_QPS''"
    "env_name ''kube-api-burst'' = ''KUBE_API_BURST''"
    by code_simp+
  show ?thesis by (simp add: main_flags_def KubeClientConfig_Flags_def string_flag_def e)
qed

text \<open>The flags as data: what a default does to the struct.\<close>

definition apply_default :: "('q, 'v, 'f) cli_flag \<Rightarrow> 'f \<Rightarrow> 'f" where
  "apply_default fl f = (case fl_Destination fl of FieldDest d \<Rightarrow> d (fl_Value fl) f | ValueDest v \<Rightarrow> f)"

lemma fold_pflags [simp]: "fold apply_default (map (\<lambda>flag. pflagToCLI flag c) fs) f = f"
  by (induction fs) (simp_all add: apply_default_def pflagToCLI_def)

text \<open>What the flag libraries document: adding a flag keeps the others, and all flags are visited once.\<close>

definition flag_set_ok :: "('fg, 'cfg, 'v) logs_lib \<Rightarrow> bool" where
  "flag_set_ok lib \<longleftrightarrow> (\<forall>f fs fs'. AddFlag lib f fs = Ok fs' \<longrightarrow> mset fs' = add_mset f (mset fs)) \<and> (\<forall>fs. mset (VisitAll lib fs) = mset fs)"

lemma newApp_log_flags:
  assumes "flag_set_ok lib" and "newApp lib env = Ok app"
  shows "\<exists>l fs. NewLoggingConfig lib = Ok l \<and> mset fs = add_mset (gates_pflag lib l) (mset (logs_AddFlags lib (NewLoggingConfiguration lib))) \<and>
    app_Flags app = main_flags @ KubeClientConfig_Flags @ map (\<lambda>flag. pflagToCLI flag ''Logging:'') fs"
proof -
  obtain l where l: "NewLoggingConfig lib = Ok l" using assms(2) by (auto simp: newApp_def split: res.splits)
  then have c: "lc_config l = NewLoggingConfiguration lib" by (auto simp: NewLoggingConfig_def split: res.splits)
  from assms(2) l obtain fs where fs: "AddFlag lib (gates_pflag lib l) (logs_AddFlags lib (lc_config l)) = Ok fs"
    "app_Flags app = main_flags @ KubeClientConfig_Flags @ map (\<lambda>flag. pflagToCLI flag ''Logging:'') (VisitAll lib fs)"
    by (auto simp: newApp_def LoggingConfig_Flags_def split: res.splits)
  with assms(1) l c show ?thesis by (intro exI [of _ l] exI [of _ "VisitAll lib fs"]) (auto simp: flag_set_ok_def)
qed

text \<open>
  The flags of the application, for every set of logging flags of the library whose names
  are written like the driver's own and differ from them: no two flags share a name, each
  flag can be set by exactly one environment variable, its name in capitals with
  underscores, and no two flags share a variable. Only the node name is required, and the
  defaults put into \<open>Flags\<close> the values of \<open>default_Flags\<close> and the rate limits 5 and 10.
\<close>

theorem newApp_flags:
  fixes lib :: "('fg, 'cfg, 'v) logs_lib" and env :: "('q :: numeral, 'q2, 'r, 'w) app_env"
  assumes lib: "flag_set_ok lib" and app: "newApp lib env = Ok app"
    and names: "distinct (own_names @ map pf_Name (logs_AddFlags lib (NewLoggingConfiguration lib)))"
    and spelled: "list_all kebab (map pf_Name (logs_AddFlags lib (NewLoggingConfiguration lib)))"
  shows "distinct (map fl_Name (app_Flags app)) \<and>
    (\<forall>fl \<in> set (app_Flags app). fl_EnvVars fl = [env_name (fl_Name fl)]) \<and>
    distinct (concat (map fl_EnvVars (app_Flags app))) \<and>
    map fl_Name (filter fl_Required (app_Flags app)) = [''node-name''] \<and>
    (\<forall>f. Flags.truncate (fold apply_default (app_Flags app) f) = default_Flags [] \<and>
         af_KubeClientConfig (fold apply_default (app_Flags app) f) = (af_KubeClientConfig f)\<lparr>KubeAPIQPS := 5, KubeAPIBurst := 10\<rparr> \<and>
         af_LoggingConfig (fold apply_default (app_Flags app) f) = af_LoggingConfig f)"
proof -
  obtain l fs where fs: "mset fs = add_mset (gates_pflag lib l) (mset (logs_AddFlags lib (NewLoggingConfiguration lib)))"
    "app_Flags app = main_flags @ KubeClientConfig_Flags @ map (\<lambda>flag. pflagToCLI flag ''Logging:'') fs"
    using newApp_log_flags [OF lib app] by blast
  have n: "map fl_Name (app_Flags app) = butlast own_names @ map pf_Name fs"
    unfolding fs(2) using own_flag_names [where 'q = 'q and 'v = 'v and 'fg = 'fg and 'cfg = 'cfg]
    by (simp add: own_names_def pflagToCLI_def comp_def)
  have m: "mset (map pf_Name fs) = mset (''feature-gates'' # map pf_Name (logs_AddFlags lib (NewLoggingConfiguration lib)))"
    using arg_cong [OF fs(1), of "image_mset pf_Name"] by (simp add: gates_pflag_def)
  have "mset (map fl_Name (app_Flags app)) = mset (own_names @ map pf_Name (logs_AddFlags lib (NewLoggingConfiguration lib)))"
    unfolding n using m by (simp add: own_names_def)
  then have d: "distinct (map fl_Name (app_Flags app))" and s: "set (map fl_Name (app_Flags app)) = set (own_names @ map pf_Name (logs_AddFlags lib (NewLoggingConfiguration lib)))"
    using names mset_eq_imp_distinct_iff mset_eq_setD by blast+
  have k: "kebab x" if "x \<in> set (map fl_Name (app_Flags app))" for x
    using that spelled own_names_ok(2) unfolding s by (auto simp: list_all_iff)
  have e: "\<forall>fl \<in> set (app_Flags app). fl_EnvVars fl = [env_name (fl_Name fl)]"
    using own_flags_env unfolding fs(2) by (auto simp: pflagToCLI_def)
  have c: "map fl_EnvVars (app_Flags app) = map (\<lambda>fl. [env_name (fl_Name fl)]) (app_Flags app)" using e by simp
  have "concat (map fl_EnvVars (app_Flags app)) = map env_name (map fl_Name (app_Flags app))"
    unfolding c by (simp add: comp_def)
  moreover have "distinct (map env_name (map fl_Name (app_Flags app)))"
    using d k env_name_inj by (subst distinct_map) (auto intro!: inj_onI)
  moreover have "map fl_Name (filter fl_Required (app_Flags app)) = [''node-name'']"
    unfolding fs(2) by (simp add: main_flags_def KubeClientConfig_Flags_def string_flag_def pflagToCLI_def filter_map comp_def)
  moreover have "fold apply_default (app_Flags app) f =
    f\<lparr>NodeName := [], Namespace := DefaultNamespace, ConfigName := ''default'', CdiRoot := ''/var/run/cdi'', DBPath := DefaultDBPath,
      KubeletRegistrarDirectoryPath := ''/var/lib/kubelet/plugins_registry'', KubeletPluginsDirectoryPath := ''/var/lib/kubelet/plugins'',
      OVSRunDir := ''/var/run/openvswitch'', EnableDeviceMetadata := False,
      af_KubeClientConfig := (af_KubeClientConfig f)\<lparr>KubeAPIQPS := 5, KubeAPIBurst := 10\<rparr>\<rparr>" for f
    unfolding fs(2) by (simp add: main_flags_def KubeClientConfig_Flags_def string_flag_def apply_default_def string_dest_def bool_dest_def)
  ultimately show ?thesis using d e by (simp add: default_Flags_def Flags.truncate_def)
qed

text \<open>Two of the logging flags of the library, and a feature gate as the list of enabled features.\<close>

definition sample_logs :: "(string list, string, string) logs_lib" where
  "sample_logs =
     \<lparr>NewFeatureGate = [], NewLoggingConfiguration = ''text'', AddFeatureGates = (\<lambda>fg. (None, fg)), ContextualLogging = ''ContextualLogging'',
      SetFromMap = (\<lambda>m fg. (None, ''ContextualLogging'' # fg)), KnownFeatures = (\<lambda>fg. [''ContextualLogging=true|false'']),
      gate_Value = (\<lambda>fg. ''gates''), logs_AddFlags = (\<lambda>cfg. [\<lparr>pf_Name = ''logging-format'', pf_Usage = [], pf_Value = ''format''\<rparr>,
                                                              \<lparr>pf_Name = ''v'', pf_Usage = [], pf_Value = ''verbosity''\<rparr>]),
      AddFlag = (\<lambda>f fs. if pf_Name f \<in> set (map pf_Name fs) then Panic ''flag redefined'' else Ok (f # fs)), VisitAll = rev,
      ValidateAndApply = (\<lambda>cfg fg. if cfg = ''text'' then None else Some (External ''format''))\<rparr>"

lemma sample_logs_ok: "flag_set_ok sample_logs"
  by (auto simp: flag_set_ok_def sample_logs_def)

section \<open>From the command line to the exit code\<close>

text \<open>
  What the command line library documents of \<^verbatim>\<open>Run\<close>: bad flags end it with an error, \<^verbatim>\<open>--help\<close> without
  one; otherwise \<^verbatim>\<open>Before\<close> runs and, when it has no error, \<^verbatim>\<open>Action\<close>.
\<close>

datatype 'f cli_parsed = Rejected error | HelpShown | Parsed 'f "string list"

definition cli_runs ::
  "(('q, 'v, 'fg, 'cfg, 'w) cli_App \<Rightarrow> string list \<Rightarrow> 'w \<Rightarrow> error option \<times> 'w) \<Rightarrow>
   (('q, 'v, ('q, 'fg, 'cfg) all_Flags) cli_flag list \<Rightarrow> string list \<Rightarrow> ('q, 'fg, 'cfg) all_Flags cli_parsed) \<Rightarrow> bool" where
  "cli_runs Run parse \<longleftrightarrow>
     (\<forall>app args w. Run app args w =
        (case parse (app_Flags app) args of
           Rejected err \<Rightarrow> (Some err, w)
         | HelpShown \<Rightarrow> (None, w)
         | Parsed f rest \<Rightarrow>
             (case app_Before app rest f w of
                (Some err, w1) \<Rightarrow> (Some err, w1)
              | (None, w1) \<Rightarrow> app_Action app f w1)))"

text \<open>Calls of the libraries that are recorded and may fail, around the recording components.\<close>

definition recording_app ::
  "('q \<Rightarrow> 'q2) \<Rightarrow> ('q2, 'r) rest_Config \<Rightarrow> (main_event list \<Rightarrow> error option) \<Rightarrow> (main_event list \<Rightarrow> run_end) \<Rightarrow>
   ('q, 'q2, 'r, main_event list) app_env" where
  "recording_app conv cfg fails ending =
     \<lparr>ae_InClusterConfig = (\<lambda>log. (case fails log of None \<Rightarrow> Inr cfg | Some err \<Rightarrow> Inl err, log @ [Other])), ae_float32 = conv,
      ae_NewForConfig = (\<lambda>c log. (fails log, log @ [Other])), ae_NewManager = (\<lambda>c opts log. (fails log, log @ [Other])),
      ae_SetLogger = (\<lambda>log. log @ [Other]), ae_main = recording_main fails ending\<rparr>"

text \<open>
  A log of the components: what was started has been stopped, and whether the result is an
  error or not, an error-free result means that everything came up.
\<close>

definition orderly :: "error option \<times> main_event list \<Rightarrow> bool" where
  "orderly r \<longleftrightarrow> balanced [] (snd r) \<and> (fst r = None \<longrightarrow> (\<forall>c. Started c \<in> set (snd r)))"

lemma all_components: "(\<forall>c. P c) \<longleftrightarrow> P OvsClient \<and> P PluginServers \<and> P DraDriver"
  by (metis component.exhaust)

lemma balanced_Others: "list_all ((=) Other) es \<Longrightarrow> balanced r (es @ es') = balanced r es'"
  by (induction es) auto

lemma run_orderly:
  "list_all ((=) Other) log \<Longrightarrow> orderly (run (recording_main fails ending) f log)"
  by (simp add: orderly_def all_components run_def recording_main_def recorded_start_def Let_def balanced_Others split: option.split prod.split)

lemma Action_orderly:
  "list_all ((=) Other) log \<Longrightarrow> orderly (newApp_Action (recording_app conv cfg fails ending) f log)"
proof -
  assume log: "list_all ((=) Other) log"
  let ?env = "recording_app conv cfg fails ending :: ('a, 'b, 'c, main_event list) app_env"
  have o: "orderly (Some err, es)" if "list_all ((=) Other) es" for err es
    using that balanced_Others [of es "[]" "[]"] by (simp add: orderly_def)
  show ?thesis
    using log unfolding newApp_Action_def NewCoreClient_def RestConfig_def
    by (auto simp: recording_app_def split: option.splits sum.splits prod.splits intro!: o run_orderly)
qed

text \<open>
  C32. From the command line to the exit code, whatever fails on the way: every component that
  was started is stopped again in reverse order before the process ends; nothing is started
  unless the flags were accepted, no argument is left over and the logging settings are
  valid; and the exit code is 0 only when the help was asked for or all components came up.
\<close>

theorem main_orderly:
  assumes run: "cli_runs Run parse" and app: "newApp lib (recording_app conv cfg fails ending) = Ok app"
    and m: "main Run lib (recording_app conv cfg fails ending) args [] = (code, log)"
  shows "balanced [] log \<and> code \<in> {0, 1} \<and>
    ((\<exists>c. Started c \<in> set log) \<longrightarrow> (\<exists>f. parse (app_Flags app) args = Parsed f [] \<and> LoggingConfig_Apply lib (af_LoggingConfig f) = None)) \<and>
    (code = 0 \<longrightarrow> parse (app_Flags app) args = HelpShown \<or> (\<forall>c. Started c \<in> set log))"
proof -
  let ?env = "recording_app conv cfg fails ending"
  have a: "app_Before app = newApp_Before lib ?env" "app_Action app = newApp_Action ?env"
    using app by (auto simp: newApp_def split: res.splits)
  obtain e log' where r: "Run app args [] = (e, log')" by (cases "Run app args []")
  then have c: "code = (if e = None then 0 else 1)" "log = log'" using m app by (auto simp: main_def split: option.splits)
  show ?thesis
  proof (cases "parse (app_Flags app) args")
    case (Rejected err)
    with run r have "e = Some err" "log' = []" by (simp_all add: cli_runs_def)
    with c show ?thesis by simp
  next
    case HelpShown
    with run r have "e = None" "log' = []" by (simp_all add: cli_runs_def)
    with c HelpShown show ?thesis by simp
  next
    case (Parsed f rest)
    show ?thesis
    proof (cases "rest = [] \<and> LoggingConfig_Apply lib (af_LoggingConfig f) = None")
      case True
      with Parsed run r a have "newApp_Action ?env f [Other] = (e, log')"
        by (simp add: cli_runs_def newApp_Before_def recording_app_def)
      with Action_orderly [of "[Other]" conv cfg fails ending f] have "orderly (e, log')" by simp
      with True Parsed c show ?thesis by (auto simp: orderly_def split: if_splits)
    next
      case False
      then have "\<exists>err. newApp_Before lib ?env rest f [] = (Some err, [])" by (auto simp: newApp_Before_def split: option.splits)
      with Parsed run r a have "e \<noteq> None" "log' = []" by (auto simp: cli_runs_def)
      with c show ?thesis by simp
    qed
  qed
qed

text \<open>A run that comes up and ends by a signal.\<close>

definition sample_app_env :: "(int, int, unit, main_event list) app_env" where
  "sample_app_env = recording_app (\<lambda>q. q) \<lparr>rest_QPS = 0, rest_Burst = 0, rest_other = ()\<rparr> (\<lambda>_. None) (\<lambda>_. ContextCancelled)"

definition sample_parse ::
  "(int, string, (int, string list, string) all_Flags) cli_flag list \<Rightarrow> string list \<Rightarrow> (int, string list, string) all_Flags cli_parsed" where
  "sample_parse fs args =
     (case args of
        [n] \<Rightarrow> Parsed (Flags.extend (default_Flags n)
                 \<lparr>af_LoggingConfig = \<lparr>featureGate = [''ContextualLogging''], lc_config = ''text''\<rparr>,
                  af_KubeClientConfig = \<lparr>KubeAPIQPS = 5, KubeAPIBurst = 10\<rparr>\<rparr>) []
      | _ \<Rightarrow> Rejected (External ''Required flag \"node-name\" not set''))"

definition sample_Run ::
  "(int, string, string list, string, main_event list) cli_App \<Rightarrow> string list \<Rightarrow> main_event list \<Rightarrow> error option \<times> main_event list" where
  "sample_Run app args w =
     (case sample_parse (app_Flags app) args of
        Rejected err \<Rightarrow> (Some err, w)
      | HelpShown \<Rightarrow> (None, w)
      | Parsed f rest \<Rightarrow>
          (case app_Before app rest f w of (Some err, w1) \<Rightarrow> (Some err, w1) | (None, w1) \<Rightarrow> app_Action app f w1))"

lemma sample_app: "\<exists>app. newApp sample_logs sample_app_env = Ok app"
  by (simp add: newApp_def NewLoggingConfig_def LoggingConfig_Flags_def Must_def sample_logs_def gates_pflag_def)

lemma sample_cli_runs: "cli_runs sample_Run sample_parse"
  by (simp add: cli_runs_def sample_Run_def)

theorem newApp_flags_witness:
  "\<exists>app. newApp sample_logs sample_app_env = Ok app \<and> distinct (concat (map fl_EnvVars (app_Flags app))) \<and>
     map fl_Name (filter fl_Required (app_Flags app)) = [''node-name'']"
proof -
  obtain app where app: "newApp sample_logs sample_app_env = Ok app" using sample_app by blast
  have n: "map pf_Name (logs_AddFlags sample_logs (NewLoggingConfiguration sample_logs)) = [''logging-format'', ''v'']"
    by (simp add: sample_logs_def)
  have ok: "distinct (own_names @ [''logging-format'', ''v''])" "list_all kebab [''logging-format'', ''v'']" by code_simp+
  note f = newApp_flags [OF sample_logs_ok app, unfolded n, OF ok]
  show ?thesis using app conjunct1 [OF conjunct2 [OF conjunct2 [OF f]]] conjunct1 [OF conjunct2 [OF conjunct2 [OF conjunct2 [OF f]]]]
    by (intro exI [of _ app] conjI)
qed

theorem main_orderly_witness:
  "\<exists>code log. main sample_Run sample_logs sample_app_env [''node1''] [] = (code, log) \<and> balanced [] log \<and> code \<in> {0, 1}"
proof -
  obtain app where app: "newApp sample_logs sample_app_env = Ok app" using sample_app by blast
  obtain code log where m: "main sample_Run sample_logs sample_app_env [''node1''] [] = (code, log)" by fastforce
  from main_orderly [OF sample_cli_runs app [unfolded sample_app_env_def] m [unfolded sample_app_env_def]] m show ?thesis by blast
qed

end
