(* ===== verification/Program.thy ===== *)
theory Program
  imports Isolation Controllers App
begin

text \<open>
  The whole program: the packages as \<^verbatim>\<open>run\<close> of \<^verbatim>\<open>cmd/dra-driver-ovsdpdk/main.go\<close> wires them, on
  one node. The state machines of the packages are put together into one, in which the
  goroutines of the kubelet plugin, the two controllers, the OVS client and the plugin manager
  interleave; a simulation into each of them shows that the whole keeps what they promise.
\<close>

section \<open>The state\<close>

text \<open>
  How far the only worker of the policy controller is: it has updated the devices and is
  about to update the plugins with the same bridges, or its last reconcile succeeded, or
  neither (at the start, or after an error).
\<close>

datatype policy_worker = Unsynced | UpdatingPlugins "BridgeSpec list" | Synced

text \<open>
  The node with its databases, the parts of the process, and the pools that the API server
  took from the kubelet plugin. Not in the code, but needed for the statements, are the
  bridges deleted since the last update of the plugins (\<open>pg_deleted\<close>) and the claims whose
  unprepare has failed (\<open>pg_failed\<close>).
\<close>

record ('db, 'c, 's, 'k) program =
  pg_node :: "('db, 'c, 's, 'k) node"
  pg_devices :: DeviceState
  pg_client :: ovsClient
  pg_todo :: "string list"
  pg_manager :: Manager
  pg_host :: dp_host
  pg_worker :: policy_worker
  pg_published :: "string \<rightharpoonup> Device list"
  pg_deleted :: "string set"
  pg_failed :: "string set"

text \<open>What the program runs on: the operating system, the libraries and the cluster.\<close>

record ('op, 'res, 'db, 'c, 's, 'k, 'v, 'term) platform =
  pf_os :: os_env
  pf_plugins :: dp_env
  pf_readFile :: "string \<Rightarrow> error + string"
  pf_ovs :: "('op, 'res, 'db) libovsdb"
  pf_boot :: "'db ovs_boot"
  pf_cdi :: "'c cdi_lib"
  pf_bolt :: "('v, 's) bbolt"
  pf_codec :: "'v claim_codec"
  pf_backoff :: "('db, 'c, 's, 'k) node condition \<Rightarrow> ResourceClaim \<times> ('db, 'c, 's, 'k) node
                   \<Rightarrow> error option \<times> (ResourceClaim \<times> ('db, 'c, 's, 'k) node)"
  pf_client :: "'k kube_client"
  pf_GetNode :: "string \<Rightarrow> 'k \<Rightarrow> error + NodeMeta"
  pf_ListPolicies :: "string \<Rightarrow> 'k \<Rightarrow> error + 'term list OvsDpdkResourcePolicy list"
  pf_GetConfig :: "string \<Rightarrow> 'k \<Rightarrow> error + OvsDpdkConfigSpec"
  pf_NewNodeSelector :: "'term list \<Rightarrow> error + (NodeMeta \<Rightarrow> bool)"
  pf_PublishResources :: "(string \<rightharpoonup> Device list) \<Rightarrow> 'k \<Rightarrow> error option \<times> 'k"
  pf_numa_order :: "(string, int) mapping \<Rightarrow> string list"
  pf_device_order :: "AllocatableDevices \<Rightarrow> string list"
  pf_server_order :: "Manager \<Rightarrow> string list"
  pf_resource_order :: "BridgeSpec list \<Rightarrow> string list"

definition program_driver ::
  "('op, 'res, 'db, 'c, 's, 'k, 'v, 'term) platform \<Rightarrow> (ResourceClaim \<Rightarrow> nat \<Rightarrow> DeviceState) \<Rightarrow> ('db, 'c, 's, 'k) node Driver" where
  "program_driver P obs =
     node_driver (node_backend (pf_os P) (pf_ovs P) (pf_cdi P)) (pf_bolt P) (pf_codec P) (pf_client P) (pf_backoff P) obs"

text \<open>The call of the kubelet plugin's helper, and the callback that \<^verbatim>\<open>driver.New\<close> installs.\<close>

definition publish_pools ::
  "('op, 'res, 'db, 'c, 's, 'k, 'v, 'term) platform \<Rightarrow> (string \<rightharpoonup> Device list) \<Rightarrow> ('db, 'c, 's, 'k) program
   \<Rightarrow> error option \<times> ('db, 'c, 's, 'k) program" where
  "publish_pools P pools s =
     (case pf_PublishResources P pools (nd_api (pg_node s)) of
        (e, k) \<Rightarrow> (e, s\<lparr>pg_node := (pg_node s)\<lparr>nd_api := k\<rparr>, pg_published := if e = None then pools else pg_published s\<rparr>))"

definition program_republish ::
  "('op, 'res, 'db, 'c, 's, 'k, 'v, 'term) platform \<Rightarrow> string \<Rightarrow> DeviceState \<Rightarrow> ('db, 'c, 's, 'k) program
   \<Rightarrow> error option \<times> ('db, 'c, 's, 'k) program" where
  "program_republish P nodeName = Driver_PublishResources (publish_pools P) (pf_device_order P) nodeName"

definition program_UpdateResources ::
  "('op, 'res, 'db, 'c, 's, 'k, 'v, 'term) platform \<Rightarrow> BridgeSpec list \<Rightarrow> ('db, 'c, 's, 'k) program
   \<Rightarrow> error option \<times> ('db, 'c, 's, 'k) program" where
  "program_UpdateResources P bs s =
     (case UpdateResources (pf_plugins P) (client_nodes (pf_numa_order P) (pg_client s))
             (pf_server_order P (pg_manager s)) (pf_resource_order P bs) bs (pg_manager s) (pg_host s) of
        (e, m, h) \<Rightarrow> (e, s\<lparr>pg_manager := m, pg_host := h, pg_deleted := if conflicting bs then pg_deleted s else {}\<rparr>))"

text \<open>What the reconcilers are given.\<close>

definition program_env ::
  "('op, 'res, 'db, 'c, 's, 'k, 'v, 'term) platform \<Rightarrow> string \<Rightarrow> ('term, ('db, 'c, 's, 'k) program) controller_env" where
  "program_env P nodeName =
     \<lparr>k8s_GetNode = (\<lambda>n s. pf_GetNode P n (nd_api (pg_node s))),
      k8s_ListPolicies = (\<lambda>ns s. pf_ListPolicies P ns (nd_api (pg_node s))),
      k8s_GetConfig = (\<lambda>n s. pf_GetConfig P n (nd_api (pg_node s))),
      nodeaffinity_NewNodeSelector = pf_NewNodeSelector P,
      ce_BridgeExists = (\<lambda>n s. ovsClient_BridgeExists (pf_ovs P) n (nd_db (pg_node s))),
      ce_republish = program_republish P nodeName,
      ce_UpdateResources = program_UpdateResources P\<rparr>"

lemma program_env_sel [simp]:
  "ce_republish (program_env P nodeName) = program_republish P nodeName"
  "ce_UpdateResources (program_env P nodeName) = program_UpdateResources P"
  by (simp_all add: program_env_def)

section \<open>The steps\<close>

text \<open>
  The kubelet's calls come one at a time; a preparation may see a different device state
  at each of its reads. A policy reconcile reads, updates the devices, and updates the
  plugins, and other goroutines run in between: whatever bridges it has collected (\<open>bs\<close>, valid
  as the CRD demands), the two updates are steps of their own. \<open>C\<close> are the claims.
\<close>

inductive program_step ::
  "('op, 'res, 'db, 'c, 's, 'k, 'v, 'term) platform \<Rightarrow> ('db \<Rightarrow> ovs_tables) \<Rightarrow> ('c \<Rightarrow> string \<rightharpoonup> Spec)
   \<Rightarrow> ('s \<Rightarrow> string \<rightharpoonup> (string \<rightharpoonup> 'v)) \<Rightarrow> ResourceClaim set \<Rightarrow> string
   \<Rightarrow> ('db, 'c, 's, 'k) program \<Rightarrow> ('db, 'c, 's, 'k) program \<Rightarrow> bool"
  for P tables cspecs content C nodeName where
  kubelet_prepares: "set claims \<subseteq> C \<Longrightarrow> (\<forall>c i. ds_inv (obs c i)) \<Longrightarrow>
    PrepareResourceClaims (program_driver P obs) claims (pg_node s) = (r, w) \<Longrightarrow>
    program_step P tables cspecs content C nodeName s (s\<lparr>pg_node := w\<rparr>)"
| kubelet_unprepares: "UnprepareResourceClaims (program_driver P obs) objs (pg_node s) = (r, w) \<Longrightarrow>
    program_step P tables cspecs content C nodeName s
      (s\<lparr>pg_node := w, pg_failed := {u \<in> pg_failed s \<union> no_UID ` set objs. \<exists>pds. has_checkpoint (pf_codec P) content w u pds}\<rparr>)"
| devices_updated: "\<forall>bs'. pg_worker s \<noteq> UpdatingPlugins bs' \<Longrightarrow> valid_list bs \<Longrightarrow> UpdatePolicyDevices (program_republish P nodeName) bs (pg_devices s) s = (r, d, s') \<Longrightarrow>
    program_step P tables cspecs content C nodeName s
      (s'\<lparr>pg_devices := d, pg_worker := if r = Ok () then UpdatingPlugins bs else Unsynced\<rparr>)"
| plugins_updated: "pg_worker s = UpdatingPlugins bs \<Longrightarrow> valid_list bs \<Longrightarrow> program_UpdateResources P bs s = (e, s') \<Longrightarrow>
    program_step P tables cspecs content C nodeName s (s'\<lparr>pg_worker := if e = None then Synced else Unsynced\<rparr>)"
| config_reconciled: "config_Reconcile (program_env P nodeName) configName reqName (pg_devices s) s = (r, d) \<Longrightarrow>
    program_step P tables cspecs content C nodeName s (s\<lparr>pg_devices := d\<rparr>)"
| ovs_row_added: "monitored row \<Longrightarrow> monitor_AddFunc row (pg_client s) = (es, c) \<Longrightarrow>
    program_step P tables cspecs content C nodeName s (s\<lparr>pg_client := c\<rparr>)"
| ovs_interface_deleted: "monitored (InterfaceRow i) \<Longrightarrow> monitor_DeleteFunc (InterfaceRow i) (pg_client s) = (es, c) \<Longrightarrow>
    program_step P tables cspecs content C nodeName s (s\<lparr>pg_client := c\<rparr>)"
| ovs_bridge_deleted: "monitored (BridgeRow br) \<Longrightarrow> monitor_DeleteFunc (BridgeRow br) (pg_client s) = (es, c) \<Longrightarrow>
    program_step P tables cspecs content C nodeName s (s\<lparr>pg_client := c, pg_deleted := insert (br_Name br) (pg_deleted s)\<rparr>)"
| interface_event: "pg_todo s = [] \<Longrightarrow> range_order (numaMap (pg_client s)) ks \<Longrightarrow>
    processInterfaceEvent (pf_readFile P) (pf_ovs P) ks (pg_client s) (nd_db (pg_node s)) = Some (bs, c, db) \<Longrightarrow>
    program_step P tables cspecs content C nodeName s (s\<lparr>pg_client := c, pg_node := (pg_node s)\<lparr>nd_db := db\<rparr>, pg_todo := bs\<rparr>)"
| interface_notified: "pg_todo s = b # bs \<Longrightarrow> range_order (topology (pg_manager s)) ks \<Longrightarrow>
    OnInterfaceChange (pf_plugins P) (client_nodes (pf_numa_order P) (pg_client s)) ks b (pg_manager s) (pg_host s) = (m, h) \<Longrightarrow>
    program_step P tables cspecs content C nodeName s (s\<lparr>pg_todo := bs, pg_manager := m, pg_host := h\<rparr>)"
| kubelet_restarts: "program_step P tables cspecs content C nodeName s (s\<lparr>pg_host := kubelet_restart (pg_host s)\<rparr>)"
| kubelet_socket_event: "range_order (servers (pg_manager s)) ks \<Longrightarrow>
    program_step P tables cspecs content C nodeName s
      (s\<lparr>pg_host := kubelet_watch_event (pf_plugins P) ks created name (pg_manager s) (pg_host s)\<rparr>)"
| outside_changed: "spares tables cspecs (pf_cdi P) (pf_codec P) content C (pg_node s) w \<Longrightarrow>
    program_step P tables cspecs content C nodeName s (s\<lparr>pg_node := w\<rparr>)"

text \<open>
  Where it begins: the constructors have run. The node may come from an earlier process,
  so that it is any state that the kubelet's calls can lead to, and so may be the pools
  that the API server has.
\<close>

definition program_started ::
  "('op, 'res, 'db, 'c, 's, 'k, 'v, 'term) platform \<Rightarrow> ('db \<Rightarrow> ovs_tables) \<Rightarrow> ('c \<Rightarrow> string \<rightharpoonup> Spec)
   \<Rightarrow> ('s \<Rightarrow> string \<rightharpoonup> (string \<rightharpoonup> 'v)) \<Rightarrow> ResourceClaim set \<Rightarrow> ('db, 'c, 's, 'k) program \<Rightarrow> bool" where
  "program_started P tables cspecs content C s \<longleftrightarrow>
     claim_reachable (program_driver P) tables cspecs (pf_cdi P) (pf_codec P) content C (pg_node s, pg_failed s) \<and>
     (\<exists>c. ovs_reachable (pf_readFile P) (pf_ovs P) (c, nd_db (pg_node s)) \<and> pg_client s = SetInterfaceNotifier True c) \<and>
     pg_devices s = SetRepublishCallback True DeviceState_New \<and>
     pg_manager s = new_Manager \<and> serving (pg_host s) = {} \<and> pg_worker s = Unsynced"

inductive program_reachable ::
  "('op, 'res, 'db, 'c, 's, 'k, 'v, 'term) platform \<Rightarrow> ('db \<Rightarrow> ovs_tables) \<Rightarrow> ('c \<Rightarrow> string \<rightharpoonup> Spec)
   \<Rightarrow> ('s \<Rightarrow> string \<rightharpoonup> (string \<rightharpoonup> 'v)) \<Rightarrow> ResourceClaim set \<Rightarrow> string \<Rightarrow> ('db, 'c, 's, 'k) program \<Rightarrow> bool"
  for P tables cspecs content C nodeName where
  program_start: "program_started P tables cspecs content C s \<Longrightarrow> program_reachable P tables cspecs content C nodeName s"
| program_next: "program_reachable P tables cspecs content C nodeName s \<Longrightarrow>
    program_step P tables cspecs content C nodeName s s' \<Longrightarrow> program_reachable P tables cspecs content C nodeName s'"

lemma program_steps:
  assumes "program_reachable P tables cspecs content C nodeName s"
    and "(program_step P tables cspecs content C nodeName)\<^sup>*\<^sup>* s s'"
  shows "program_reachable P tables cspecs content C nodeName s'"
  using assms(2,1) by (induction rule: rtranclp_induct) (auto intro: program_next)

section \<open>The machines of the packages\<close>

text \<open>The parts of the state that the machines of the packages are about.\<close>

definition numa_part :: "('db, 'c, 's, 'k) program \<Rightarrow> 'db numa_system" where
  "numa_part s = \<lparr>ns_client = pg_client s, ns_db = nd_db (pg_node s), ns_todo = pg_todo s, ns_deleted = pg_deleted s,
     ns_manager = pg_manager s, ns_host = pg_host s\<rparr>"

lemma numa_part_sel [simp]:
  "ns_client (numa_part s) = pg_client s" "ns_db (numa_part s) = nd_db (pg_node s)" "ns_todo (numa_part s) = pg_todo s"
  "ns_deleted (numa_part s) = pg_deleted s" "ns_manager (numa_part s) = pg_manager s" "ns_host (numa_part s) = pg_host s"
  by (simp_all add: numa_part_def)

lemma UpdatePolicyDevices_world:
  assumes "UpdatePolicyDevices republish bs d w = (r, d', w')"
  shows "w' = w \<or> w' = snd (republish (updateBridges bs d) w)"
    and "r = Ok () \<Longrightarrow> valid_bridges bs \<and> d' = updateBridges bs d \<and> (republishCallback d \<longrightarrow> republish (updateBridges bs d) w = (None, w'))"
  using assms validate_bridges_iff [of "[]" bs]
  by (auto simp: UpdatePolicyDevices_def Let_def updateBridges_def split: option.splits prod.splits if_splits)

text \<open>Updating and publishing the devices touches the API server and the published pools only.\<close>

lemma UpdatePolicyDevices_keeps:
  assumes "UpdatePolicyDevices (program_republish P nodeName) bs d s = (r, d', s')"
  shows "\<exists>k pools. s' = s\<lparr>pg_node := (pg_node s)\<lparr>nd_api := k\<rparr>, pg_published := pools\<rparr>"
proof -
  have "\<exists>k pools. s = s\<lparr>pg_node := (pg_node s)\<lparr>nd_api := k\<rparr>, pg_published := pools\<rparr>"
    by (intro exI [of _ "nd_api (pg_node s)"] exI [of _ "pg_published s"]) simp
  moreover have "\<exists>k pools. snd (program_republish P nodeName x s) = s\<lparr>pg_node := (pg_node s)\<lparr>nd_api := k\<rparr>, pg_published := pools\<rparr>" for x
  proof -
    let ?pools = "[nodeName \<mapsto> map (\<lambda>k. ad_Device (the (GetAllocatableDevices x k))) (pf_device_order P (GetAllocatableDevices x))]"
    obtain e k where "pf_PublishResources P ?pools (nd_api (pg_node s)) = (e, k)" by fastforce
    then show ?thesis
      unfolding program_republish_def Driver_PublishResources_def publish_pools_def Let_def
      by (intro exI [of _ k] exI [of _ "if e = None then ?pools else pg_published s"]) simp
  qed
  ultimately show ?thesis using UpdatePolicyDevices_world(1) [OF assms] by metis
qed

text \<open>An update of the plugins is one of the manager's.\<close>

lemma program_UpdateResources_parts:
  assumes "program_UpdateResources P bs s = (e, s')"
  shows "\<exists>m h. UpdateResources (pf_plugins P) (client_nodes (pf_numa_order P) (pg_client s)) (pf_server_order P (pg_manager s))
        (pf_resource_order P bs) bs (pg_manager s) (pg_host s) = (e, m, h)
      \<and> s' = s\<lparr>pg_manager := m, pg_host := h, pg_deleted := if conflicting bs then pg_deleted s else {}\<rparr>"
  using assms by (auto simp: program_UpdateResources_def split: prod.splits)

lemma UpdateConfig_keeps:
  assumes "UpdateConfig spec d = (r, d')"
  shows "allocatable d' = allocatable d" and "republishCallback d' = republishCallback d"
proof -
  have "allocatable d' = allocatable d \<and> republishCallback d' = republishCallback d"
    using assms by (auto simp: UpdateConfig_def clearConfig_def updateConfig_def Let_def split: option.splits)
  then show "allocatable d' = allocatable d" "republishCallback d' = republishCallback d" by simp_all
qed

lemma config_Reconcile_device_step:
  assumes "config_Reconcile E configName reqName d w = (r, d')"
  shows "d' = d \<or> (\<exists>spec r. UpdateConfig spec d = (r, d'))"
  using assms by (fastforce simp: config_Reconcile_def Let_def split: if_splits sum.splits prod.splits res.splits)

lemma updateBridges_callback [simp]: "republishCallback (updateBridges bs d) = republishCallback d"
  by (simp add: updateBridges_def)

lemma OnInterfaceChange_topology: "OnInterfaceChange env nodes order b m h = (m', h') \<Longrightarrow> topology m' = topology m"
  by (auto simp: OnInterfaceChange_def ensureServer_def start_server_def Let_def
      split: option.splits prod.splits if_splits)

lemma wanted_iff_allocatable:
  assumes "valid_bridges bs"
  shows "b \<in> wanted bs r \<longleftrightarrow> (\<exists>ad. computeAllocatableDevices bs b = Some ad
    \<and> TopologyResource (ad_BridgeSpec ad) \<noteq> [] \<and> r = TopologyResourcePrefix @ TopologyResource (ad_BridgeSpec ad))"
proof -
  have "distinct (map bs_Name bs)" using assms by (simp add: valid_bridges_def)
  from computeAllocatableDevices_iff [OF this] show ?thesis
    by (auto simp: wanted_def bridgeToDevice_def)
qed

text \<open>
  The pool that the API server should have for a set of devices, and what agrees at the
  stages of the policy worker: the published pool and the devices once they are updated,
  the topology too once the plugins are.
\<close>

definition pools_of :: "('op, 'res, 'db, 'c, 's, 'k, 'v, 'term) platform \<Rightarrow> string \<Rightarrow> AllocatableDevices \<Rightarrow> string \<rightharpoonup> Device list" where
  "pools_of P nodeName a = [nodeName \<mapsto> map (\<lambda>k. ad_Device (the (a k))) (pf_device_order P a)]"

definition topology_agrees :: "('db, 'c, 's, 'k) program \<Rightarrow> bool" where
  "topology_agrees s \<longleftrightarrow>
     (\<forall>b r. topology (pg_manager s) b = Some r \<longleftrightarrow> (\<exists>ad. allocatable (pg_devices s) b = Some ad
        \<and> TopologyResource (ad_BridgeSpec ad) \<noteq> [] \<and> r = TopologyResourcePrefix @ TopologyResource (ad_BridgeSpec ad)))"

definition agreement :: "('op, 'res, 'db, 'c, 's, 'k, 'v, 'term) platform \<Rightarrow> string \<Rightarrow> ('db, 'c, 's, 'k) program \<Rightarrow> bool" where
  "agreement P nodeName s \<longleftrightarrow>
     (case pg_worker s of
        Unsynced \<Rightarrow> True
      | UpdatingPlugins bs \<Rightarrow> valid_bridges bs \<and> allocatable (pg_devices s) = computeAllocatableDevices bs
          \<and> pg_published s = pools_of P nodeName (allocatable (pg_devices s))
      | Synced \<Rightarrow> pg_published s = pools_of P nodeName (allocatable (pg_devices s)) \<and> topology_agrees s)"

lemma agreement_cong:
  "pg_worker s' = pg_worker s \<Longrightarrow> allocatable (pg_devices s') = allocatable (pg_devices s) \<Longrightarrow> pg_published s' = pg_published s
   \<Longrightarrow> topology (pg_manager s') = topology (pg_manager s) \<Longrightarrow> agreement P nodeName s' = agreement P nodeName s"
  by (simp add: agreement_def topology_agrees_def split: policy_worker.splits)

lemma published_devices:
  assumes "UpdatePolicyDevices (program_republish P nodeName) bs d s = (Ok (), d', s')" and "republishCallback d"
  shows "pg_published s' = pools_of P nodeName (allocatable d')"
proof -
  from UpdatePolicyDevices_world(2) [OF assms(1)] assms(2) have "program_republish P nodeName d' s = (None, s')" by simp
  then show ?thesis
    by (auto simp: program_republish_def Driver_PublishResources_def publish_pools_def pools_of_def GetAllocatableDevices_def Let_def
        split: prod.splits)
qed

section \<open>The program stays within them\<close>

locale program_platform =
  claim_node "pf_ovs P" calls tables "pf_cdi P" cspecs "pf_os P" shape "pf_bolt P" "pf_codec P" content "pf_backoff P" "pf_client P"
    "\<lambda>_ _. DeviceState_New"
  for P :: "('op, 'res, 'db, 'c, 's, 'k, 'v, 'term) platform" and calls :: "'op list \<Rightarrow> ovs_call list" and tables :: "'db \<Rightarrow> ovs_tables"
    and cspecs :: "'c \<Rightarrow> string \<rightharpoonup> Spec" and shape :: "('db, 'c, 's, 'k) node itself" and content :: "'s \<Rightarrow> string \<rightharpoonup> (string \<rightharpoonup> 'v)" +
  fixes C :: "ResourceClaim set" and nodeName :: string and cs :: "string list"
  assumes separate_claims: "independent C"
    and dir: "plugin_dir (pf_plugins P) cs"
    and orders: "finite (dom (servers m)) \<Longrightarrow> update_orders bs m (pf_server_order P m) (pf_resource_order P bs)"
    and devices: "finite (dom a) \<Longrightarrow> range_order a (pf_device_order P a)"
begin

abbreviation pstep :: "('db, 'c, 's, 'k) program \<Rightarrow> ('db, 'c, 's, 'k) program \<Rightarrow> bool" where
  "pstep \<equiv> program_step P tables cspecs content C nodeName"
abbreviation numa_ok :: "('db, 'c, 's, 'k) program \<Rightarrow> bool" where
  "numa_ok s \<equiv> ns_reachable (pf_plugins P) (pf_readFile P) (pf_ovs P) (pf_numa_order P) (numa_part s)"
abbreviation claims_ok :: "('db, 'c, 's, 'k) program \<Rightarrow> bool" where
  "claims_ok s \<equiv> claim_reachable (program_driver P) tables cspecs (pf_cdi P) (pf_codec P) content C (pg_node s, pg_failed s)"

lemma numa_mgr_inv: "numa_ok s \<Longrightarrow> mgr_inv_except UNIV (pf_plugins P) (pg_manager s) (pg_host s)"
proof -
  assume "numa_ok s"
  from ns_reachable_simulated [OF this] obtain stale lost where
    "dp_reachable (pf_plugins P) (client_nodes (pf_numa_order P) (pg_client s), stale, lost, pg_manager s, pg_host s)"
    by (auto simp: simulated_def)
  from dp_reachable_inv [OF this dir] show ?thesis by (auto simp: dp_inv_def intro: mgr_inv_mono)
qed

lemma numa_orders: "numa_ok s \<Longrightarrow> update_orders bs (pg_manager s) (pf_server_order P (pg_manager s)) (pf_resource_order P bs)"
  using numa_mgr_inv [of s] orders by (simp add: mgr_inv_except_def)

lemma claims_wf: "claims_ok s \<Longrightarrow> wf_tables (tables (nd_db (pg_node s)))"
  using reachable_promise [OF _ separate_claims, of "(pg_node s, pg_failed s)"] unfolding promise_def
  by (simp add: program_driver_def [abs_def])

lemma claims_in_place:
  assumes "claims_ok s" and "has_checkpoint (pf_codec P) content (pg_node s) u pds"
  shows "u \<in> pg_failed s \<or> in_place tables cspecs (pf_cdi P) u pds (pg_node s)"
  using reachable_in_place [OF _ separate_claims] assms by (auto simp: program_driver_def [abs_def])

lemma claims_spared:
  "claims_ok s \<Longrightarrow> spares tables cspecs (pf_cdi P) (pf_codec P) content C (pg_node s) (pg_node s') \<Longrightarrow> pg_failed s' = pg_failed s \<Longrightarrow> claims_ok s'"
  using claim_next [OF _ changed_elsewhere] by metis

text \<open>Each step is a step, or no step, of the client and the manager.\<close>

lemma numa_step:
  assumes "pstep s s'" and "numa_ok s"
  shows "numa_ok s'"
  using assms
proof (induction rule: program_step.induct)
  case (kubelet_prepares claims obs s r w)
  then show ?case using ns_next [OF kubelet_prepares(4) ns_step.database_changed [of _ _ _ _ "numa_part s" "nd_db w"]]
    by (simp add: numa_part_def)
next
  case (kubelet_unprepares obs objs s r w)
  then show ?case using ns_next [OF kubelet_unprepares(2) ns_step.database_changed [of _ _ _ _ "numa_part s" "nd_db w"]]
    by (simp add: numa_part_def)
next
  case (devices_updated s bs r d s')
  from UpdatePolicyDevices_keeps [OF devices_updated(3)] devices_updated(4) show ?case by (auto simp: numa_part_def)
next
  case (plugins_updated s bs e s')
  from program_UpdateResources_parts [OF plugins_updated(3)] obtain m h where
    u: "UpdateResources (pf_plugins P) (client_nodes (pf_numa_order P) (pg_client s)) (pf_server_order P (pg_manager s))
        (pf_resource_order P bs) bs (pg_manager s) (pg_host s) = (e, m, h)"
    and s': "s' = s\<lparr>pg_manager := m, pg_host := h, pg_deleted := if conflicting bs then pg_deleted s else {}\<rparr>" by blast
  have "ns_step (pf_plugins P) (pf_readFile P) (pf_ovs P) (pf_numa_order P) (numa_part s)
      ((numa_part s)\<lparr>ns_manager := m, ns_host := h, ns_deleted := if conflicting bs then ns_deleted (numa_part s) else {}\<rparr>)"
    using u numa_orders [OF plugins_updated(4)] by (intro ns_step.policies_evaluated [OF plugins_updated(2)]) simp_all
  from ns_next [OF plugins_updated(4) this] show ?case by (cases "conflicting bs") (simp_all add: s' numa_part_def)
next
  case (config_reconciled configName reqName s r d)
  then show ?case by (simp add: numa_part_def)
next
  case (ovs_row_added row s es c)
  then show ?case using ns_next [OF ovs_row_added(3) ns_step.row_added [of row "numa_part s" es c]] by (simp add: numa_part_def)
next
  case (ovs_interface_deleted i s es c)
  then show ?case using ns_next [OF ovs_interface_deleted(3) ns_step.interface_row_deleted [of i "numa_part s" es c]]
    by (simp add: numa_part_def)
next
  case (ovs_bridge_deleted br s es c)
  then show ?case using ns_next [OF ovs_bridge_deleted(3) ns_step.bridge_row_deleted [of br "numa_part s" es c]]
    by (simp add: numa_part_def)
next
  case (interface_event s ks bs c db)
  then show ?case using ns_next [OF interface_event(4) ns_step.event_consumed [of "numa_part s" ks _ _ bs c db]]
    by (simp add: numa_part_def)
next
  case (interface_notified s b bs ks m h)
  then show ?case using ns_next [OF interface_notified(4) ns_step.notifier_called [of "numa_part s" b bs ks _ _ m h]]
    by (simp add: numa_part_def)
next
  case (kubelet_restarts s)
  then show ?case using ns_next [OF kubelet_restarts ns_step.kubelet_replaced [of _ _ _ _ "numa_part s"]]
    by (simp add: numa_part_def)
next
  case (kubelet_socket_event s ks created name)
  then show ?case using ns_next [OF kubelet_socket_event(2) ns_step.watcher_event [of "numa_part s" ks _ _ _ _ created name]]
    by (simp add: numa_part_def)
next
  case (outside_changed s w)
  then show ?case using ns_next [OF outside_changed(2) ns_step.database_changed [of _ _ _ _ "numa_part s" "nd_db w"]]
    by (simp add: numa_part_def)
qed

text \<open>And a step, or no step, of the kubelet's calls.\<close>

lemma claims_step:
  assumes "pstep s s'" and "claims_ok s"
  shows "claims_ok s'"
  using assms
proof (induction rule: program_step.induct)
  case (kubelet_prepares claims obs s r w)
  then show ?case using claim_next [OF kubelet_prepares(4) prepare_called [where D = "program_driver P", OF kubelet_prepares(1,3)]] by simp
next
  case (kubelet_unprepares obs objs s r w)
  then show ?case using claim_next [OF kubelet_unprepares(2) unprepare_called [where D = "program_driver P", OF kubelet_unprepares(1)]] by simp
next
  case (devices_updated s bs r d s')
  from UpdatePolicyDevices_keeps [OF devices_updated(3)] show ?case
    by (intro claims_spared [OF devices_updated(4)]) (auto intro!: spares_parts)
next
  case (plugins_updated s bs e s')
  from program_UpdateResources_parts [OF plugins_updated(3)] plugins_updated(4) show ?case by auto
next
  case (interface_event s ks bs c db)
  have "tables db = tables (nd_db (pg_node s))"
    using db.processInterfaceEvent_unchanged [OF claims_wf [OF interface_event(4)] interface_event(3)] .
  then show ?case by (intro claims_spared [OF interface_event(4)]) (auto intro!: spares_parts)
next
  case (outside_changed s w)
  then show ?case by (intro claims_spared [OF outside_changed(2)]) simp_all
qed simp_all

text \<open>And a step, or no step, of the device state.\<close>

lemma devices_step:
  assumes "pstep s s'" and "ds_inv (pg_devices s)" and "republishCallback (pg_devices s)"
  shows "ds_inv (pg_devices s') \<and> republishCallback (pg_devices s')"
  using assms
proof (induction rule: program_step.induct)
  case (devices_updated s bs r d s')
  from devices_updated(3) show ?case
    by (cases rule: UpdatePolicyDevices_cases) (use devices_updated(4,5) in \<open>auto intro: ds_inv_updateBridges\<close>)
next
  case (plugins_updated s bs e s')
  from program_UpdateResources_parts [OF plugins_updated(3)] plugins_updated(4,5) show ?case by auto
next
  case (config_reconciled configName reqName s r d)
  from config_Reconcile_device_step [OF config_reconciled(1)] config_reconciled(2,3) show ?case
    by (auto intro: ds_inv_UpdateConfig dest: UpdateConfig_keeps)
qed simp_all

text \<open>What agrees stays so under every step.\<close>

lemma agreement_step:
  assumes "pstep s s'" and "agreement P nodeName s" and "republishCallback (pg_devices s)" and "numa_ok s"
  shows "agreement P nodeName s'"
  using assms
proof (induction rule: program_step.induct)
  case (devices_updated s bs r d s')
  show ?case
  proof (cases "r = Ok ()")
    case True
    from UpdatePolicyDevices_world(2) [OF devices_updated(3) True] published_devices [OF devices_updated(3) [unfolded True] devices_updated(5)]
    show ?thesis using True by (simp add: agreement_def updateBridges_def)
  qed (simp add: agreement_def)
next
  case (plugins_updated s bs e s')
  from program_UpdateResources_parts [OF plugins_updated(3)] obtain m h where
    u: "UpdateResources (pf_plugins P) (client_nodes (pf_numa_order P) (pg_client s)) (pf_server_order P (pg_manager s))
        (pf_resource_order P bs) bs (pg_manager s) (pg_host s) = (e, m, h)"
    and s': "s' = s\<lparr>pg_manager := m, pg_host := h, pg_deleted := if conflicting bs then pg_deleted s else {}\<rparr>" by blast
  have old: "valid_bridges bs" "allocatable (pg_devices s) = computeAllocatableDevices bs"
    "pg_published s = pools_of P nodeName (allocatable (pg_devices s))"
    using plugins_updated(1,4) by (simp_all add: agreement_def)
  show ?case
  proof (cases "e = None")
    case True
    have "\<not> conflicting bs"
      using u True UpdateResources_conflict [of bs "pf_plugins P" _ "pf_server_order P (pg_manager s)" "pf_resource_order P bs" "pg_manager s" "pg_host s"]
      by (metis option.distinct(1) prod.inject)
    note U = UpdateResources_inv [OF numa_mgr_inv [OF plugins_updated(6)] dir plugins_updated(2) numa_orders [OF plugins_updated(6)] this u]
    from U(2) True old show ?thesis
      by (simp add: s' agreement_def topology_agrees_def wanted_iff_allocatable)
  qed (auto simp: agreement_def)
next
  case (config_reconciled configName reqName s r d)
  from config_Reconcile_device_step [OF config_reconciled(1)] have "allocatable d = allocatable (pg_devices s)"
    by (auto dest: UpdateConfig_keeps)
  with config_reconciled(2) show ?case by (subst agreement_cong [where s = s]) simp_all
next
  case (interface_notified s b bs ks m h)
  with OnInterfaceChange_topology [OF interface_notified(3)] show ?case by (subst agreement_cong [where s = s]) simp_all
qed (subst agreement_cong, simp_all)+

text \<open>The joint invariant.\<close>

definition program_inv :: "('db, 'c, 's, 'k) program \<Rightarrow> bool" where
  "program_inv s \<longleftrightarrow> numa_ok s \<and> claims_ok s \<and> ds_inv (pg_devices s) \<and> republishCallback (pg_devices s) \<and> agreement P nodeName s"

lemma program_inv_started: "program_started P tables cspecs content C s \<Longrightarrow> program_inv s"
  using ds_inv_New unfolding program_inv_def program_started_def
  by (auto simp: agreement_def SetRepublishCallback_def ds_inv_def intro!: ns_start)

lemma program_inv_step: "pstep s s' \<Longrightarrow> program_inv s \<Longrightarrow> program_inv s'"
  unfolding program_inv_def using numa_step claims_step devices_step agreement_step by blast

lemma reachable_program_inv: "program_reachable P tables cspecs content C nodeName s \<Longrightarrow> program_inv s"
  by (induction rule: program_reachable.induct) (auto intro: program_inv_started program_inv_step)

section \<open>The reconciler's code as steps\<close>

lemma program_UpdateResources_frame:
  "program_UpdateResources P bs s = (e, s') \<Longrightarrow>
   program_UpdateResources P bs (s\<lparr>pg_devices := d, pg_worker := v\<rparr>) = (e, s'\<lparr>pg_devices := d, pg_worker := v\<rparr>)"
  by (auto simp: program_UpdateResources_def split: prod.splits)

text \<open>
  The handler \<^verbatim>\<open>Reconcile\<close>, called with the device state and the rest of the program, is at most
  two steps; when it reports success, the worker is done.
\<close>

lemma policy_Reconcile_steps:
  assumes r: "policy_Reconcile (program_env P nodeName) nodeName namespace (pg_devices s) s = (r, d, s')"
    and idle: "\<forall>bs. pg_worker s \<noteq> UpdatingPlugins bs"
    and valid: "policies_valid (program_env P nodeName) namespace s"
  shows "\<exists>v. pstep\<^sup>*\<^sup>* s (s'\<lparr>pg_devices := d, pg_worker := v\<rparr>) \<and> (r = Ok \<lparr>RequeueAfter = 0\<rparr> \<longrightarrow> v = Synced)"
proof (cases "policy_view (program_env P nodeName) nodeName namespace s")
  case None
  from policy_Reconcile_blind [OF None, of "pg_devices s"] r have "d = pg_devices s" "s' = s" "r \<noteq> Ok \<lparr>RequeueAfter = 0\<rparr>"
    by (auto simp: time_Second_def)
  then have "pstep\<^sup>*\<^sup>* s (s'\<lparr>pg_devices := d, pg_worker := pg_worker s\<rparr>)" by simp
  with \<open>r \<noteq> _\<close> show ?thesis by blast
next
  case (Some bs)
  note vl = policy_view_valid [OF Some valid]
  obtain r1 d1 s1 where u: "UpdatePolicyDevices (program_republish P nodeName) bs (pg_devices s) s = (r1, d1, s1)" by (metis prod_cases3)
  note one = devices_updated [OF idle vl u, of tables cspecs content C]
  have seen: "(r, d, s') = (case (r1, d1, s1) of
        (Panic m, d1, w1) \<Rightarrow> (Panic m, d1, w1) | (Err err, d1, w1) \<Rightarrow> (Err err, d1, w1)
      | (Ok _, d1, w1) \<Rightarrow> (case program_UpdateResources P bs w1 of
             (Some err, w2) \<Rightarrow> (Err err, d1, w2) | (None, w2) \<Rightarrow> (Ok \<lparr>RequeueAfter = 0\<rparr>, d1, w2)))"
    using policy_Reconcile_seen [OF Some, of "pg_devices s", unfolded program_env_sel u] r by metis
  show ?thesis
  proof (cases "r1 = Ok ()")
    case False
    then have "(\<forall>x. r \<noteq> Ok x) \<and> d = d1 \<and> s' = s1" using seen by (cases r1) auto
    with one False show ?thesis by (intro exI [of _ Unsynced]) auto
  next
    case True
    obtain e s2 where p: "program_UpdateResources P bs s1 = (e, s2)" by fastforce
    let ?v = "if e = None then Synced else Unsynced" and ?s1 = "s1\<lparr>pg_devices := d1, pg_worker := UpdatingPlugins bs\<rparr>"
    have "pstep ?s1 (s2\<lparr>pg_devices := d1, pg_worker := ?v\<rparr>)"
      using plugins_updated [of ?s1 bs _ e, OF _ vl program_UpdateResources_frame [OF p]] by simp
    with one True have "pstep\<^sup>*\<^sup>* s (s2\<lparr>pg_devices := d1, pg_worker := ?v\<rparr>)" by auto
    moreover have "d = d1" "s' = s2" "r = Ok \<lparr>RequeueAfter = 0\<rparr> \<longrightarrow> e = None" using seen p True by (auto split: option.splits)
    ultimately show ?thesis by (intro exI [of _ ?v]) auto
  qed
qed

lemma steps_inv: "pstep\<^sup>*\<^sup>* s s' \<Longrightarrow> program_inv s \<Longrightarrow> program_inv s'"
  by (induction rule: rtranclp_induct) (auto intro: program_inv_step)

text \<open>What the invariant says, over the model's own terms.\<close>

lemma reachable_facts:
  assumes "program_reachable P tables cspecs content C nodeName s"
  shows "has_checkpoint (pf_codec P) content (pg_node s) u pds \<Longrightarrow> u \<notin> pg_failed s \<Longrightarrow>
      in_place tables cspecs (pf_cdi P) u pds (pg_node s)"
    and "ds_inv (pg_devices s)"
    and "serving (pg_host s) = socketPath (pf_plugins P) ` dom (servers (pg_manager s))"
    and "servers (pg_manager s) r = Some srv \<Longrightarrow> bridges_of (pg_manager s) r \<inter> pending (numa_part s) = {} \<Longrightarrow>
      agree (client_nodes (pf_numa_order P) (pg_client s)) (bridges_of (pg_manager s) r) (GetNUMA srv)"
    and "agreement P nodeName s"
proof -
  have inv: "numa_ok s" "claims_ok s" "ds_inv (pg_devices s)" "agreement P nodeName s"
    using reachable_program_inv [OF assms] by (simp_all add: program_inv_def)
  from claims_in_place [OF inv(2)]
  show "has_checkpoint (pf_codec P) content (pg_node s) u pds \<Longrightarrow> u \<notin> pg_failed s \<Longrightarrow> in_place tables cspecs (pf_cdi P) u pds (pg_node s)"
    by blast
  obtain stale lost where st: "stale \<subseteq> pending (numa_part s)" and
    r: "dp_reachable (pf_plugins P) (client_nodes (pf_numa_order P) (pg_client s), stale, lost, pg_manager s, pg_host s)"
    using ns_reachable_simulated [OF inv(1)] by (auto simp: simulated_def)
  note dp = dp_reachable_inv [OF r dir]
  show "serving (pg_host s) = socketPath (pf_plugins P) ` dom (servers (pg_manager s))" using dp by (simp add: dp_inv_def mgr_inv_except_def)
  show "agree (client_nodes (pf_numa_order P) (pg_client s)) (bridges_of (pg_manager s) r) (GetNUMA srv)"
    if "servers (pg_manager s) r = Some srv" "bridges_of (pg_manager s) r \<inter> pending (numa_part s) = {}"
  proof -
    have "bridges_of (pg_manager s) r \<inter> stale = {}" using st that(2) by blast
    with dp that(1) show ?thesis by (simp add: dp_inv_def)
  qed
qed (use reachable_program_inv [OF assms] in \<open>simp_all add: program_inv_def\<close>)

lemma pools_of_devices:
  assumes "ds_inv d"
  obtains devs where "pools_of P nodeName (allocatable d) = [nodeName \<mapsto> devs]" and "distinct (map dev_Name devs)"
    and "set devs = ad_Device ` ran (allocatable d)"
proof
  let ?a = "allocatable d" and ?ks = "pf_device_order P (allocatable d)"
  have ks: "distinct ?ks" "set ?ks = dom ?a" using devices [of ?a] assms by (auto simp: range_order_def ds_inv_def)
  have name: "dev_Name (ad_Device (the (?a k))) = k" if k: "k \<in> dom ?a" for k
  proof -
    obtain ad where ad: "?a k = Some ad" using k by (meson domD)
    with assms have "ad = bridgeToDevice (ad_BridgeSpec ad)" "bs_Name (ad_BridgeSpec ad) = k" by (auto simp: ds_inv_def)
    then have "dev_Name (ad_Device ad) = k" by (metis AllocatableDevice.select_convs(1) Device.select_convs(1) bridgeToDevice_def)
    with ad show ?thesis by simp
  qed
  show "pools_of P nodeName ?a = [nodeName \<mapsto> map (\<lambda>k. ad_Device (the (?a k))) ?ks]" by (simp add: pools_of_def)
  have "map (\<lambda>k. dev_Name (ad_Device (the (?a k)))) ?ks = ?ks" by (rule map_idI) (simp add: name ks(2))
  then show "distinct (map dev_Name (map (\<lambda>k. ad_Device (the (?a k))) ?ks))" using ks(1) by (simp add: comp_def)
  show "set (map (\<lambda>k. ad_Device (the (?a k))) ?ks) = ad_Device ` ran ?a" by (auto simp: ks(2) ran_def image_iff) (metis domI option.sel)
qed

end

section \<open>A sample platform\<close>

text \<open>The node of the sample claims, with one policy for its bridge and a database that is there at once.\<close>

definition ready_ovsdb :: "'w ovs_boot" where
  "ready_ovsdb =
     \<lparr>ob_NewClientDBModel = None, ob_NewOVSDBClient = (\<lambda>_. None), ob_Connect = (\<lambda>n w. (None, w)), ob_cancelled = (\<lambda>_. None),
      ob_Monitor = (\<lambda>w. (None, w)), ob_Disconnect = (\<lambda>w. w), ob_Connected = (\<lambda>_. True)\<rparr>"

definition device_order :: "AllocatableDevices \<Rightarrow> string list" where
  "device_order a = (SOME ks. range_order a ks)"

definition sample_platform ::
  "(ovs_call, ref_result, ovs_tables, string \<rightharpoonup> Spec, mem_bolt, api_event list, PreparedDevice list, string) platform" where
  "sample_platform =
     \<lparr>pf_os = calm_env, pf_plugins = kubelet_env, pf_readFile = node1_file, pf_ovs = ref_lib, pf_boot = ready_ovsdb, pf_cdi = mem_cdi,
      pf_bolt = mem_bbolt, pf_codec = mem_codec, pf_backoff = attempts BackoffSteps,
      pf_client = recording_client (\<lambda>_. None) (\<lambda>_. Inl (External ''unreachable'')),
      pf_GetNode = (\<lambda>n k. Inr \<lparr>nm_Name = n, nm_Labels = Map.empty\<rparr>),
      pf_ListPolicies = (\<lambda>ns k. Inr [\<lparr>pol_Name = ''p'', pol_NodeSelector = None, pol_Bridges = [sample_bridge]\<rparr>]),
      pf_GetConfig = (\<lambda>n k. Inl (ApiStatus NotFound)), pf_NewNodeSelector = (\<lambda>ts. Inl (External ''invalid'')),
      pf_PublishResources = (\<lambda>pools k. (None, k)), pf_numa_order = (\<lambda>_. [''i0'']), pf_device_order = device_order,
      pf_server_order = server_order, pf_resource_order = resource_order\<rparr>"

interpretation sample: program_platform sample_platform "\<lambda>cs. cs" "\<lambda>T. T" "\<lambda>m. m" shape mem_content "set two_claims" nodeName
    "[''var'', ''lib'', ''kubelet'', ''device-plugins'']"
  for shape :: "(ovs_tables, string \<rightharpoonup> Spec, mem_bolt, api_event list) node itself" and nodeName
proof (intro program_platform.intro program_platform_axioms.intro, goal_cases)
  case 1
  show ?case using sample_claim_node.claim_node_axioms by (simp add: sample_platform_def)
next
  case 2
  show ?case by (rule two_claims_independent)
next
  case 3
  show ?case using kubelet_dir by (simp add: sample_platform_def)
next
  case (4 m bs)
  then show ?case using kubelet_orders by (simp add: sample_platform_def)
next
  case (5 a)
  then show ?case unfolding sample_platform_def by (simp add: device_order_def) (metis range_order_exists someI_ex)
qed

definition sample_program :: "(ovs_tables, string \<rightharpoonup> Spec, mem_bolt, api_event list) program" where
  "sample_program =
     \<lparr>pg_node = stack_node, pg_devices = SetRepublishCallback True DeviceState_New, pg_client = SetInterfaceNotifier True new_ovsClient,
      pg_todo = [], pg_manager = new_Manager, pg_host = fresh_host, pg_worker = Unsynced, pg_published = Map.empty,
      pg_deleted = {}, pg_failed = {}\<rparr>"

abbreviation sample_reached :: "(ovs_tables, string \<rightharpoonup> Spec, mem_bolt, api_event list) program \<Rightarrow> bool" where
  "sample_reached \<equiv> program_reachable sample_platform (\<lambda>T. T) (\<lambda>m. m) mem_content (set two_claims) ''node1''"

lemma sample_claim_start:
  "claim_reachable (program_driver sample_platform) (\<lambda>T. T) (\<lambda>m. m) (pf_cdi sample_platform) (pf_codec sample_platform) mem_content
     (set two_claims) (stack_node, {})"
proof (rule claim_start)
  show "wf_tables (nd_db stack_node)" using sample_wf by (simp add: stack_node_def sample_node_def)
  show "stored_claims (pf_codec sample_platform) mem_content (nd_store stack_node) = Map.empty"
    by (simp add: stack_node_def stored_claims_def empty_bolt_def mem_content_def fun_eq_iff)
qed

lemma sample_started: "sample_reached sample_program"
proof (rule program_start)
  have "ovs_reachable (pf_readFile sample_platform) (pf_ovs sample_platform) (new_ovsClient, nd_db stack_node)" by (rule ovs_start)
  with sample_claim_start show "program_started sample_platform (\<lambda>T. T) (\<lambda>m. m) mem_content (set two_claims) sample_program"
    unfolding program_started_def by (auto simp: sample_program_def fresh_host_def)
qed

lemma sample_reconcile:
  obtains s where "policy_Reconcile (program_env sample_platform ''node1'') ''node1'' ''ns'' (pg_devices sample_program) sample_program
      = (Ok \<lparr>RequeueAfter = 0\<rparr>, updateBridges [sample_bridge] (pg_devices sample_program), s)"
    and "pg_node s = stack_node" and "pg_failed s = {}"
proof -
  let ?E = "program_env sample_platform ''node1''"
  have v: "policy_view ?E ''node1'' ''ns'' sample_program = Some [sample_bridge]"
    by (simp add: policy_view_def program_env_def sample_platform_def matchesNodeSelector_def sample_bridge_def sample_program_def
        stack_node_def ovsClient_BridgeExists_def ref_lib_def sample_tables_def has_bridge_def)
  show ?thesis
    by (rule that, subst policy_Reconcile_seen [OF v],
        simp add: UpdatePolicyDevices_def sample_bridge_def Let_def sample_program_def SetRepublishCallback_def DeviceState_New_def updateBridges_def
          program_republish_def Driver_PublishResources_def publish_pools_def sample_platform_def program_UpdateResources_def
          UpdateResources_def numa0_orders(1) resource_order_def errors_Join_def)
      simp_all
qed

lemma sample_policies_valid: "policies_valid (program_env sample_platform ''node1'') ''ns'' s"
  by (simp add: policies_valid_def program_env_def sample_platform_def valid_list_def sample_bridge_def)

text \<open>The claim of the sample run, prepared by the program's own driver.\<close>

lemma sample_prepare:
  obtains r w pds where "PrepareResourceClaims (program_driver sample_platform (\<lambda>_ _. sample_state)) sample_claims stack_node = (r, w)"
    and "set sample_claims \<subseteq> set two_claims" and "has_checkpoint (pf_codec sample_platform) mem_content w ''0123-4567-89ab'' pds"
proof -
  have d: "program_driver sample_platform (\<lambda>_ _. sample_state) = sample_driver"
    by (simp add: program_driver_def sample_platform_def sample_driver_def)
  obtain res w where p: "PrepareResourceClaims sample_driver sample_claims stack_node = (Ok (res, None), w)" by (rule sample_run_ok)
  obtain pds where "has_checkpoint mem_codec mem_content w ''0123-4567-89ab'' pds"
    using driver_stack.prepare_checkpoints_law [OF sample_stack.driver_stack_axioms p [unfolded sample_driver_def PrepareResourceClaims_def]]
    by (auto simp: sample_claims_def sample_claim_def)
  moreover have "set sample_claims \<subseteq> set two_claims" by (simp add: sample_claims_def two_claims_def)
  ultimately show ?thesis using p d that by (simp add: sample_platform_def)
qed

text \<open>
  C6. The program as a whole keeps what its packages promise, however their goroutines
  interleave: in every reachable state every checkpointed claim has its devices in place
  unless unpreparing it has failed, the devices that can be prepared are valid, the sockets
  served are those of the plugin servers, and a server announces the NUMA node of all its
  bridges unless a notification is on its way. When the last policy reconcile has
  succeeded, three views agree: the API server has exactly the devices that can be
  prepared, each under its own name, and the plugins' topology assigns a bridge to a
  resource exactly when that device's policy asks for it.
\<close>

theorem program_invariant:
  assumes "program_platform P calls tables cspecs content C cs" and "program_reachable P tables cspecs content C nodeName s"
  shows "(\<forall>u pds. has_checkpoint (pf_codec P) content (pg_node s) u pds \<longrightarrow> u \<in> pg_failed s \<or> in_place tables cspecs (pf_cdi P) u pds (pg_node s))
    \<and> ds_inv (pg_devices s)
    \<and> serving (pg_host s) = socketPath (pf_plugins P) ` dom (servers (pg_manager s))
    \<and> (\<forall>r srv. servers (pg_manager s) r = Some srv \<longrightarrow> bridges_of (pg_manager s) r \<inter> pending (numa_part s) = {} \<longrightarrow>
         agree (client_nodes (pf_numa_order P) (pg_client s)) (bridges_of (pg_manager s) r) (GetNUMA srv))
    \<and> (pg_worker s = Synced \<longrightarrow>
         (\<exists>devs. pg_published s = [nodeName \<mapsto> devs] \<and> distinct (map dev_Name devs) \<and> set devs = ad_Device ` ran (allocatable (pg_devices s)))
         \<and> (\<forall>b r. topology (pg_manager s) b = Some r \<longleftrightarrow> (\<exists>ad. allocatable (pg_devices s) b = Some ad
              \<and> TopologyResource (ad_BridgeSpec ad) \<noteq> [] \<and> r = TopologyResourcePrefix @ TopologyResource (ad_BridgeSpec ad))))"
proof -
  note f = program_platform.reachable_facts [OF assms]
  obtain devs where p: "pools_of P nodeName (allocatable (pg_devices s)) = [nodeName \<mapsto> devs]" "distinct (map dev_Name devs)"
    "set devs = ad_Device ` ran (allocatable (pg_devices s))" by (rule program_platform.pools_of_devices [OF assms(1) f(2)])
  have "pg_published s = [nodeName \<mapsto> devs]" "topology_agrees s" if "pg_worker s = Synced"
    using f(5) that p(1) by (simp_all add: agreement_def)
  with f(1-4) p(2,3) show ?thesis unfolding topology_agrees_def by blast
qed


theorem program_invariant_witness:
  "\<exists>s pds devs. sample_reached s \<and> pg_published s = [''node1'' \<mapsto> devs] \<and> set devs = {ad_Device (bridgeToDevice sample_bridge)}
     \<and> has_checkpoint (pf_codec sample_platform) mem_content (pg_node s) ''0123-4567-89ab'' pds
     \<and> in_place (\<lambda>T. T) (\<lambda>m. m) (pf_cdi sample_platform) ''0123-4567-89ab'' pds (pg_node s)"
proof -
  obtain s1 where r: "policy_Reconcile (program_env sample_platform ''node1'') ''node1'' ''ns'' (pg_devices sample_program) sample_program
      = (Ok \<lparr>RequeueAfter = 0\<rparr>, updateBridges [sample_bridge] (pg_devices sample_program), s1)"
    and s1: "pg_node s1 = stack_node" "pg_failed s1 = {}" by (rule sample_reconcile)
  let ?s2 = "s1\<lparr>pg_devices := updateBridges [sample_bridge] (pg_devices sample_program), pg_worker := Synced\<rparr>"
  have "(program_step sample_platform (\<lambda>T. T) (\<lambda>m. m) mem_content (set two_claims) ''node1'')\<^sup>*\<^sup>* sample_program ?s2"
    using sample.policy_Reconcile_steps [OF r _ sample_policies_valid] by (auto simp: sample_program_def)
  with sample_started have two: "sample_reached ?s2" by (rule program_steps)
  obtain x w pds where p: "PrepareResourceClaims (program_driver sample_platform (\<lambda>_ _. sample_state)) sample_claims stack_node = (x, w)"
    and c: "set sample_claims \<subseteq> set two_claims" and h: "has_checkpoint (pf_codec sample_platform) mem_content w ''0123-4567-89ab'' pds"
    by (rule sample_prepare)
  let ?s3 = "?s2\<lparr>pg_node := w\<rparr>"
  have "ds_inv sample_state" using reachable_ds_inv [OF sample_reachable] by simp
  then have three: "sample_reached ?s3"
    using p s1(1) by (intro program_next [OF two] kubelet_prepares [OF c, where obs = "\<lambda>_ _. sample_state"]) simp_all
  note inv = program_invariant [OF sample.program_platform_axioms three]
  from inv h s1(2) have "in_place (\<lambda>T. T) (\<lambda>m. m) (pf_cdi sample_platform) ''0123-4567-89ab'' pds w" by fastforce
  moreover have "ran (allocatable (pg_devices ?s3)) = {bridgeToDevice sample_bridge}" by (simp add: updateBridges_def computeAllocatableDevices_def sample_bridge_def)
  with inv obtain devs where "pg_published ?s3 = [''node1'' \<mapsto> devs]" "set devs = {ad_Device (bridgeToDevice sample_bridge)}" by auto
  ultimately show ?thesis using three h by (intro exI [of _ ?s3] exI [of _ pds] exI [of _ devs]) simp
qed

text \<open>
  C21. The handler of the policies fits into this: a call of \<^verbatim>\<open>Reconcile\<close> in a reachable state, with
  policies that the CRD accepts, leads to a reachable state, whatever it returns; and when it
  returns success, the three views agree from then on until the next reconcile.
\<close>

theorem Reconcile_in_program:
  assumes "program_platform P calls tables cspecs content C cs" and "program_reachable P tables cspecs content C nodeName s"
    and "policy_Reconcile (program_env P nodeName) nodeName namespace (pg_devices s) s = (r, d, s')"
    and "\<forall>bs. pg_worker s \<noteq> UpdatingPlugins bs" and "policies_valid (program_env P nodeName) namespace s"
  shows "\<exists>v. program_reachable P tables cspecs content C nodeName (s'\<lparr>pg_devices := d, pg_worker := v\<rparr>)
    \<and> (r = Ok \<lparr>RequeueAfter = 0\<rparr> \<longrightarrow> pg_published s' = pools_of P nodeName (allocatable d) \<and> v = Synced)"
proof -
  from program_platform.policy_Reconcile_steps [OF assms(1,3-5)] obtain v where
    st: "(program_step P tables cspecs content C nodeName)\<^sup>*\<^sup>* s (s'\<lparr>pg_devices := d, pg_worker := v\<rparr>)"
    and ok: "r = Ok \<lparr>RequeueAfter = 0\<rparr> \<longrightarrow> v = Synced" by blast
  note r = program_steps [OF assms(2) st]
  from program_platform.reachable_facts(5) [OF assms(1) r, unfolded agreement_def] ok have "r = Ok \<lparr>RequeueAfter = 0\<rparr> \<longrightarrow> pg_published s' = pools_of P nodeName (allocatable d)"
    by auto
  with r ok show ?thesis by blast
qed

theorem Reconcile_in_program_witness:
  "\<exists>s. sample_reached s \<and> pg_worker s = Synced
     \<and> pg_published s = pools_of sample_platform ''node1'' (computeAllocatableDevices [sample_bridge])"
proof -
  obtain s1 where r: "policy_Reconcile (program_env sample_platform ''node1'') ''node1'' ''ns'' (pg_devices sample_program) sample_program
      = (Ok \<lparr>RequeueAfter = 0\<rparr>, updateBridges [sample_bridge] (pg_devices sample_program), s1)"
    and "pg_node s1 = stack_node" "pg_failed s1 = {}" by (rule sample_reconcile)
  let ?d = "updateBridges [sample_bridge] (pg_devices sample_program)"
  have "\<forall>bs. pg_worker sample_program \<noteq> UpdatingPlugins bs" by (simp add: sample_program_def)
  from Reconcile_in_program [OF sample.program_platform_axioms sample_started r this sample_policies_valid]
  have "sample_reached (s1\<lparr>pg_devices := ?d, pg_worker := Synced\<rparr>)"
    and "pg_published s1 = pools_of sample_platform ''node1'' (allocatable ?d)" by auto
  then show ?thesis by (intro exI [of _ "s1\<lparr>pg_devices := ?d, pg_worker := Synced\<rparr>"]) (simp add: updateBridges_def)
qed

end
