(* ===== verification/Lifetime.thy ===== *)
theory Lifetime
  imports Program
begin

text \<open>
  From the start of a process to its end: \<^verbatim>\<open>run\<close> of \<^verbatim>\<open>cmd/dra-driver-ovsdpdk/main.go\<close> on the state
  of the theory \<open>Program\<close>, with the constructors and the deferred calls of the packages, and
  one process after the other on the same node.
\<close>

section \<open>The stages of run\<close>

text \<open>
  What holds before anything is started (\<open>down\<close>), while the OVS client is connected (\<open>linked\<close>),
  while the plugin manager is up too (\<open>managed\<close>), and while the driver is (\<open>driving\<close>): if every
  constructor that succeeds leads one stage up, every deferred call one stage down, and what
  fails leads nowhere, then \<^verbatim>\<open>run\<close> ends where it began.
\<close>

locale main_stages =
  fixes env :: "'w main_env" and down linked managed driving :: "'w \<Rightarrow> bool"
  assumes mkdir: "down w \<Longrightarrow> me_MkdirAll env p mode w = (e, w') \<Longrightarrow> down w'"
    and ovs_New: "down w \<Longrightarrow> me_ovs_New env runDir w = (e, w') \<Longrightarrow> if e = None then linked w' else down w'"
    and cdi_New: "linked w \<Longrightarrow> me_cdi_New env root w = (e, w') \<Longrightarrow> linked w'"
    and NewManager: "linked w \<Longrightarrow> me_NewManager env w = (e, w') \<Longrightarrow> if e = None then managed w' else linked w'"
    and driver_New: "managed w \<Longrightarrow> me_driver_New env cfg w = (e, w') \<Longrightarrow> if e = None then driving w' else managed w'"
    and setup_policy: "driving w \<Longrightarrow> me_SetupPolicyReconciler env n ns w = (e, w') \<Longrightarrow> driving w'"
    and setup_config: "driving w \<Longrightarrow> me_SetupConfigReconciler env n w = (e, w') \<Longrightarrow> driving w'"
    and serve: "driving w \<Longrightarrow> me_serve env w = (r, w') \<Longrightarrow> driving w'"
    and driver_Stop: "driving w \<Longrightarrow> managed (me_driver_Stop env w)"
    and StopAll: "managed w \<Longrightarrow> linked (me_StopAll env w)"
    and ovs_Close: "linked w \<Longrightarrow> down (me_ovs_Close env w)"
begin

lemma shutdown: "driving w \<Longrightarrow> down (me_ovs_Close env (me_StopAll env (me_driver_Stop env w)))"
  by (intro ovs_Close StopAll driver_Stop)

lemma controllers_down:
  assumes "driving w"
  shows "down (snd (let shutdown = (\<lambda>w. me_ovs_Close env (me_StopAll env (me_driver_Stop env w)))
      in case me_SetupPolicyReconciler env (NodeName f) (Namespace f) w of
        (Some err, w7) \<Rightarrow> (Some (Errorf ''setup controller: %w'' [] [err]), shutdown w7)
      | (None, w7) \<Rightarrow>
     (case me_SetupConfigReconciler env (ConfigName f) w7 of
        (Some err, w8) \<Rightarrow> (Some (Errorf ''setup config controller: %w'' [] [err]), shutdown w8)
      | (None, w8) \<Rightarrow> (case me_serve env w8 of (e, w9) \<Rightarrow> (run_result e, shutdown w9)))))"
proof -
  obtain e7 w7 where 7: "me_SetupPolicyReconciler env (NodeName f) (Namespace f) w = (e7, w7)" by fastforce
  obtain e8 w8 where 8: "me_SetupConfigReconciler env (ConfigName f) w7 = (e8, w8)" by fastforce
  obtain r w9 where 9: "me_serve env w8 = (r, w9)" by fastforce
  note d7 = setup_policy [OF assms 7] and d8 = setup_config [OF setup_policy [OF assms 7] 8]
  note d9 = serve [OF d8 9]
  show ?thesis by (cases e7; cases e8) (simp_all add: Let_def 7 8 9 shutdown [OF d7] shutdown [OF d8] shutdown [OF d9])
qed

lemma run_down:
  assumes "down w"
  shows "down (snd (run env f w))"
proof -
  have m: "managed w' \<Longrightarrow> down (me_ovs_Close env (me_StopAll env w'))" for w' by (intro ovs_Close StopAll)
  obtain e1 w1 where 1: "me_MkdirAll env (DriverPluginPath f) 0x1E8 w = (e1, w1)" by fastforce
  obtain e2 w2 where 2: "me_MkdirAll env (CdiRoot f) 0x1E8 w1 = (e2, w2)" by fastforce
  obtain e3 w3 where 3: "me_ovs_New env (OVSRunDir f) w2 = (e3, w3)" by fastforce
  obtain e4 w4 where 4: "me_cdi_New env (CdiRoot f) w3 = (e4, w4)" by fastforce
  obtain e5 w5 where 5: "me_NewManager env w4 = (e5, w5)" by fastforce
  let ?cfg = "\<lparr>drv_NodeName = NodeName f, drv_EnableDeviceMetadata = EnableDeviceMetadata f,
             drv_PluginDataDir = DriverPluginPath f, drv_CdiDir = CdiRoot f, drv_DBPath = DBPath f\<rparr>"
  obtain e6 w6 where 6: "me_driver_New env ?cfg w5 = (e6, w6)" by fastforce
  note d1 = mkdir [OF assms 1] and d2 = mkdir [OF mkdir [OF assms 1] 2]
  note d3 = ovs_New [OF d2 3]
  show ?thesis
  proof (cases "e1 = None \<and> e2 = None \<and> e3 = None \<and> e4 = None \<and> e5 = None \<and> e6 = None")
    case True
    then have "linked w3" using d3 by simp
    from NewManager [OF cdi_New [OF this 4] 5] True have "managed w5" by simp
    from driver_New [OF this 6] True have "driving w6" by simp
    from controllers_down [OF this, of f] True show ?thesis
      by (simp only: run_def 1 2 3 4 5 6 prod.case option.case)
  next
    case False
    show ?thesis
    proof (cases "e1 = None \<and> e2 = None \<and> e3 = None")
      case True
      then have l: "linked w4" using d3 cdi_New [OF _ 4] by simp
      show ?thesis
      proof (cases "e4 = None \<and> e5 = None")
        case t: True
        with False True obtain x where "e6 = Some x" by auto
        moreover have "managed w5" using NewManager [OF l 5] t by simp
        with driver_New [OF this 6] calculation have "managed w6" by simp
        ultimately show ?thesis using m True t by (simp add: run_def 1 2 3 4 5 6)
      next
        case f: False
        show ?thesis
          using NewManager [OF l 5] ovs_Close l f True by (cases e4; cases e5) (auto simp: run_def 1 2 3 4 5)
      qed
    next
      case f: False
      show ?thesis using d1 d2 d3 f by (cases e1; cases e2; cases e3) (auto simp: run_def 1 2 3)
    qed
  qed
qed

end

section \<open>The program's own main environment\<close>

text \<open>
  What differs from one process to the next: which library calls fail, what happens
  between the start of the controllers and the end (\<open>pc_Serve\<close>, with the way it ends), and
  which plugin servers the end of the context stops before \<^verbatim>\<open>StopAll\<close> does. The
  goroutines that the constructors start are taken to run from there on.
\<close>

record ('db, 'c, 's, 'k) process =
  pc_NewCache :: "string list \<Rightarrow> error + unit"
  pc_NewWatcher :: "error option"
  pc_WatcherAdd :: "string \<Rightarrow> error option"
  pc_ContextDone :: "string list"
  pc_MkdirDB :: "string \<Rightarrow> 12 word \<Rightarrow> 's \<Rightarrow> error option \<times> 's"
  pc_Start :: "plugin_option list \<Rightarrow> 's \<Rightarrow> error option \<times> 's"
  pc_CompletePolicy :: "watch controller \<Rightarrow> error option"
  pc_CompleteConfig :: "unit controller \<Rightarrow> error option"
  pc_Serve :: "('db, 'c, 's, 'k) program \<Rightarrow> run_end \<times> ('db, 'c, 's, 'k) program"

definition main_MkdirAll ::
  "('op, 'res, 'db, 'c, 's, 'k, 'v, 'term) platform \<Rightarrow> string \<Rightarrow> 12 word \<Rightarrow> ('db, 'c, 's, 'k) program
   \<Rightarrow> error option \<times> ('db, 'c, 's, 'k) program" where
  "main_MkdirAll P p mode s =
     (case os_MkdirAll (pf_os P) p mode (sf_host (nd_fs (pg_node s))) of
        (e, h) \<Rightarrow> (e, s\<lparr>pg_node := (pg_node s)\<lparr>nd_fs := (nd_fs (pg_node s))\<lparr>sf_host := h\<rparr>\<rparr>\<rparr>))"

text \<open>The wait for OVSDB ends whenever the assumptions below hold.\<close>

definition main_ovs_New ::
  "('op, 'res, 'db, 'c, 's, 'k, 'v, 'term) platform \<Rightarrow> string \<Rightarrow> ('db, 'c, 's, 'k) program
   \<Rightarrow> error option \<times> ('db, 'c, 's, 'k) program" where
  "main_ovs_New P runDir s =
     (case the (ovs_New (pf_boot P) runDir (nd_db (pg_node s))) of
        (Inl err, db) \<Rightarrow> (Some err, s\<lparr>pg_node := (pg_node s)\<lparr>nd_db := db\<rparr>\<rparr>)
      | (Inr c, db) \<Rightarrow> (None, s\<lparr>pg_node := (pg_node s)\<lparr>nd_db := db\<rparr>, pg_client := c\<rparr>))"

definition main_ovs_Close ::
  "('op, 'res, 'db, 'c, 's, 'k, 'v, 'term) platform \<Rightarrow> ('db, 'c, 's, 'k) program \<Rightarrow> ('db, 'c, 's, 'k) program" where
  "main_ovs_Close P s = s\<lparr>pg_node := (pg_node s)\<lparr>nd_db := ovsClient_Close (pf_boot P) (nd_db (pg_node s))\<rparr>\<rparr>"

definition main_NewManager ::
  "('op, 'res, 'db, 'c, 's, 'k, 'v, 'term) platform \<Rightarrow> ('db, 'c, 's, 'k) process \<Rightarrow> ('db, 'c, 's, 'k) program
   \<Rightarrow> error option \<times> ('db, 'c, 's, 'k) program" where
  "main_NewManager P B s =
     (case NewManager (pc_NewWatcher B) (pc_WatcherAdd B) (pf_plugins P) (pg_client s) of
        (Inl err, c, _) \<Rightarrow> (Some err, s\<lparr>pg_client := c\<rparr>)
      | (Inr m, c, _) \<Rightarrow> (None, s\<lparr>pg_client := c, pg_manager := m\<rparr>))"

definition main_StopAll ::
  "('op, 'res, 'db, 'c, 's, 'k, 'v, 'term) platform \<Rightarrow> ('db, 'c, 's, 'k) process \<Rightarrow> ('db, 'c, 's, 'k) program \<Rightarrow> ('db, 'c, 's, 'k) program" where
  "main_StopAll P B s =
     (case StopAll (pf_plugins P) (pf_server_order P (pg_manager s)) (pg_manager s)
             (contexts_done (pc_ContextDone B) (pg_manager s) (pg_host s)) of
        (m, h) \<Rightarrow> s\<lparr>pg_manager := m, pg_host := h\<rparr>)"

text \<open>\<^verbatim>\<open>devicestate.New\<close> and \<^verbatim>\<open>driver.New\<close>; the store that the claim store is opened on is that of the node.\<close>

definition main_driver_New ::
  "('op, 'res, 'db, 'c, 's, 'k, 'v, 'term) platform \<Rightarrow> ('db, 'c, 's, 'k) process \<Rightarrow> driver_Config \<Rightarrow> ('db, 'c, 's, 'k) program
   \<Rightarrow> error option \<times> ('db, 'c, 's, 'k) program" where
  "main_driver_New P B cfg s =
     (case Driver_New (pc_MkdirDB B) (pf_bolt P) (pf_codec P) (pc_Start B (driver_options cfg)) (drv_DBPath cfg) DeviceState_New
             (nd_store (pg_node s)) of
        (r, d, st) \<Rightarrow>
          (case r of Ok _ \<Rightarrow> None | Err err \<Rightarrow> Some err | Panic m \<Rightarrow> Some (External m),
           s\<lparr>pg_node := (pg_node s)\<lparr>nd_store := st\<rparr>, pg_devices := d, pg_worker := Unsynced\<rparr>))"

definition main_driver_Stop ::
  "('op, 'res, 'db, 'c, 's, 'k, 'v, 'term) platform \<Rightarrow> ('db, 'c, 's, 'k) program \<Rightarrow> ('db, 'c, 's, 'k) program" where
  "main_driver_Stop P s = s\<lparr>pg_node := Driver_Stop (\<lambda>w. w) (program_driver P (\<lambda>_ _. pg_devices s)) (pg_node s)\<rparr>"

definition program_main ::
  "('op, 'res, 'db, 'c, 's, 'k, 'v, 'term) platform \<Rightarrow> ('db, 'c, 's, 'k) process \<Rightarrow> ('db, 'c, 's, 'k) program main_env" where
  "program_main P B =
     \<lparr>me_MkdirAll = main_MkdirAll P,
      me_ovs_New = main_ovs_New P, me_ovs_Close = main_ovs_Close P,
      me_cdi_New = (\<lambda>root s. case cdi_New (pc_NewCache B) root of Inl err \<Rightarrow> (Some err, s) | Inr _ \<Rightarrow> (None, s)),
      me_NewManager = main_NewManager P B, me_StopAll = main_StopAll P B,
      me_driver_New = main_driver_New P B, me_driver_Stop = main_driver_Stop P,
      me_SetupPolicyReconciler = (\<lambda>nodeName namespace s.
        case policy_SetupWithManager (\<lambda>ctl u. (pc_CompletePolicy B ctl, u)) (NewOvsDpdkResourcePolicyReconciler nodeName namespace) (pg_client s) () of
          (err, c, _) \<Rightarrow> (err, s\<lparr>pg_client := c\<rparr>)),
      me_SetupConfigReconciler = (\<lambda>configName s.
        (fst (config_SetupWithManager (\<lambda>ctl u. (pc_CompleteConfig B ctl, u)) (NewOvsDpdkConfigReconciler configName) ()), s)),
      me_serve = pc_Serve B\<rparr>"

text \<open>The processes that run on the node one after the other, each with its flags.\<close>

fun lives ::
  "('op, 'res, 'db, 'c, 's, 'k, 'v, 'term) platform \<Rightarrow> (('db, 'c, 's, 'k) process \<times> Flags) list \<Rightarrow> ('db, 'c, 's, 'k) program
   \<Rightarrow> ('db, 'c, 's, 'k) program" where
  "lives P [] s = s"
| "lives P ((B, f) # ps) s = lives P ps (snd (run (program_main P B) f s))"

section \<open>Lemmas on the constructors\<close>

lemma os_MkdirAll_keeps: "os_MkdirAll env p mode h = (e, h') \<Longrightarrow> dir_at h q \<Longrightarrow> dir_at h' q"
  by (auto simp: os_MkdirAll_def make_dirs_def dir_at_def Let_def split: if_splits option.splits)

lemma before_attempt_keeps: "(\<And>n w. Q (snd (ob_Connect b n w)) = Q w) \<Longrightarrow> Q (before_attempt b n w) = Q w"
  by (induction n) simp_all

lemma ovs_New_keeps:
  assumes c: "\<And>n w. Q (snd (ob_Connect b n w)) = Q w" and m: "\<And>w. Q (snd (ob_Monitor b w)) = Q w"
    and d: "\<And>w. Q (ob_Disconnect b w) = Q w" and n: "ovs_New b runDir w = Some (r, w')"
  shows "Q w' = Q w"
proof -
  note ba = before_attempt_keeps [where Q = Q, OF c]
  have l: "Q (snd x) = Q w" if "connect_loop b ep 0 w = Some x" for ep x
  proof -
    from connect_loop_Some [OF that, of w] obtain k where
      "case fst x of None \<Rightarrow> x = ob_Connect b k (before_attempt b k w) | Some err \<Rightarrow> snd x = ob_Disconnect b (before_attempt b (Suc k) w)" by auto
    then show ?thesis using c ba d by (cases "fst x") (simp_all del: before_attempt.simps)
  qed
  have sm: "Q (snd (startMonitor b v)) = Q v" for v
    using m [of v] by (auto simp: startMonitor_def split: prod.split option.split)
  show ?thesis
    using n l sm d unfolding ovs_New_def Let_def
    by (auto split: option.splits prod.splits) (metis snd_conv)+
qed

lemma ovs_New_Some:
  assumes "\<exists>n. attempt_ends b w n"
  shows "\<exists>r. ovs_New b runDir w = Some r"
proof -
  let ?ep = "''unix:'' @ filepath_Join [runDir, ''db.sock'']"
  have "connect_loop b ?ep 0 w \<noteq> None" unfolding connect_loop_returns by (rule assms)
  then obtain e w1 where "connect_loop b ?ep 0 w = Some (e, w1)" by (metis not_None_eq surj_pair)
  then show ?thesis by (simp add: ovs_New_def Let_def split: option.split prod.split)
qed

lemma ovs_New_client: "ovs_New b runDir w = Some (Inr c, w') \<Longrightarrow> c = new_ovsClient"
  by (auto simp: ovs_New_def Let_def split: option.splits prod.splits)

context bolt_store
begin

lemma Driver_New_stored:
  assumes mk: "\<And>p m s. content (snd (mkdirAll p m s)) = content s" and st: "\<And>s. content (snd (start s)) = content s"
    and "Driver_New mkdirAll db codec start dbPath ds s = (r, ds', s')"
  shows "stored_claims codec content s' = stored_claims codec content s"
proof -
  have cl: "stored_claims codec content (snd (preparedClaimStore_Close db x)) = stored_claims codec content x" for x
    using close_content [of x] by (intro stored_content) (auto simp: preparedClaimStore_Close_def split: prod.splits)
  have new: "stored_claims codec content y = stored_claims codec content s" if "preparedClaimStore_New mkdirAll db codec dbPath s = (x, y)" for x y
  proof (cases x)
    case (Ok u)
    with New_restores [OF bolt_store_axioms mk] that show ?thesis by simp
  next
    case (Err e)
    obtain e1 s1 where 1: "mkdirAll (filepath_Dir dbPath) 0x1E8 s = (e1, s1)" by fastforce
    obtain e2 s2 where 2: "bolt_Open db dbPath s1 = (e2, s2)" by fastforce
    obtain e3 s3 where 3: "bolt_Update db (restore_bucket db codec) s2 = (e3, s3)" by fastforce
    have c: "content s1 = content s" "content s2 = content s"
      using mk [of "filepath_Dir dbPath" "0x1E8" s] 1 open_content [OF 2] by simp_all
    have c3: "content (snd (bolt_Close db s3)) = content s" if "e3 = Some x" for x
      using close_content [of s3 "fst (bolt_Close db s3)"] update_err [of _ _ x] 3 that c by simp
    have "content y = content s"
      using that Err 1 2 3 c c3 by (cases e1; cases e2; cases e3) (auto simp: preparedClaimStore_New_def)
    then show ?thesis by (rule stored_content)
  next
    case (Panic m)
    with that show ?thesis by (auto simp: preparedClaimStore_New_def split: prod.splits option.splits)
  qed
  have start: "stored_claims codec content (snd (start x)) = stored_claims codec content x" for x by (rule stored_content) (rule st)
  obtain x s1 where n: "preparedClaimStore_New mkdirAll db codec dbPath s = (x, s1)" by fastforce
  obtain e s2 where t: "start s1 = (e, s2)" by fastforce
  from assms(3) new [OF n] start [of s1] cl [of s2] n t show ?thesis by (cases x; cases e) (auto simp: Driver_New_def)
qed

end

section \<open>Every stage keeps the claims\<close>

locale program_process = program_platform P calls tables cspecs shape content C nodeName cs
  for P :: "('op, 'res, 'db, 'c, 's, 'k, 'v, 'term) platform" and calls :: "'op list \<Rightarrow> ovs_call list" and tables :: "'db \<Rightarrow> ovs_tables"
    and cspecs :: "'c \<Rightarrow> string \<rightharpoonup> Spec" and shape :: "('db, 'c, 's, 'k) node itself" and content :: "'s \<Rightarrow> string \<rightharpoonup> (string \<rightharpoonup> 'v)"
    and C :: "ResourceClaim set" and nodeName :: string and cs :: "string list" +
  fixes B :: "('db, 'c, 's, 'k) process"
  assumes connects: "\<exists>n. attempt_ends (pf_boot P) db n"
    and connect_tables: "tables (snd (ob_Connect (pf_boot P) n db)) = tables db"
    and monitor_tables: "tables (snd (ob_Monitor (pf_boot P) db)) = tables db"
    and disconnect_tables: "tables (ob_Disconnect (pf_boot P) db) = tables db"
    and mkdir_content: "content (snd (pc_MkdirDB B p mode st)) = content st"
    and start_content: "content (snd (pc_Start B opts st)) = content st"
    and serves: "(program_step P tables cspecs content C nodeName)\<^sup>*\<^sup>* s (snd (pc_Serve B s))"
begin

abbreviation stage_down :: "('db, 'c, 's, 'k) program \<Rightarrow> bool" where
  "stage_down s \<equiv> claims_ok s \<and> serving (pg_host s) = {}"
abbreviation stage_linked :: "('db, 'c, 's, 'k) program \<Rightarrow> bool" where
  "stage_linked s \<equiv> stage_down s \<and> ovs_reachable (pf_readFile P) (pf_ovs P) (pg_client s, nd_db (pg_node s))"
abbreviation stage_managed :: "('db, 'c, 's, 'k) program \<Rightarrow> bool" where
  "stage_managed s \<equiv> claims_ok s \<and> numa_ok s"

lemma claims_db:
  "claims_ok s \<Longrightarrow> tables db' = tables (nd_db (pg_node s)) \<Longrightarrow> pg_node s' = (pg_node s)\<lparr>nd_db := db'\<rparr> \<Longrightarrow> pg_failed s' = pg_failed s
   \<Longrightarrow> claims_ok s'"
  by (rule claims_spared) (auto intro!: spares_parts)

lemma claims_store:
  "claims_ok s \<Longrightarrow> stored_claims (pf_codec P) content st = stored_claims (pf_codec P) content (nd_store (pg_node s)) \<Longrightarrow>
   pg_node s' = (pg_node s)\<lparr>nd_store := st\<rparr> \<Longrightarrow> pg_failed s' = pg_failed s \<Longrightarrow> claims_ok s'"
  by (rule claims_spared) (auto intro!: spares_parts)

lemma stage_mkdir: "stage_down s \<Longrightarrow> main_MkdirAll P p mode s = (e, s') \<Longrightarrow> stage_down s'"
  by (auto simp: main_MkdirAll_def intro!: claims_spared [where s = s] spares_parts dest: os_MkdirAll_keeps split: prod.splits)

lemma stage_ovs_New:
  assumes "stage_down s" and "main_ovs_New P runDir s = (e, s')"
  shows "if e = None then stage_linked s' else stage_down s'"
proof -
  obtain r db' where n: "ovs_New (pf_boot P) runDir (nd_db (pg_node s)) = Some (r, db')"
    using ovs_New_Some [OF connects] by (metis surj_pair)
  have t: "tables db' = tables (nd_db (pg_node s))"
    by (rule ovs_New_keeps [where Q = tables, OF connect_tables monitor_tables disconnect_tables n])
  have down: "stage_down s'"
  proof
    show "claims_ok s'" using assms n t by (intro claims_db [of s db' s']) (auto simp: main_ovs_New_def split: sum.splits)
    show "serving (pg_host s') = {}" using assms n by (auto simp: main_ovs_New_def split: sum.splits)
  qed
  show ?thesis
  proof (cases r)
    case (Inl err)
    with assms(2) n down show ?thesis by (auto simp: main_ovs_New_def)
  next
    case (Inr c)
    with ovs_New_client n have "c = new_ovsClient" by fastforce
    with Inr assms(2) n down show ?thesis by (auto simp: main_ovs_New_def intro: ovs_start)
  qed
qed

lemma stage_NewManager:
  assumes "stage_linked s" and "main_NewManager P B s = (e, s')"
  shows "if e = None then stage_managed s' else stage_linked s'"
proof -
  let ?c = "SetInterfaceNotifier True (pg_client s)"
  have r: "ovs_reachable (pf_readFile P) (pf_ovs P) (pg_client s, nd_db (pg_node s))" using assms(1) by simp
  have set: "ovs_reachable (pf_readFile P) (pf_ovs P) (SetInterfaceNotifier f (pg_client s), nd_db (pg_node s))" for f
    using ovs_next [OF r notifiers_set [where f = "bridgeNotifier (pg_client s)" and g = f]]
    by (simp add: SetBridgeNotifier_def SetInterfaceNotifier_def)
  have ff: "SetInterfaceNotifier False (SetInterfaceNotifier True c) = SetInterfaceNotifier False c" for c by (simp add: SetInterfaceNotifier_def)
  consider (ok) "e = None" "s' = s\<lparr>pg_client := ?c, pg_manager := new_Manager\<rparr>"
    | (failed) x where "e = Some x" "s' = s\<lparr>pg_client := SetInterfaceNotifier False (pg_client s)\<rparr>"
    using assms(2) by (auto simp: main_NewManager_def NewManager_def Let_def ff split: prod.splits option.splits)
  then show ?thesis
  proof cases
    case ok
    have "numa_ok s'" using assms(1) r ok(2) by (intro ns_start [of _ _ "pg_client s"]) simp_all
    with ok assms(1) show ?thesis by simp
  qed (use assms(1) set in simp)
qed

lemma stage_driver_New:
  assumes "stage_managed s" and "main_driver_New P B cfg s = (e, s')"
  shows "if e = None then program_inv s' else stage_managed s'"
proof -
  obtain r d st where n: "Driver_New (pc_MkdirDB B) (pf_bolt P) (pf_codec P) (pc_Start B (driver_options cfg)) (drv_DBPath cfg) DeviceState_New
      (nd_store (pg_node s)) = (r, d, st)" by (metis prod_cases3)
  have s': "s' = s\<lparr>pg_node := (pg_node s)\<lparr>nd_store := st\<rparr>, pg_devices := d, pg_worker := Unsynced\<rparr>"
    and e: "e = None \<longleftrightarrow> (\<exists>u. r = Ok u)" using assms(2) n by (auto simp: main_driver_New_def split: res.splits)
  have "stored_claims (pf_codec P) content st = stored_claims (pf_codec P) content (nd_store (pg_node s))"
    by (rule stack.db.Driver_New_stored [OF mkdir_content start_content n])
  then have c: "claims_ok s'" using assms(1) by (intro claims_store [of s st s']) (simp_all add: s')
  have m: "numa_ok s'" using assms(1) by (simp add: s' numa_part_def)
  have "d = SetRepublishCallback True DeviceState_New" if "r = Ok u" for u
    using n that by (auto simp: Driver_New_def split: res.splits prod.splits option.splits)
  with c m e show ?thesis
    using ds_inv_New by (auto simp: program_inv_def agreement_def s' SetRepublishCallback_def ds_inv_def)
qed

lemma stage_setup:
  assumes "program_inv s"
  shows "program_inv (s\<lparr>pg_client := SetBridgeNotifier f (pg_client s)\<rparr>)"
proof -
  have "numa_ok s" using assms by (simp add: program_inv_def)
  from ns_next [OF this bridge_notifier_set [of _ _ _ _ "numa_part s" f]] assms show ?thesis
    by (simp add: program_inv_def numa_part_def agreement_def topology_agrees_def cong: policy_worker.case_cong)
qed

lemma stage_driver_Stop:
  assumes "program_inv s"
  shows "stage_managed (main_driver_Stop P s)"
proof -
  obtain u st where c: "preparedClaimStore_Close (pf_bolt P) (nd_store (pg_node s)) = (u, st)" by fastforce
  then have "content st = content (nd_store (pg_node s))"
    using stack.db.close_content by (auto simp: preparedClaimStore_Close_def split: prod.splits)
  then have "stored_claims (pf_codec P) content st = stored_claims (pf_codec P) content (nd_store (pg_node s))"
    by (rule stack.db.stored_content)
  moreover have n: "pg_node (main_driver_Stop P s) = (pg_node s)\<lparr>nd_store := st\<rparr>"
    using c by (simp add: main_driver_Stop_def Driver_Stop_def program_driver_def node_driver_def on_store_def)
  moreover have "claims_ok s" "pg_failed (main_driver_Stop P s) = pg_failed s"
    using assms by (simp_all add: program_inv_def main_driver_Stop_def)
  ultimately have "claims_ok (main_driver_Stop P s)" using claims_store [OF _ _ n] by blast
  moreover have "numa_part (main_driver_Stop P s) = numa_part s" using n by (simp add: numa_part_def main_driver_Stop_def)
  ultimately show ?thesis using assms by (simp add: program_inv_def)
qed

lemma stage_StopAll:
  assumes "stage_managed s"
  shows "stage_linked (main_StopAll P B s)"
proof -
  obtain m h where st: "StopAll (pf_plugins P) (pf_server_order P (pg_manager s)) (pg_manager s)
      (contexts_done (pc_ContextDone B) (pg_manager s) (pg_host s)) = (m, h)" by fastforce
  have "range_order (servers (pg_manager s)) (pf_server_order P (pg_manager s))"
    using numa_orders [of s "[]"] assms by (simp add: update_orders_def)
  from StopAll_after_context [OF numa_mgr_inv this st] assms have "serving h = {}" by simp
  moreover have "ovs_reachable (pf_readFile P) (pf_ovs P) (pg_client s, nd_db (pg_node s))"
    using ns_reachable_client [OF conjunct2 [OF assms]] by simp
  ultimately show ?thesis using assms st by (simp add: main_StopAll_def)
qed

lemma stage_Close: "stage_linked s \<Longrightarrow> stage_down (main_ovs_Close P s)"
  using claims_db [of s "ovsClient_Close (pf_boot P) (nd_db (pg_node s))" "main_ovs_Close P s"]
  by (simp add: main_ovs_Close_def ovsClient_Close_def disconnect_tables)

end

sublocale program_process \<subseteq> stages: main_stages "program_main P B" stage_down stage_linked stage_managed program_inv
proof (unfold_locales, goal_cases)
  case (1 w p mode e w')
  from stage_mkdir [OF 1(1)] 1(2) show ?case by (simp add: program_main_def)
next
  case (2 w runDir e w')
  from stage_ovs_New [OF 2(1)] 2(2) show ?case by (simp add: program_main_def)
next
  case (3 w root e w')
  then have "w' = w" by (auto simp: program_main_def split: sum.splits)
  with 3(1) show ?case by simp
next
  case (4 w e w')
  from stage_NewManager [OF 4(1)] 4(2) show ?case by (simp add: program_main_def)
next
  case (5 w cfg e w')
  from stage_driver_New [OF 5(1)] 5(2) show ?case by (simp add: program_main_def)
next
  case (6 w n ns e w')
  then have "w' = w\<lparr>pg_client := SetBridgeNotifier True (pg_client w)\<rparr>"
    by (simp add: program_main_def policy_SetupWithManager_def Let_def)
  with stage_setup [OF 6(1)] show ?case by simp
next
  case (7 w n e w')
  then show ?case by (simp add: program_main_def)
next
  case (8 w r w')
  from steps_inv [OF serves 8(1)] 8(2) show ?case by (simp add: program_main_def)
next
  case (9 w)
  from stage_driver_Stop [OF 9] show ?case by (simp add: program_main_def)
next
  case (10 w)
  from stage_StopAll [OF 10] show ?case by (simp add: program_main_def)
next
  case (11 w)
  from stage_Close [OF 11] show ?case by (simp add: program_main_def)
qed

context program_process
begin

lemma run_keeps: "claims_ok s \<Longrightarrow> serving (pg_host s) = {} \<Longrightarrow>
  claims_ok (snd (run (program_main P B) f s)) \<and> serving (pg_host (snd (run (program_main P B) f s))) = {}"
  using stages.run_down by blast

text \<open>Only the kubelet's calls change the checkpoints: starting and stopping does not.\<close>

abbreviation checkpoints :: "('db, 'c, 's, 'k) program \<Rightarrow> (string \<rightharpoonup> PreparedDevice list) \<times> string set" where
  "checkpoints s \<equiv> (stored_claims (pf_codec P) content (nd_store (pg_node s)), pg_failed s)"

lemma run_stored:
  assumes "\<And>s. nd_store (pg_node (snd (pc_Serve B s))) = nd_store (pg_node s)" and "\<And>s. pg_failed (snd (pc_Serve B s)) = pg_failed s"
  shows "checkpoints (snd (run (program_main P B) f s)) = checkpoints s"
proof -
  have stop: "checkpoints (main_driver_Stop P w) = checkpoints w" for w
  proof -
    obtain u st where c: "bolt_Close (pf_bolt P) (nd_store (pg_node w)) = (u, st)" by fastforce
    have "nd_store (pg_node (main_driver_Stop P w)) = st"
      using c by (simp add: main_driver_Stop_def Driver_Stop_def program_driver_def node_driver_def on_store_def preparedClaimStore_Close_def)
    with stack.db.stored_content [OF stack.db.close_content [OF c]] show ?thesis by (simp add: main_driver_Stop_def)
  qed
  have new: "checkpoints w' = checkpoints w" if "main_driver_New P B cfg w = (e, w')" for cfg e w w'
    using that stack.db.Driver_New_stored [OF mkdir_content start_content] by (auto simp: main_driver_New_def split: prod.splits)
  define q where "q = checkpoints"
  have frame: "q w = q s \<Longrightarrow> nd_store (pg_node w') = nd_store (pg_node w) \<Longrightarrow> pg_failed w' = pg_failed w \<Longrightarrow> q w' = q s" for w w'
    by (simp add: q_def)
  have "main_stages (program_main P B) (\<lambda>w. q w = q s) (\<lambda>w. q w = q s) (\<lambda>w. q w = q s) (\<lambda>w. q w = q s)"
  proof (unfold_locales, goal_cases)
    case (5 w cfg e w')
    then show ?case using new [of cfg w e w'] by (simp add: program_main_def q_def)
  next
    case (8 w r w')
    then show ?case using assms(1) [of w] assms(2) [of w] by (intro frame [of w w']) (auto simp: program_main_def)
  next
    case (9 w)
    then show ?case using stop [of w] by (simp add: program_main_def q_def)
  qed (auto simp: program_main_def main_MkdirAll_def main_ovs_New_def main_NewManager_def main_StopAll_def main_ovs_Close_def
      policy_SetupWithManager_def Let_def intro: frame split: prod.splits sum.splits)
  from main_stages.run_down [OF this, of s] show ?thesis by (simp add: q_def)
qed

end

lemma lives_keep:
  assumes "list_all (\<lambda>(B, f). program_process P calls tables cspecs content C (NodeName f) cs B) ps"
    and "claim_reachable (program_driver P) tables cspecs (pf_cdi P) (pf_codec P) content C (pg_node s, pg_failed s)" and "serving (pg_host s) = {}"
  shows "claim_reachable (program_driver P) tables cspecs (pf_cdi P) (pf_codec P) content C (pg_node (lives P ps s), pg_failed (lives P ps s))
    \<and> serving (pg_host (lives P ps s)) = {}"
  using assms
proof (induction ps arbitrary: s)
  case (Cons x ps)
  obtain B f where x: "x = (B, f)" by fastforce
  from Cons.prems(1) have p: "program_process P calls tables cspecs content C (NodeName f) cs B"
    and ps: "list_all (\<lambda>(B, f). program_process P calls tables cspecs content C (NodeName f) cs B) ps" by (simp_all add: x)
  from program_process.run_keeps [OF p Cons.prems(2,3), of f] Cons.IH [OF ps] show ?case by (simp add: x)
qed simp

text \<open>
  C13. From process to process: any number of processes run on the node one after the other,
  each of them \<^verbatim>\<open>run\<close> from the creation of the directories to the last deferred call, with
  failures of any constructor and any interleaving while it serves. When the last of them
  has ended, no plugin socket is served any more, and every claim that some process has checkpointed
  and none has unprepared still has all its devices in place, as long as no attempt to
  unprepare it has failed: neither the end of a process nor the start of the next disturbs
  the pods that use the ports.
\<close>

theorem claims_survive_processes:
  assumes "program_platform P calls tables cspecs content C cs"
    and "list_all (\<lambda>(B, f). program_process P calls tables cspecs content C (NodeName f) cs B) ps"
    and "claim_reachable (program_driver P) tables cspecs (pf_cdi P) (pf_codec P) content C (pg_node s, pg_failed s)" and "serving (pg_host s) = {}"
  shows "serving (pg_host (lives P ps s)) = {}
    \<and> (\<forall>u pds. has_checkpoint (pf_codec P) content (pg_node (lives P ps s)) u pds \<longrightarrow>
         u \<in> pg_failed (lives P ps s) \<or> in_place tables cspecs (pf_cdi P) u pds (pg_node (lives P ps s)))"
  using lives_keep [OF assms(2-4)] program_platform.claims_in_place [OF assms(1)] by blast

section \<open>Two processes\<close>

text \<open>A process that starts without an error and then has nothing to do.\<close>

definition idle_process :: "('db, 'c, 's, 'k) process" where
  "idle_process =
     \<lparr>pc_NewCache = (\<lambda>_. Inr ()), pc_NewWatcher = None, pc_WatcherAdd = (\<lambda>_. None), pc_ContextDone = [], pc_MkdirDB = (\<lambda>p mode st. (None, st)),
      pc_Start = (\<lambda>opts st. (None, st)), pc_CompletePolicy = (\<lambda>_. None), pc_CompleteConfig = (\<lambda>_. None), pc_Serve = (\<lambda>s. (ContextCancelled, s))\<rparr>"

interpretation idle: program_process sample_platform "\<lambda>cs. cs" "\<lambda>T. T" "\<lambda>m. m" shape mem_content "set two_claims" nodeName
    "[''var'', ''lib'', ''kubelet'', ''device-plugins'']" idle_process
  for shape :: "(ovs_tables, string \<rightharpoonup> Spec, mem_bolt, api_event list) node itself" and nodeName
  by unfold_locales (auto simp: sample_platform_def ready_ovsdb_def idle_process_def attempt_ends_def)

text \<open>The claim of the sample run is checkpointed before the first of two such processes starts.\<close>

theorem claims_survive_processes_witness:
  "\<exists>s pds. let ps = [(idle_process, default_Flags ''node1''), (idle_process, default_Flags ''node1'')];
                s' = lives sample_platform ps s
     in has_checkpoint (pf_codec sample_platform) mem_content (pg_node s') ''0123-4567-89ab'' pds
       \<and> in_place (\<lambda>T. T) (\<lambda>m. m) (pf_cdi sample_platform) ''0123-4567-89ab'' pds (pg_node s') \<and> serving (pg_host s') = {}"
proof -
  let ?f = "default_Flags ''node1''" 
  let ?ps = "[(idle_process, ?f), (idle_process, ?f)]"
  obtain r w pds where p: "PrepareResourceClaims (program_driver sample_platform (\<lambda>_ _. sample_state)) sample_claims stack_node = (r, w)"
    and c: "set sample_claims \<subseteq> set two_claims" and h: "has_checkpoint (pf_codec sample_platform) mem_content w ''0123-4567-89ab'' pds"
    by (rule sample_prepare)
  let ?s = "sample_program\<lparr>pg_node := w\<rparr>"
  have serve: "pc_Serve idle_process s = (ContextCancelled, s)" for s :: "(ovs_tables, string \<rightharpoonup> Spec, mem_bolt, api_event list) program"
    by (simp add: idle_process_def)
  have one: "idle.checkpoints (snd (run (program_main sample_platform idle_process) ?f s)) = idle.checkpoints s" for s
    by (rule idle.run_stored) (simp_all add: serve)
  have st: "idle.checkpoints (lives sample_platform ?ps ?s) = idle.checkpoints ?s"
    unfolding lives.simps by (rule trans [OF one one])
  have ok: "claim_reachable (program_driver sample_platform) (\<lambda>T. T) (\<lambda>m. m) (pf_cdi sample_platform) (pf_codec sample_platform) mem_content
     (set two_claims) (pg_node ?s, pg_failed ?s)"
    using claim_next [OF sample_claim_start prepare_called [of _ _ "program_driver sample_platform", OF c p]] by (simp add: sample_program_def)
  have l: "list_all (\<lambda>(B, f). program_process sample_platform (\<lambda>cs. cs) (\<lambda>T. T) (\<lambda>m. m) mem_content (set two_claims) (NodeName f)
      [''var'', ''lib'', ''kubelet'', ''device-plugins''] B) ?ps" using idle.program_process_axioms by simp
  have e: "serving (pg_host ?s) = {}" by (simp add: sample_program_def fresh_host_def)
  note all = claims_survive_processes [OF sample.program_platform_axioms l ok e]
  have "pg_failed (lives sample_platform ?ps ?s) = {}" using st by (simp add: sample_program_def)
  moreover have "has_checkpoint (pf_codec sample_platform) mem_content (pg_node (lives sample_platform ?ps ?s)) ''0123-4567-89ab'' pds"
    using st h by (simp add: has_checkpoint_def)
  ultimately show ?thesis using all unfolding Let_def by blast
qed

text \<open>A flag that nothing reads: the registrar directory does not reach the kubelet plugin.\<close>

theorem registrar_path_ignored:
  "run env (f\<lparr>KubeletRegistrarDirectoryPath := p\<rparr>) w = run env f w"
proof -
  let ?g = "f\<lparr>KubeletRegistrarDirectoryPath := p\<rparr>"
  have "NodeName ?g = NodeName f" "Namespace ?g = Namespace f" "ConfigName ?g = ConfigName f" "CdiRoot ?g = CdiRoot f" "DBPath ?g = DBPath f"
    "OVSRunDir ?g = OVSRunDir f" "EnableDeviceMetadata ?g = EnableDeviceMetadata f" "DriverPluginPath ?g = DriverPluginPath f"
    by (simp_all add: DriverPluginPath_def)
  then show ?thesis unfolding run_def by presburger
qed

end
