(* ===== verification/Restart.thy ===== *)
theory Restart
  imports DriverNode
begin

text \<open>
  What a restart of the process finds: OVS, the directories and the database are as the old
  process left them at the moment it ended. Claims that had been checkpointed are
  answered from the store that \<^verbatim>\<open>New\<close> opens (\<^verbatim>\<open>pkg/driver/driver.go\<close>, \<^verbatim>\<open>pkg/claimstore\<close>); a claim
  whose preparation was complete but not yet checkpointed (\<^verbatim>\<open>pkg/driver/server.go\<close>) is not.
\<close>

section \<open>Checkpointed claims\<close>

lemma Driver_New_restores:
  assumes "bolt_store db codec content" and "\<And>p m s. content (snd (mkdirAll p m s)) = content s" and "\<And>s. content (snd (start s)) = content s"
    and "Driver_New mkdirAll db codec start dbPath ds s = (Ok (), ds', s')"
  shows "stored_claims codec content s' = stored_claims codec content s" and "republishCallback ds'"
proof -
  obtain s1 where n: "preparedClaimStore_New mkdirAll db codec dbPath s = (Ok (), s1)" and s: "start s1 = (None, s')"
    and "ds' = SetRepublishCallback True ds"
    using assms(4) by (auto simp: Driver_New_def split: res.splits prod.splits option.splits)
  then show "republishCallback ds'" by (simp add: SetRepublishCallback_def)
  have "content s' = content s1" using assms(3) [of s1] s by simp
  with New_restores [OF assms(1,2) n] show "stored_claims codec content s' = stored_claims codec content s"
    by (simp add: stored_claims_def fun_eq_iff)
qed

text \<open>
  C11. A restart loses no checkpointed claim: when the process ends at any moment and a new one
  opens the database that the old one left, then, whatever else has changed on the node,
  \<^verbatim>\<open>PrepareResourceClaims\<close> for claims that had a checkpoint answers the devices of the
  checkpoint, makes nothing and changes nothing, as long as the store can be read; and
  changes of the policies are published again.
\<close>

theorem restart_answers_from_checkpoints:
  assumes stack: "driver_stack db codec content backoff"
    and dirs: "\<And>p m s. content (snd (mkdirAll p m s)) = content s" and start: "\<And>s. content (snd (start s)) = content s"
    and before: "list_all (\<lambda>c. has_checkpoint codec content w (rc_UID c) (pds (rc_UID c))) claims"
    and ended: "content s = content (nd_store w)"
    and new: "Driver_New mkdirAll db codec start dbPath ds s = (Ok (), ds', s')"
    and after: "nd_store w' = s'" and readable: "list_all (\<lambda>c. \<exists>x. preparedClaimStore_Get db codec (rc_UID c) s' = Ok x) claims"
  shows "republishCallback ds' \<and>
    PrepareResourceClaims (node_driver bk db codec client backoff obs) claims w' =
      (Ok (\<lambda>u. if u \<in> rc_UID ` set claims then Some (preparedDevicesToResult (pds u)) else None, None), w')"
proof -
  have b: "bolt_store db codec content" using stack by (simp add: driver_stack_def)
  note r = Driver_New_restores [OF b dirs start new]
  have "stored_claims codec content s = stored_claims codec content (nd_store w)"
    using ended by (simp add: stored_claims_def fun_eq_iff)
  with r(1) have st: "stored_claims codec content s' = stored_claims codec content (nd_store w)" by simp
  have "list_all (\<lambda>c. \<exists>x. preparedClaimStore_Get db codec (rc_UID c) (nd_store w') = Ok x \<and> x \<noteq> []
      \<and> Some (preparedDevicesToResult (pds (rc_UID c))) = Some (preparedDevicesToResult x)) claims"
    unfolding list_all_iff after
  proof
    fix c assume c: "c \<in> set claims"
    obtain x where x: "preparedClaimStore_Get db codec (rc_UID c) s' = Ok x" using readable c by (auto simp: list_all_iff)
    have "has_checkpoint codec content w (rc_UID c) (pds (rc_UID c))" using before c by (simp add: list_all_iff)
    with bolt_store.Get_ok [OF b x] have "x = pds (rc_UID c)" "x \<noteq> []" by (simp_all add: has_checkpoint_def st)
    with x show "\<exists>x. preparedClaimStore_Get db codec (rc_UID c) s' = Ok x \<and> x \<noteq> []
      \<and> Some (preparedDevicesToResult (pds (rc_UID c))) = Some (preparedDevicesToResult x)" by blast
  qed
  from driver_stack.cached_claims [OF stack, where res = "\<lambda>u. Some (preparedDevicesToResult (pds u))", OF this, of bk client obs Map.empty] r(2)
  show ?thesis by (simp add: PrepareResourceClaims_def)
qed

section \<open>A name that is taken\<close>

text \<open>Port names are unique in OVSDB: a transaction that would attach a second port of a name cannot commit.\<close>

lemma gc_ports: "t_ports (gc T) = filter (\<lambda>p. list_ex (\<lambda>z. port_UUID p \<in> set (br_Ports z)) (t_bridges T)) (t_ports T)"
  by (simp add: gc_def Let_def)

lemma created_ports:
  assumes f: "f = (\<lambda>z :: Bridge. if br_Name z = b
    then z\<lparr>br_Ports := mutate_set MutateOperationInsert (map \<sigma> [''newport'']) (br_Ports z)\<rparr> else z)"
    and q: "q = (new_port n ps)\<lparr>port_UUID := \<sigma> ''newport'', port_Interfaces := map \<sigma> (port_Interfaces (new_port n ps))\<rparr>"
  shows "t_ports (gc (fold (apply_call \<sigma>) (create_calls b n s ps) T)) =
    filter (\<lambda>p. list_ex (\<lambda>z. port_UUID p \<in> set (br_Ports (f z))) (t_bridges T)) (t_ports T @ [q])"
proof -
  have m: "list_ex P (map f xs) = list_ex (\<lambda>x. P (f x)) xs" for P xs by (simp add: list_ex_iff)
  have "port_UUID (new_port n ps) = ''newport''" by (simp add: new_port_def)
  then have "t_ports (fold (apply_call \<sigma>) (create_calls b n s ps) T) = t_ports T @ [q]" unfolding q by simp
  moreover have "t_bridges (fold (apply_call \<sigma>) (create_calls b n s ps) T) = map f (t_bridges T)" unfolding f by simp
  ultimately show ?thesis by (simp only: gc_ports m)
qed

lemma committed_name_taken:
  assumes wf: "wf_tables T" and b: "has_bridge T b" and taken: "(b', n) \<in> attached_ports T"
    and c: "committed (create_calls b n s ps) T T'"
  shows "\<not> wf_tables T'"
proof
  assume wf': "wf_tables T'"
  from c obtain \<sigma> where fresh: "\<sigma> ''newport'' \<notin> port_UUID ` set (t_ports T)"
    and T': "T' = gc (fold (apply_call \<sigma>) (create_calls b n s ps) T)"
    by (auto simp: committed_def fresh_naming_def new_iface_def new_port_def)
  define q where "q = (new_port n ps)\<lparr>port_UUID := \<sigma> ''newport'', port_Interfaces := map \<sigma> (port_Interfaces (new_port n ps))\<rparr>"
  have q: "port_UUID q = \<sigma> ''newport''" "port_Name q = n" by (simp_all add: q_def new_port_def)
  obtain x p where x: "x \<in> set (t_bridges T)" and p: "p \<in> set (t_ports T)" "port_Name p = n" "port_UUID p \<in> set (br_Ports x)"
    using taken by (auto simp: attached_ports_def)
  obtain y where y: "y \<in> set (t_bridges T)" "br_Name y = b" using b by (auto simp: has_bridge_def)
  define f where "f = (\<lambda>z :: Bridge. if br_Name z = b
    then z\<lparr>br_Ports := mutate_set MutateOperationInsert (map \<sigma> [''newport'']) (br_Ports z)\<rparr> else z)"
  have ports: "t_ports T' = filter (\<lambda>p. list_ex (\<lambda>z. port_UUID p \<in> set (br_Ports (f z))) (t_bridges T)) (t_ports T @ [q])"
    unfolding T' by (rule created_ports [OF f_def q_def])
  have "port_UUID p \<in> set (br_Ports (f x))" using p(3) by (simp add: f_def)
  with p(1) x have "p \<in> set (t_ports T')" unfolding ports by (auto simp: list_ex_iff)
  moreover have "port_UUID q \<in> set (br_Ports (f y))" using y(2) by (simp add: f_def q(1))
  with y(1) have "q \<in> set (t_ports T')" unfolding ports by (auto simp: list_ex_iff)
  ultimately have "p = q" using wf_port_unique [OF wf'] p(2) q(2) by metis
  with fresh p(1) q(1) show False by (metis imageI)
qed

context ovsdb_server
begin

lemma CreatePort_taken:
  assumes wf: "wf_tables (tables db)" and b: "has_bridge (tables db) b" and taken: "(b', n) \<in> attached_ports (tables db)"
    and c: "ovsClient_CreatePort lib b n s ps db = (r, db')"
  shows "\<exists>e. r = Err e \<and> tables db' = tables db"
  using c
proof (cases rule: CreatePort_cases)
  case (lost ops e e')
  have "\<not> committed (calls ops) (tables db) (tables db')"
    using committed_name_taken [OF wf b taken] schema [OF wf lost(2)] lost(1) by metis
  with broken [OF lost(2)] lost(3) show ?thesis by simp
next
  case (applied ops res)
  from commit [OF applied(2,3)] committed_name_taken [OF wf b taken] schema [OF wf applied(2)] applied(1) show ?thesis by metis
qed (auto dest: abort)

end

context driver_node
begin

lemma prepareDevice_taken:
  fixes w :: "('db, 'c, 's, 'k) node"
  assumes wf: "wf_tables (tables (nd_db w))" and b: "has_bridge (tables (nd_db w)) (dr_Device r)"
    and taken: "(b', port_name claim r) \<in> attached_ports (tables (nd_db w))"
  shows "prepareDevice (node_backend env lib cdi) d1 d2 d3 claim r pc w \<noteq> (Ok pd, w')"
proof
  assume "prepareDevice (node_backend env lib cdi) d1 d2 d3 claim r pc w = (Ok pd, w')"
  then obtain w1 s ps where
    d: "CreateSocketDir (bk_socketFS (node_backend env lib cdi)) (claim_dir claim r) (vhostUserConfig d3) w = (Ok (), w1)" and
    p: "CreatePort (bk_ovsClient (node_backend env lib cdi)) (dr_Device r) (port_name claim r) s ps w1 = (Ok (), w')"
    by (cases rule: node.prepareDevice_cases) auto
  have "nd_db w1 = nd_db w" using d by (auto simp: on_iff)
  moreover from p obtain x where "ovsClient_CreatePort lib (dr_Device r) (port_name claim r) s ps (nd_db w1) = (Ok (), x)" by (auto simp: on_iff)
  ultimately show False using db.CreatePort_taken [OF wf b taken] by fastforce
qed

lemma run_taken:
  assumes "prep_run (node_backend env lib cdi) obs cfgs i rs claim w pds claim' (w' :: ('db, 'c, 's, 'k) node)"
    and "wf_tables (tables (nd_db w))" and "r \<in> set (own_results rs)" and "has_bridge (tables (nd_db w)) (dr_Device r)"
    and "(b', port_name claim r) \<in> attached_ports (tables (nd_db w))"
  shows False
  using assms
proof (induction rule: prep_run.induct)
  case (run_device r1 i claim w pd w1 rs pds claim' w')
  note e = node.prepareDevice_effect [OF run_device(5,2)]
  show ?case
  proof (cases "r = r1")
    case True
    with prepareDevice_taken [OF run_device(5)] run_device(2,7,8) show ?thesis by metis
  next
    case False
    have "attached_ports (tables (nd_db w)) \<subseteq> attached_ports (tables (nd_db w1))" using e(6) [OF refl] by auto
    with run_device e(1,2) False show ?thesis by (auto simp: own_results_def)
  qed
qed (auto simp: own_results_def)

text \<open>A second preparation of a claim whose ports are there.\<close>

lemma prepare_again_fails:
  fixes w w2 :: "('db, 'c, 's, 'k) node"
  assumes wf: "wf_tables (tables (nd_db w))" and p: "PrepareResourceClaim (node_backend env lib cdi) obs claim w = (Ok pds, claim1, w1)"
    and pd: "pd \<in> set pds" and wf2: "wf_tables (tables (nd_db w2))" and there: "port_key pd \<in> attached_ports (tables (nd_db w2))"
  shows "PrepareResourceClaim (node_backend env lib cdi) obs2 claim w2 \<noteq> (Ok pds2, claim2, w3)"
proof
  assume p2: "PrepareResourceClaim (node_backend env lib cdi) obs2 claim w2 = (Ok pds2, claim2, w3)"
  obtain al cfgs where al: "rc_Allocation claim = Some al" and c: "parseClaimConfigs (al_Config al) = Inr cfgs"
    using node.PrepareResourceClaim_ok [OF wf p] by metis
  note s = node.prepare_success [OF wf p al c]
  obtain j where j: "j < length pds" "pds ! j = pd" using pd by (auto simp: in_set_conv_nth)
  define r where "r = own_results (al_Results al) ! j"
  have r: "r \<in> set (own_results (al_Results al))" "describes (bk_cdi (node_backend env lib cdi)) claim cfgs r pd"
    using list_all2_nthD2 [OF s(2) j(1)] list_all2_lengthD [OF s(2)] j by (simp_all add: r_def)
  have t2: "(dr_Device r, port_name claim r) \<in> attached_ports (tables (nd_db w2))" using there r(2) by (simp add: describes_def)
  then have b2: "has_bridge (tables (nd_db w2)) (dr_Device r)" by (auto simp: attached_ports_def has_bridge_def)
  obtain al2 cfgs2 v where "rc_Allocation claim = Some al2" "prep_run (node_backend env lib cdi) obs2 cfgs2 0 (al_Results al2) claim w2 pds2 claim2 v"
    using node.PrepareResourceClaim_ok [OF wf2 p2] by metis
  with al r(1) show False using run_taken [OF _ wf2 _ b2 t2] by auto
qed

end

context driver_node
begin

lemma prepared_attached:
  fixes w :: "('db, 'c, 's, 'k) node"
  assumes wf: "wf_tables (tables (nd_db w))" and p: "PrepareResourceClaim (node_backend env lib cdi) obs claim w = (Ok pds, claim1, w1)"
    and pd: "pd \<in> set pds" "has_bridge (tables (nd_db w)) (BridgeName pd)"
  shows "wf_tables (tables (nd_db w1)) \<and> port_key pd \<in> attached_ports (tables (nd_db w1))"
proof -
  obtain al cfgs where "rc_Allocation claim = Some al" "parseClaimConfigs (al_Config al) = Inr cfgs"
    using node.PrepareResourceClaim_ok [OF wf p] by metis
  note s = node.prepare_success [OF wf p this]
  from s(3-5) pd show ?thesis by auto
qed

end

text \<open>
  C12. A crash between the preparation and its checkpoint cannot be repaired by the driver: when
  a claim has been prepared, with a port on an existing bridge, the port is there. When the
  process has then ended before the store has the claim, a \<^verbatim>\<open>PrepareResourceClaims\<close> of the new
  process for the claim does not succeed as long as that port is attached to its bridge,
  whatever else has changed in OVSDB, on the node and in the device state; and an
  unprepare does nothing, since the store does not know the claim.
\<close>

theorem crash_before_checkpoint_blocks:
  fixes w w2 :: "('db, 'c, 's, 'k) node"
  assumes node: "driver_node lib calls tables cdi cspecs" and stack: "driver_stack db codec content backoff"
    and wf: "wf_tables (tables (nd_db w))" and p: "PrepareResourceClaim (node_backend env lib cdi) obs claim w = (Ok pds, claim1, w1)"
    and pd: "pd \<in> set pds" "has_bridge (tables (nd_db w)) (BridgeName pd)"
    and wf2: "wf_tables (tables (nd_db w2))" and there: "port_key pd \<in> attached_ports (tables (nd_db w2))"
    and unknown: "stored_claims codec content (nd_store w2) (rc_UID claim) = None"
    and readable: "preparedClaimStore_Get db codec (rc_UID claim) (nd_store w2) = Ok x"
    and uid: "no_UID obj = rc_UID claim"
  shows "port_key pd \<in> attached_ports (tables (nd_db w1))
    \<and> fst (PrepareResourceClaims (node_driver (node_backend env lib cdi) db codec client backoff obs2) [claim] w2) \<noteq> Ok (res, None)
    \<and> UnprepareResourceClaims (node_driver (node_backend env lib cdi) db codec client backoff obs2) [obj] w2 = (Ok ([no_UID obj \<mapsto> None], None), w2)"
proof (intro conjI)
  show "port_key pd \<in> attached_ports (tables (nd_db w1))" using driver_node.prepared_attached [OF node wf p pd] by simp
  show "fst (PrepareResourceClaims (node_driver (node_backend env lib cdi) db codec client backoff obs2) [claim] w2) \<noteq> Ok (res, None)"
  proof
    assume "fst (PrepareResourceClaims (node_driver (node_backend env lib cdi) db codec client backoff obs2) [claim] w2) = Ok (res, None)"
    then obtain w3 where "PrepareResourceClaims (node_driver (node_backend env lib cdi) db codec client backoff obs2) [claim] w2 = (Ok (res, None), w3)"
      by (metis prod.collapse)
    then obtain pds2 c2 v where "PrepareResourceClaim (node_backend env lib cdi) (obs2 claim) claim w2 = (Ok pds2, c2, v)"
      by (rule driver_stack.prepare_single [OF stack _ unknown])
    with driver_node.prepare_again_fails [OF node wf p pd(1) wf2 there] show False by blast
  qed
  have "bolt_store db codec content" using stack by (simp add: driver_stack_def)
  from bolt_store.Get_ok [OF this readable] unknown have "x = []" by simp
  with readable uid show "UnprepareResourceClaims (node_driver (node_backend env lib cdi) db codec client backoff obs2) [obj] w2 =
      (Ok ([no_UID obj \<mapsto> None], None), w2)"
    by (simp add: UnprepareResourceClaims_def node_driver_def)
qed

text \<open>The sample claim is prepared and the process ends: after its checkpoint, or before.\<close>

lemma sample_left_prepared:
  "case PrepareResourceClaim (node_backend calm_env ref_lib mem_cdi) (\<lambda>_. sample_state) (sample_claim [sample_result ''br0'' ''net'']) stack_node of
     (Ok [pd], c, w) \<Rightarrow> BridgeName pd = ''br0'' | _ \<Rightarrow> False"
  by code_simp

theorem crash_before_checkpoint_blocks_witness:
  "\<exists>pds c w1. PrepareResourceClaim (node_backend calm_env ref_lib mem_cdi) (\<lambda>_. sample_state) (sample_claim [sample_result ''br0'' ''net'']) stack_node
       = (Ok pds, c, w1)
     \<and> (\<forall>res. fst (PrepareResourceClaims sample_driver sample_claims (w1\<lparr>nd_store := empty_bolt\<rparr>)) \<noteq> Ok (res, None))
     \<and> UnprepareResourceClaims sample_driver [sample_object] (w1\<lparr>nd_store := empty_bolt\<rparr>)
         = (Ok ([no_UID sample_object \<mapsto> None], None), w1\<lparr>nd_store := empty_bolt\<rparr>)"
proof -
  let ?claim = "sample_claim [sample_result ''br0'' ''net'']"
  obtain pd c w1 where p: "PrepareResourceClaim (node_backend calm_env ref_lib mem_cdi) (\<lambda>_. sample_state) ?claim stack_node = (Ok [pd], c, w1)"
    and b: "BridgeName pd = ''br0''"
    using sample_left_prepared by (auto split: prod.splits res.splits list.splits)
  have db: "nd_db stack_node = sample_tables" by (simp add: stack_node_def)
  have wf: "wf_tables (nd_db stack_node)" using sample_wf by (simp add: db sample_db)
  have hb: "has_bridge (nd_db stack_node) (BridgeName pd)" by (simp add: db b sample_tables_def has_bridge_def)
  let ?w2 = "w1\<lparr>nd_store := empty_bolt\<rparr>"
  have uid: "rc_UID ?claim = no_UID sample_object" by (simp add: sample_claim_def sample_object_def)
  have st: "stored_claims mem_codec mem_content (nd_store ?w2) (rc_UID ?claim) = None"
    by (simp add: stored_claims_def empty_bolt_def mem_content_def)
  have g: "preparedClaimStore_Get mem_bbolt mem_codec (rc_UID ?claim) (nd_store ?w2) = Ok []"
    by (simp add: preparedClaimStore_Get_def mem_bbolt_def mem_codec_def empty_bolt_def)
  have "wf_tables (nd_db w1) \<and> port_key pd \<in> attached_ports (nd_db w1)"
    using driver_node.prepared_attached [OF ref_node.driver_node_axioms wf p _ hb] by simp
  then have s: "wf_tables (nd_db ?w2)" "port_key pd \<in> attached_ports (nd_db ?w2)" by simp_all
  from crash_before_checkpoint_blocks [OF ref_node.driver_node_axioms sample_stack.driver_stack_axioms wf p _ hb s st g uid [symmetric]] p
  show ?thesis unfolding sample_driver_def sample_claims_def by (intro exI [of _ "[pd]"] exI [of _ c] exI [of _ w1]) simp
qed

lemma mem_restart:
  obtains ds' s' where
    "Driver_New (\<lambda>p m s. (None, s)) mem_bbolt mem_codec (\<lambda>s. (None, s)) ''/var/run/ovsdpdk/ovsdpdk.db'' ds s = (Ok (), ds', s')"
    and "\<forall>uid. \<exists>x. preparedClaimStore_Get mem_bbolt mem_codec uid s' = Ok x"
proof -
  have d: "decode_entries mem_codec es = None" for es
    by (induction es) (auto simp: mem_codec_def)
  let ?s' = "s\<lparr>mb_open := True, mb_buckets := (mb_buckets s)(preparedClaimsBucket \<mapsto>
      (case mb_buckets s preparedClaimsBucket of None \<Rightarrow> [] | Some m \<Rightarrow> m))\<rparr>"
  have "Driver_New (\<lambda>p m s. (None, s)) mem_bbolt mem_codec (\<lambda>s. (None, s)) ''/var/run/ovsdpdk/ovsdpdk.db'' ds s =
      (Ok (), SetRepublishCallback True ds, ?s')"
    by (simp add: Driver_New_def preparedClaimStore_New_def restore_bucket_def d mem_bbolt_def)
  moreover have "\<forall>uid. \<exists>x. preparedClaimStore_Get mem_bbolt mem_codec uid ?s' = Ok x"
    by (simp add: preparedClaimStore_Get_def mem_bbolt_def mem_codec_def split: option.splits)
  ultimately show thesis by (rule that)
qed

theorem restart_answers_from_checkpoints_witness:
  "\<exists>res w s' ds' pds. PrepareResourceClaims sample_driver sample_claims stack_node = (Ok (res, None), w)
     \<and> Driver_New (\<lambda>p m s. (None, s)) mem_bbolt mem_codec (\<lambda>s. (None, s)) ''/var/run/ovsdpdk/ovsdpdk.db'' sample_state (nd_store w) = (Ok (), ds', s')
     \<and> PrepareResourceClaims sample_driver sample_claims (w\<lparr>nd_store := s'\<rparr>)
         = (Ok (\<lambda>u. if u \<in> {''0123-4567-89ab''} then Some (preparedDevicesToResult pds) else None, None), w\<lparr>nd_store := s'\<rparr>)"
proof -
  obtain res w where r: "PrepareResourceClaims sample_driver sample_claims stack_node = (Ok (res, None), w)" by (rule sample_run_ok)
  have ids: "rc_UID ` set sample_claims = {''0123-4567-89ab''}" by (simp add: sample_claims_def sample_claim_def)
  note l = sample_stack.prepare_checkpoints_law [OF r [unfolded sample_driver_def PrepareResourceClaims_def]]
  obtain pds where "has_checkpoint mem_codec mem_content w ''0123-4567-89ab'' pds"
    using l by (auto simp: sample_claims_def sample_claim_def)
  then have b: "list_all (\<lambda>c. has_checkpoint mem_codec mem_content w (rc_UID c) pds) sample_claims"
    by (simp add: sample_claims_def sample_claim_def)
  obtain ds' s' where n: "Driver_New (\<lambda>p m s. (None, s)) mem_bbolt mem_codec (\<lambda>s. (None, s)) ''/var/run/ovsdpdk/ovsdpdk.db'' sample_state (nd_store w) = (Ok (), ds', s')"
    and g: "\<forall>uid. \<exists>x. preparedClaimStore_Get mem_bbolt mem_codec uid s' = Ok x"
    by (rule mem_restart [of sample_state "nd_store w"])
  have "list_all (\<lambda>c. \<exists>x. preparedClaimStore_Get mem_bbolt mem_codec (rc_UID c) s' = Ok x) sample_claims" using g by (simp add: list_all_iff)
  note x = restart_answers_from_checkpoints [where pds = "\<lambda>_. pds" and w' = "w\<lparr>nd_store := s'\<rparr>" and w = w and claims = sample_claims,
      OF sample_stack.driver_stack_axioms _ _ b refl n _ this, simplified ids]
  show ?thesis unfolding sample_driver_def
    by (intro exI conjI, rule r [unfolded sample_driver_def], rule n, rule conjunct2 [OF x]) simp_all
qed

end
