(* ===== verification/Shutdown.thy ===== *)
theory Shutdown
  imports Driver
begin

text \<open>
  Stopping the driver while handlers run (\<^verbatim>\<open>pkg/driver/driver.go\<close>, \<^verbatim>\<open>Stop\<close>): the helper stops
  accepting requests, the wait group is waited for, and only then is the claim store
  closed. The handlers of \<^verbatim>\<open>pkg/driver/server.go\<close> begin with \<^verbatim>\<open>wg.Add(1)\<close> and end with the
  deferred \<^verbatim>\<open>wg.Done()\<close>. Handlers, the stopping goroutine and their accesses to the store
  interleave freely.
\<close>

section \<open>The interleavings\<close>

text \<open>How far \<^verbatim>\<open>Stop\<close> has come: not called, after \<^verbatim>\<open>helper.Stop()\<close>, after \<^verbatim>\<open>wg.Wait()\<close>, after \<^verbatim>\<open>Close()\<close>.\<close>

datatype stop_point = Running | Waiting | Waited | Closed

text \<open>
  \<open>sd_pending\<close> counts the accepted requests whose handler has not reached \<^verbatim>\<open>wg.Add\<close> yet,
  \<open>sd_wg\<close> is the counter of the wait group, \<open>sd_open\<close> tells whether the store is open. For the
  statements, handlers are told apart by whether they entered before the wait was over
  (\<open>sd_early\<close>) or later (\<open>sd_late\<close>), \<open>sd_left\<close> is the number of pending requests when it was over,
  and \<open>sd_early_missed\<close>, \<open>sd_late_missed\<close> count accesses to a closed store.
\<close>

record shutdown =
  sd_accepting :: bool
  sd_pending :: nat
  sd_wg :: nat
  sd_open :: bool
  sd_stop :: stop_point
  sd_early :: nat
  sd_late :: nat
  sd_left :: nat
  sd_early_missed :: nat
  sd_late_missed :: nat

definition driver_started :: shutdown where
  "driver_started = \<lparr>sd_accepting = True, sd_pending = 0, sd_wg = 0, sd_open = True, sd_stop = Running, sd_early = 0, sd_late = 0,
     sd_left = 0, sd_early_missed = 0, sd_late_missed = 0\<rparr>"

definition wait_over :: "shutdown \<Rightarrow> bool" where
  "wait_over s \<longleftrightarrow> sd_stop s = Waited \<or> sd_stop s = Closed"

definition missed :: "shutdown \<Rightarrow> nat" where
  "missed s = (if sd_open s then 0 else 1)"

definition wg_Add :: "shutdown \<Rightarrow> shutdown" where
  "wg_Add s =
     (if wait_over s then s\<lparr>sd_pending := sd_pending s - 1, sd_wg := sd_wg s + 1, sd_late := sd_late s + 1\<rparr>
      else s\<lparr>sd_pending := sd_pending s - 1, sd_wg := sd_wg s + 1, sd_early := sd_early s + 1\<rparr>)"

inductive sd_step :: "shutdown \<Rightarrow> shutdown \<Rightarrow> bool" where
  accepted: "sd_accepting s \<Longrightarrow> sd_step s (s\<lparr>sd_pending := sd_pending s + 1\<rparr>)"
| entered: "0 < sd_pending s \<Longrightarrow> sd_step s (wg_Add s)"
| early_access: "0 < sd_early s \<Longrightarrow> sd_step s (s\<lparr>sd_early_missed := sd_early_missed s + missed s\<rparr>)"
| late_access: "0 < sd_late s \<Longrightarrow> sd_step s (s\<lparr>sd_late_missed := sd_late_missed s + missed s\<rparr>)"
| early_done: "0 < sd_early s \<Longrightarrow> sd_step s (s\<lparr>sd_wg := sd_wg s - 1, sd_early := sd_early s - 1\<rparr>)"
| late_done: "0 < sd_late s \<Longrightarrow> sd_step s (s\<lparr>sd_wg := sd_wg s - 1, sd_late := sd_late s - 1\<rparr>)"
| helper_stopped: "sd_stop s = Running \<Longrightarrow> sd_step s (s\<lparr>sd_accepting := False, sd_stop := Waiting\<rparr>)"
| waited: "sd_stop s = Waiting \<Longrightarrow> sd_wg s = 0 \<Longrightarrow> sd_step s (s\<lparr>sd_stop := Waited, sd_left := sd_pending s\<rparr>)"
| store_closed: "sd_stop s = Waited \<Longrightarrow> sd_step s (s\<lparr>sd_stop := Closed, sd_open := False\<rparr>)"

definition sd_reachable :: "shutdown \<Rightarrow> bool" where
  "sd_reachable s \<longleftrightarrow> sd_step\<^sup>*\<^sup>* driver_started s"

lemma sd_reachable_step: "sd_reachable s \<Longrightarrow> sd_step s s' \<Longrightarrow> sd_reachable s'"
  unfolding sd_reachable_def by (rule rtranclp.rtrancl_into_rtrancl)

section \<open>The invariant\<close>

definition sd_inv :: "shutdown \<Rightarrow> bool" where
  "sd_inv s \<longleftrightarrow>
     sd_wg s = sd_early s + sd_late s \<and> sd_accepting s = (sd_stop s = Running) \<and> sd_open s = (sd_stop s \<noteq> Closed) \<and>
     (wait_over s \<longrightarrow> sd_early s = 0 \<and> sd_late s + sd_pending s \<le> sd_left s) \<and>
     (\<not> wait_over s \<longrightarrow> sd_late s = 0 \<and> sd_left s = 0) \<and>
     sd_early_missed s = 0 \<and> (sd_left s = 0 \<longrightarrow> sd_late_missed s = 0)"

lemma sd_inv_step: "sd_step s s' \<Longrightarrow> sd_inv s \<Longrightarrow> sd_inv s'"
  by (cases "sd_stop s"; induction rule: sd_step.induct) (simp_all add: sd_inv_def wait_over_def missed_def wg_Add_def, auto)

lemma sd_inv_reachable: "sd_reachable s \<Longrightarrow> sd_inv s"
  unfolding sd_reachable_def
proof (induction rule: rtranclp_induct)
  case base
  show ?case by (simp add: sd_inv_def driver_started_def wait_over_def)
next
  case (step s s')
  from sd_inv_step [OF step(2,3)] show ?case .
qed

section \<open>Stop ends\<close>

text \<open>What still has to happen; accesses to the store do not count.\<close>

definition remaining :: "shutdown \<Rightarrow> nat" where
  "remaining s = 2 * sd_pending s + sd_early s + sd_late s + (case sd_stop s of Running \<Rightarrow> 3 | Waiting \<Rightarrow> 2 | Waited \<Rightarrow> 1 | Closed \<Rightarrow> 0)"

lemma remaining_decreases:
  assumes "sd_inv s" and "sd_stop s \<noteq> Running" and "sd_step s s'"
  shows "remaining s' < remaining s \<or> (\<exists>m n. s' = s\<lparr>sd_early_missed := m, sd_late_missed := n\<rparr>)"
  using assms(3,1,2)
proof (induction rule: sd_step.induct)
  case (early_access s)
  have "s\<lparr>sd_early_missed := x\<rparr> = s\<lparr>sd_early_missed := x, sd_late_missed := sd_late_missed s\<rparr>" for x by simp
  then show ?case by blast
next
  case (late_access s)
  have "s\<lparr>sd_late_missed := x\<rparr> = s\<lparr>sd_early_missed := sd_early_missed s, sd_late_missed := x\<rparr>" for x by simp
  then show ?case by blast
next
  case (entered s)
  then have "2 * (sd_pending s - 1) + 1 < 2 * sd_pending s" by simp
  then show ?case by (intro disjI1) (simp add: remaining_def wg_Add_def)
qed (simp_all add: remaining_def wg_Add_def sd_inv_def)

lemma some_progress:
  assumes "sd_inv s" and "sd_stop s \<noteq> Running" and "sd_stop s \<noteq> Closed"
  shows "\<exists>s'. sd_step s s' \<and> remaining s' < remaining s \<and> sd_stop s' \<noteq> Running"
proof (cases "sd_stop s = Waited")
  case True
  with store_closed [OF True] show ?thesis by (intro exI conjI) (auto simp: remaining_def)
next
  case False
  with assms(2,3) have w: "sd_stop s = Waiting" by (cases "sd_stop s") auto
  show ?thesis
  proof (cases "sd_wg s = 0")
    case True
    with waited [OF w] w show ?thesis by (intro exI conjI) (auto simp: remaining_def)
  next
    case False
    with assms(1) w have "0 < sd_early s" by (auto simp: sd_inv_def wait_over_def)
    from early_done [OF this] this w show ?thesis by (intro exI conjI) (auto simp: remaining_def)
  qed
qed

lemma Stop_completes:
  assumes "sd_inv s" and "sd_stop s \<noteq> Running"
  shows "\<exists>s'. sd_step\<^sup>*\<^sup>* s s' \<and> sd_stop s' = Closed"
  using assms
proof (induction "remaining s" arbitrary: s rule: less_induct)
  case less
  show ?case
  proof (cases "sd_stop s = Closed")
    case False
    from some_progress [OF less.prems False] obtain s1 where s1: "sd_step s s1" "remaining s1 < remaining s" "sd_stop s1 \<noteq> Running" by blast
    from less.hyps [OF s1(2) sd_inv_step [OF s1(1) less.prems(1)] s1(3)] s1(1) show ?thesis
      by (meson converse_rtranclp_into_rtranclp)
  qed auto
qed

text \<open>
  C14. Stopping the driver against every interleaving of requests and handlers: a handler that
  entered before the wait was over never finds the store closed; when the store is closed,
  none of them is left. Only a request that was accepted but had not reached \<^verbatim>\<open>wg.Add\<close> when
  the wait was over can find it closed. \<^verbatim>\<open>Stop\<close> cannot get stuck: from every state after
  \<^verbatim>\<open>helper.Stop()\<close> it can come to its end, and every step other than an access to the store
  brings it closer.
\<close>

theorem Stop_waits_for_handlers:
  assumes "sd_reachable s"
  shows "sd_early_missed s = 0 \<and> (\<not> sd_open s \<longrightarrow> sd_early s = 0) \<and> (0 < sd_late_missed s \<longrightarrow> 0 < sd_left s) \<and>
    (sd_stop s \<noteq> Running \<longrightarrow> (\<exists>s'. sd_step\<^sup>*\<^sup>* s s' \<and> sd_stop s' = Closed) \<and>
       (\<forall>s'. sd_step s s' \<longrightarrow> remaining s' < remaining s \<or> (\<exists>m n. s' = s\<lparr>sd_early_missed := m, sd_late_missed := n\<rparr>)))"
proof -
  note i = sd_inv_reachable [OF assms]
  then have "sd_early_missed s = 0" "\<not> sd_open s \<longrightarrow> sd_early s = 0" "0 < sd_late_missed s \<longrightarrow> 0 < sd_left s"
    by (auto simp: sd_inv_def wait_over_def)
  with Stop_completes [OF i] remaining_decreases [OF i] show ?thesis by blast
qed

text \<open>One request that enters, the driver is stopped while it runs, and a second request that enters too late.\<close>

definition late_request :: shutdown where
  "late_request = \<lparr>sd_accepting = False, sd_pending = 0, sd_wg = 1, sd_open = False, sd_stop = Closed, sd_early = 0, sd_late = 1,
     sd_left = 1, sd_early_missed = 0, sd_late_missed = 1\<rparr>"

lemma late_request_reachable: "sd_reachable late_request"
proof -
  let ?s = "\<lambda>acc p w st e. \<lparr>sd_accepting = acc, sd_pending = p, sd_wg = w, sd_open = True, sd_stop = st, sd_early = e, sd_late = 0,
     sd_left = 0, sd_early_missed = 0, sd_late_missed = 0\<rparr>"
  have 1: "sd_step driver_started (?s True 1 0 Running 0)" using accepted [of driver_started] by (simp add: driver_started_def)
  have 2: "sd_step (?s True 1 0 Running 0) (?s True 0 1 Running 1)"
    using entered [of "?s True 1 0 Running 0"] by (simp add: wg_Add_def wait_over_def)
  have 3: "sd_step (?s True 0 1 Running 1) (?s True 1 1 Running 1)" using accepted [of "?s True 0 1 Running 1"] by simp
  have 4: "sd_step (?s True 1 1 Running 1) (?s False 1 1 Waiting 1)" using helper_stopped [of "?s True 1 1 Running 1"] by simp
  have 5: "sd_step (?s False 1 1 Waiting 1) (?s False 1 0 Waiting 0)" using early_done [of "?s False 1 1 Waiting 1"] by simp
  let ?t = "\<lambda>p w st l op m. \<lparr>sd_accepting = False, sd_pending = p, sd_wg = w, sd_open = op, sd_stop = st, sd_early = 0, sd_late = l,
     sd_left = 1, sd_early_missed = 0, sd_late_missed = m\<rparr>"
  have 6: "sd_step (?s False 1 0 Waiting 0) (?t 1 0 Waited 0 True 0)" using waited [of "?s False 1 0 Waiting 0"] by simp
  have 7: "sd_step (?t 1 0 Waited 0 True 0) (?t 1 0 Closed 0 False 0)" using store_closed [of "?t 1 0 Waited 0 True 0"] by simp
  have 8: "sd_step (?t 1 0 Closed 0 False 0) (?t 0 1 Closed 1 False 0)"
    using entered [of "?t 1 0 Closed 0 False 0"] by (simp add: wg_Add_def wait_over_def)
  have 9: "sd_step (?t 0 1 Closed 1 False 0) late_request"
    using late_access [of "?t 0 1 Closed 1 False 0"] by (simp add: late_request_def missed_def)
  have "sd_reachable driver_started" by (simp add: sd_reachable_def)
  note sd_reachable_step [OF this 1, THEN sd_reachable_step, OF 2, THEN sd_reachable_step, OF 3, THEN sd_reachable_step, OF 4, THEN sd_reachable_step, OF 5, THEN sd_reachable_step, OF 6, THEN sd_reachable_step, OF 7, THEN sd_reachable_step, OF 8, THEN sd_reachable_step, OF 9]
  then show ?thesis .
qed

theorem Stop_waits_for_handlers_witness:
  "sd_late_missed late_request = 1 \<and> sd_early_missed late_request = 0 \<and> (\<exists>s'. sd_step\<^sup>*\<^sup>* late_request s' \<and> sd_stop s' = Closed)"
proof -
  have "sd_late_missed late_request = 1" "sd_stop late_request \<noteq> Running" by (simp_all add: late_request_def)
  with Stop_waits_for_handlers [OF late_request_reachable] show ?thesis by blast
qed

section \<open>A handler that comes too late\<close>

text \<open>A closed store answers every call with an error and does not change.\<close>

definition store_refuses :: "'w PreparedClaimStore \<Rightarrow> 'w \<Rightarrow> bool" where
  "store_refuses st w \<longleftrightarrow> (\<forall>uid. \<exists>e. cs_Get st uid w = Err e)"

lemma closed_store_refuses: "\<not> mb_open w \<Longrightarrow> store_refuses (bolt_claim_store mem_bbolt mem_codec) w"
  by (simp add: store_refuses_def bolt_claim_store_def preparedClaimStore_Get_def mem_bbolt_def)

text \<open>
  A handler that finds the store closed does no harm: the whole call fails with the
  store's error, has no result for any claim and changes nothing, for both handlers and
  every list of claims; only the empty list succeeds.
\<close>

theorem closed_store_changes_nothing:
  assumes "store_refuses (drv_claimStore d) w"
  shows "\<exists>e1 e2.
    PrepareResourceClaims d claims w =
      (Ok (Map.empty, if claims = [] then None else Some (Errorf ''failed to access store: %w'' [] [e1])), w) \<and>
    UnprepareResourceClaims d objects w =
      (Ok (Map.empty, if objects = [] then None else Some (Errorf ''failed to access store: %w'' [] [e2])), w)"
proof -
  have g: "\<exists>e. cs_Get (drv_claimStore d) uid w = Err e" for uid using assms by (simp add: store_refuses_def)
  obtain e1 where 1: "claims \<noteq> [] \<Longrightarrow> cs_Get (drv_claimStore d) (rc_UID (hd claims)) w = Err e1" using g by blast
  obtain e2 where 2: "objects \<noteq> [] \<Longrightarrow> cs_Get (drv_claimStore d) (no_UID (hd objects)) w = Err e2" using g by blast
  show ?thesis
    by (intro exI [of _ e1] exI [of _ e2] conjI; cases claims; cases objects)
      (use 1 2 in \<open>simp_all add: PrepareResourceClaims_def UnprepareResourceClaims_def\<close>)
qed

definition late_driver :: "mem_bolt Driver" where
  "late_driver =
     (idle_driver \<lparr>api_UpdateStatus = (\<lambda>ns c w. (None, w)), api_Get = (\<lambda>ns name w. (Inl (ApiStatus NotFound), w))\<rparr>)
       \<lparr>drv_claimStore := bolt_claim_store mem_bbolt mem_codec\<rparr>"

theorem closed_store_changes_nothing_witness:
  "\<exists>e. PrepareResourceClaims late_driver [sample_claim []] closed_bolt =
     (Ok (Map.empty, Some (Errorf ''failed to access store: %w'' [] [e])), closed_bolt)"
proof -
  have "store_refuses (drv_claimStore late_driver) closed_bolt"
    using closed_store_refuses [of closed_bolt] by (simp add: late_driver_def closed_bolt_def)
  from closed_store_changes_nothing [OF this, of "[sample_claim []]" "[]"] show ?thesis by simp
qed

end
