(* ===== verification/KubeletWatch.thy ===== *)
theory KubeletWatch
  imports PluginManager
begin

text \<open>
  The goroutine that \<^verbatim>\<open>startKubeletWatcher\<close> starts (\<^verbatim>\<open>pkg/deviceplugin/manager.go\<close>): its loop over
  the channels of the file watcher, and what it achieves when the kubelet restarts. The
  remaining calls of the kubelet to a server (\<^verbatim>\<open>pkg/deviceplugin/deviceplugin_server.go\<close>) are here too.
\<close>

section \<open>Calls without effect\<close>

text \<open>The zero values that the server answers with.\<close>

record DevicePluginOptions =
  PreStartRequired :: bool
  GetPreferredAllocationAvailable :: bool

definition GetDevicePluginOptions :: "DevicePluginOptions \<times> error option" where
  "GetDevicePluginOptions = (\<lparr>PreStartRequired = False, GetPreferredAllocationAvailable = False\<rparr>, None)"

text \<open>One list of device IDs per container; the answer has none.\<close>

definition GetPreferredAllocation :: "'req \<Rightarrow> string list list \<times> error option" where
  "GetPreferredAllocation req = ([], None)"

definition PreStartContainer :: "'req \<Rightarrow> unit \<times> error option" where
  "PreStartContainer req = ((), None)"

section \<open>The loop\<close>

text \<open>What the \<^verbatim>\<open>select\<close> can receive: the end of the context, an event (with its \<^verbatim>\<open>Create\<close> bit), an error, or that a channel is closed.\<close>

datatype watch_input = ContextDone | WatchEvent bool string | EventsClosed | WatchError error | ErrorsClosed

text \<open>
  The loop over the inputs in the order they are received, each with the manager's state at
  that moment and the order of the range over its servers. The first component tells
  whether the loop has ended, with the watcher closed by the deferred call.
\<close>

fun kubelet_watch_loop :: "dp_env \<Rightarrow> (watch_input \<times> string list \<times> Manager) list \<Rightarrow> dp_host \<Rightarrow> bool \<times> dp_host" where
  "kubelet_watch_loop env [] h = (False, h)"
| "kubelet_watch_loop env ((i, order, m) # is) h =
     (case i of
        ContextDone \<Rightarrow> (True, h)
      | EventsClosed \<Rightarrow> (True, h)
      | ErrorsClosed \<Rightarrow> (True, h)
      | WatchError err \<Rightarrow> kubelet_watch_loop env is h
      | WatchEvent created name \<Rightarrow> kubelet_watch_loop env is (kubelet_watch_event env order created name m h))"

definition ends_watch :: "watch_input \<Rightarrow> bool" where
  "ends_watch i \<longleftrightarrow> i = ContextDone \<or> i = EventsClosed \<or> i = ErrorsClosed"

lemma kubelet_watch_loop_ended: "fst (kubelet_watch_loop env is h) \<longleftrightarrow> (\<exists>(i, order, m) \<in> set is. ends_watch i)"
  by (induction env "is" h rule: kubelet_watch_loop.induct) (auto simp: ends_watch_def split: watch_input.splits)

lemma kubelet_watch_loop_append:
  "\<not> fst (kubelet_watch_loop env is h) \<Longrightarrow>
   kubelet_watch_loop env (is @ is') h = kubelet_watch_loop env is' (snd (kubelet_watch_loop env is h))"
  by (induction env "is" h rule: kubelet_watch_loop.induct) (auto split: watch_input.splits)

section \<open>A restart of the kubelet\<close>

text \<open>The kubelet answers every registration.\<close>

definition kubelet_up :: "dp_env \<Rightarrow> bool" where
  "kubelet_up env \<longleftrightarrow> (\<forall>n p. dial_fault env n p = None) \<and> (\<forall>n req. kubelet_answer env n req = None)"

definition server_request :: "dp_env \<Rightarrow> string \<Rightarrow> RegisterRequest" where
  "server_request env r = \<lparr>rr_Version = pluginapi_Version env, rr_Endpoint = filepath_Base (socketPath env r), rr_ResourceName = r\<rparr>"

lemma reregisterAll_up:
  assumes "kubelet_up env" and "\<forall>r \<in> set order. \<exists>k. servers m r = Some (running_server env r k)"
  shows "registrations (reregisterAll env order m h) = registrations h @ map (server_request env) order"
    and "socket_files (reregisterAll env order m h) = socket_files h" and "serving (reregisterAll env order m h) = serving h"
proof -
  have "registrations (reregisterAll env order m h) = registrations h @ map (server_request env) order \<and>
    socket_files (reregisterAll env order m h) = socket_files h \<and> serving (reregisterAll env order m h) = serving h"
    using assms(2)
  proof (induction order arbitrary: h)
    case (Cons r order)
    then obtain k where "servers m r = Some (running_server env r k)" by auto
    with Cons assms(1) show ?case
      by (simp add: Server_Register_def kubelet_up_def dp_tick_def Let_def) (simp add: server_request_def)
  qed simp
  then show "registrations (reregisterAll env order m h) = registrations h @ map (server_request env) order"
    "socket_files (reregisterAll env order m h) = socket_files h" "serving (reregisterAll env order m h) = serving h"
    by blast+
qed

text \<open>
  C17. When the kubelet restarts and its socket appears, the watcher's loop registers every running
  server with the new kubelet exactly once, for every order of the range, and goes on
  waiting. It does not listen again: no server has a socket file any more, so that each of
  these registrations names an endpoint that the kubelet cannot reach.
\<close>

theorem kubelet_restart_dead_endpoints:
  assumes inv: "mgr_inv_except lost env m h" and up: "kubelet_up env" and order: "range_order (servers m) order"
    and name: "filepath_Base name = filepath_Base (KubeletSocket env)"
  shows "case kubelet_watch_loop env [(WatchEvent True name, order, m)] (kubelet_restart h) of
    (ended, h') \<Rightarrow> \<not> ended \<and> registrations h' = map (server_request env) order \<and> serving h' = socketPath env ` dom (servers m) \<and>
      (\<forall>r \<in> dom (servers m). registered env r h' \<and> socketPath env r \<notin> socket_files h')"
proof -
  have s: "set order = dom (servers m)" using order by (simp add: range_order_def)
  have "\<exists>k. servers m r = Some (running_server env r k)" if r: "r \<in> set order" for r
  proof -
    obtain sv where sv: "servers m r = Some sv" using r s by (auto simp: domIff)
    with mgr_invD(1) [OF inv sv] show ?thesis by metis
  qed
  then have o: "\<forall>r \<in> set order. \<exists>k. servers m r = Some (running_server env r k)" by blast
  note R = reregisterAll_up [OF up o, of "kubelet_restart h"]
  have "server_request env r \<in> set (map (server_request env) order)" if "r \<in> dom (servers m)" for r using that s by simp
  then show ?thesis using R inv name
    by (simp add: kubelet_watch_event_def kubelet_restart_def registered_def mgr_inv_except_def server_request_def)
qed

theorem kubelet_restart_dead_endpoints_witness:
  "case kubelet_watch_loop kubelet_env [(WatchEvent True (KubeletSocket kubelet_env), [numa0], fst (snd numa0_update))]
     (kubelet_restart (snd (snd numa0_update))) of
     (ended, h') \<Rightarrow> \<not> ended \<and> registrations h' = [server_request kubelet_env numa0] \<and> socketPath kubelet_env numa0 \<notin> socket_files h'"
proof -
  obtain m' h' where u: "numa0_update = (None, m', h')" "mgr_inv kubelet_env m' h'" "dom (servers m') = {numa0}"
    by (rule numa0_update_result)
  have "range_order (servers m') [numa0]" using u(3) by (simp add: range_order_def)
  moreover have "kubelet_up kubelet_env" by (simp add: kubelet_up_def kubelet_env_def)
  ultimately show ?thesis
    using kubelet_restart_dead_endpoints [OF u(2), of "[numa0]" "KubeletSocket kubelet_env"] u(3) unfolding u(1) by (auto split: prod.splits)
qed

end
