(* ===== verification/DeepCopy.thy ===== *)
theory DeepCopy
  imports DeviceState
begin

text \<open>
  The generated copies of \<^verbatim>\<open>zz_generated.deepcopy.go\<close>, over an explicit heap: pointers and slices
  are addresses, so that sharing between a copy and its original would show. The contract
  of a copy is the locale \<open>deep_copy\<close>: the copy has the same value and only new cells. It is
  closed under pairs, pointers, slices and structs, and each type of the API is built from
  these as the code builds it.
\<close>

section \<open>The heap\<close>

type_synonym addr = nat

text \<open>A slice: its array, where it starts there and its length.\<close>

record slice =
  sl_array :: addr
  sl_off :: nat
  sl_len :: nat

text \<open>
  The structs. A field that holds a pointer or a slice is a type parameter: an address in the
  heap, and what is found there in the value of the struct. \<open>nil\<close> is \<open>None\<close> in both.
\<close>

record ('label, 'users) vhost_struct =
  vs_ContainerRootPath :: string
  vs_User :: UserGroupID
  vs_Group :: UserGroupID
  vs_SelinuxLabel :: 'label
  vs_ACLUsers :: 'users

record 'vhost config_struct =
  cs_VhostUser :: 'vhost

record ('sel, 'bridges) policy_struct =
  ps_NodeSelector :: 'sel
  ps_Bridges :: 'bridges

record TypeMeta =
  tm_Kind :: string
  tm_APIVersion :: string

record ('meta, 'spec) object_struct =
  ob_TypeMeta :: TypeMeta
  ob_ObjectMeta :: 'meta
  ob_Spec :: 'spec

record ('lmeta, 'items) list_struct =
  ls_TypeMeta :: TypeMeta
  ls_ListMeta :: 'lmeta
  ls_Items :: 'items

type_synonym go_VhostUserSpec = "(addr option, slice option) vhost_struct"
type_synonym go_OvsDpdkConfigSpec = "addr option config_struct"
type_synonym go_OvsDpdkResourcePolicySpec = "(addr option, slice option) policy_struct"
type_synonym 'meta go_OvsDpdkConfig = "('meta, go_OvsDpdkConfigSpec) object_struct"
type_synonym 'meta go_OvsDpdkResourcePolicy = "('meta, go_OvsDpdkResourcePolicySpec) object_struct"
type_synonym 'lmeta go_list = "('lmeta, slice option) list_struct"

text \<open>
  The cells. \<open>'meta\<close>, \<open>'lmeta\<close> and \<open>'sel\<close> are \<^verbatim>\<open>ObjectMeta\<close>, \<^verbatim>\<open>ListMeta\<close> and \<^verbatim>\<open>NodeSelector\<close> of the
  library, \<open>'x\<close> what these point to.
\<close>

datatype ('meta, 'lmeta, 'sel, 'x) cell =
    StringCell (un_String: string)
  | StringsCell (un_Strings: "string list")
  | IdCell (un_Id: UserGroupID)
  | VhostCell (un_Vhost: go_VhostUserSpec)
  | ConfigSpecCell (un_ConfigSpec: go_OvsDpdkConfigSpec)
  | ConfigCell (un_Config: "'meta go_OvsDpdkConfig")
  | ConfigsCell (un_Configs: "'meta go_OvsDpdkConfig list")
  | ConfigListCell (un_ConfigList: "'lmeta go_list")
  | BridgeCell (un_Bridge: BridgeSpec)
  | BridgesCell (un_Bridges: "BridgeSpec list")
  | SelectorCell (un_Selector: 'sel)
  | PolicySpecCell (un_PolicySpec: go_OvsDpdkResourcePolicySpec)
  | PolicyCell (un_Policy: "'meta go_OvsDpdkResourcePolicy")
  | PoliciesCell (un_Policies: "'meta go_OvsDpdkResourcePolicy list")
  | PolicyListCell (un_PolicyList: "'lmeta go_list")
  | LibraryCell (un_Library: 'x)

text \<open>The content of a cell that must be of one kind.\<close>

definition cell_content :: "('c \<Rightarrow> bool) \<Rightarrow> ('c \<Rightarrow> 'a) \<Rightarrow> 'c \<Rightarrow> 'a option" where
  "cell_content is_kind un c = (if is_kind c then Some (un c) else None)"

record 'c go_heap =
  cells :: "addr \<rightharpoonup> 'c"
  next_addr :: addr

definition heap_ok :: "'c go_heap \<Rightarrow> bool" where
  "heap_ok h \<longleftrightarrow> (\<forall>a \<ge> next_addr h. cells h a = None)"

definition new_cell :: "'c \<Rightarrow> 'c go_heap \<Rightarrow> addr \<times> 'c go_heap" where
  "new_cell c h = (next_addr h, h\<lparr>cells := (cells h)(next_addr h \<mapsto> c), next_addr := Suc (next_addr h)\<rparr>)"

definition write_cell :: "addr \<Rightarrow> 'c \<Rightarrow> 'c go_heap \<Rightarrow> 'c go_heap" where
  "write_cell a c h = h\<lparr>cells := (cells h)(a \<mapsto> c)\<rparr>"

text \<open>Nothing that was there is changed.\<close>

definition grows :: "'c go_heap \<Rightarrow> 'c go_heap \<Rightarrow> bool" where
  "grows h h' \<longleftrightarrow> heap_ok h' \<and> next_addr h \<le> next_addr h' \<and> (\<forall>a < next_addr h. cells h' a = cells h a)"

definition agree_on :: "addr set \<Rightarrow> 'c go_heap \<Rightarrow> 'c go_heap \<Rightarrow> bool" where
  "agree_on A h h' \<longleftrightarrow> (\<forall>a \<in> A. cells h' a = cells h a)"

lemma grows_refl [simp]: "heap_ok h \<Longrightarrow> grows h h"
  by (simp add: grows_def)

lemma grows_trans [trans]: "grows h h1 \<Longrightarrow> grows h1 h2 \<Longrightarrow> grows h h2"
  by (auto simp: grows_def)

lemma grows_ok: "grows h h' \<Longrightarrow> heap_ok h'"
  by (simp add: grows_def)

lemma grows_agree: "grows h h' \<Longrightarrow> A \<subseteq> {..<next_addr h} \<Longrightarrow> agree_on A h h'"
  by (auto simp: grows_def agree_on_def)

lemma agree_on_mono: "agree_on A h h' \<Longrightarrow> B \<subseteq> A \<Longrightarrow> agree_on B h h'"
  by (auto simp: agree_on_def)

lemma new_cell_grows: "heap_ok h \<Longrightarrow> new_cell c h = (a, h') \<Longrightarrow>
  a = next_addr h \<and> grows h h' \<and> cells h' a = Some c \<and> next_addr h' = Suc a"
  by (auto simp: new_cell_def grows_def heap_ok_def)

section \<open>The contract of a copy\<close>

locale deep_copy =
  fixes copy :: "'a \<Rightarrow> 'c go_heap \<Rightarrow> 'a \<times> 'c go_heap" and val :: "'c go_heap \<Rightarrow> 'a \<Rightarrow> 'v option"
    and uses :: "'c go_heap \<Rightarrow> 'a \<Rightarrow> addr set"
  assumes copied: "heap_ok h \<Longrightarrow> val h x = Some v \<Longrightarrow> copy x h = (y, h') \<Longrightarrow>
      grows h h' \<and> val h' y = Some v \<and> uses h' y \<subseteq> {next_addr h..<next_addr h'}"
    and local: "agree_on (uses h x) h h' \<Longrightarrow> val h' x = val h x \<and> uses h' x = uses h x"
    and bounded: "heap_ok h \<Longrightarrow> val h x = Some v \<Longrightarrow> uses h x \<subseteq> {..<next_addr h}"
begin

lemma kept:
  assumes "heap_ok h" and "val h x = Some v" and "grows h h'"
  shows "val h' x = Some v" and "uses h' x = uses h x"
  using local [OF grows_agree [OF assms(3) bounded [OF assms(1,2)]]] assms(2) by simp_all

text \<open>
  Copy and original are independent: writes to cells that existed before do not reach the
  copy, writes to the cells made by the copy do not reach the original.
\<close>

lemma independent:
  assumes "heap_ok h" and "val h x = Some v" and "copy x h = (y, h')"
  shows "val h' x = Some v" and "val h' y = Some v"
    and "agree_on {next_addr h..} h' h'' \<Longrightarrow> val h'' y = Some v"
    and "agree_on {..<next_addr h} h' h'' \<Longrightarrow> val h'' x = Some v"
proof -
  note c = copied [OF assms]
  have g: "grows h h'" and u: "uses h' y \<subseteq> {next_addr h..}" using c by auto
  note k = kept [OF assms(1,2) g]
  show "val h' x = Some v" "val h' y = Some v" using k c by simp_all
  show "val h'' y = Some v" if "agree_on {next_addr h..} h' h''"
    using local [OF agree_on_mono [OF that u]] c by simp
  show "val h'' x = Some v" if "agree_on {..<next_addr h} h' h''"
    using local [of h' x h''] agree_on_mono [OF that] bounded [OF assms(1,2)] k by simp
qed

end

text \<open>Types without pointers are copied by the assignment.\<close>

definition plain_copy :: "'a \<Rightarrow> 'c go_heap \<Rightarrow> 'a \<times> 'c go_heap" where
  "plain_copy x h = (x, h)"

definition plain_val :: "'c go_heap \<Rightarrow> 'a \<Rightarrow> 'a option" where
  "plain_val h x = Some x"

definition plain_uses :: "'c go_heap \<Rightarrow> 'a \<Rightarrow> addr set" where
  "plain_uses h x = {}"

interpretation plain: deep_copy plain_copy plain_val plain_uses
  by unfold_locales (auto simp: plain_copy_def plain_val_def plain_uses_def)

section \<open>Two fields, one after the other\<close>

definition copy_pair ::
  "('a \<Rightarrow> 'c go_heap \<Rightarrow> 'a \<times> 'c go_heap) \<Rightarrow> ('b \<Rightarrow> 'c go_heap \<Rightarrow> 'b \<times> 'c go_heap) \<Rightarrow> 'a \<times> 'b \<Rightarrow> 'c go_heap \<Rightarrow> ('a \<times> 'b) \<times> 'c go_heap" where
  "copy_pair copy1 copy2 p h =
     (case copy1 (fst p) h of (y1, h1) \<Rightarrow> (case copy2 (snd p) h1 of (y2, h2) \<Rightarrow> ((y1, y2), h2)))"

definition val_pair :: "('h \<Rightarrow> 'a \<Rightarrow> 'v option) \<Rightarrow> ('h \<Rightarrow> 'b \<Rightarrow> 'w option) \<Rightarrow> 'h \<Rightarrow> 'a \<times> 'b \<Rightarrow> ('v \<times> 'w) option" where
  "val_pair val1 val2 h p = (case (val1 h (fst p), val2 h (snd p)) of (Some v, Some w) \<Rightarrow> Some (v, w) | _ \<Rightarrow> None)"

definition uses_pair :: "('h \<Rightarrow> 'a \<Rightarrow> addr set) \<Rightarrow> ('h \<Rightarrow> 'b \<Rightarrow> addr set) \<Rightarrow> 'h \<Rightarrow> 'a \<times> 'b \<Rightarrow> addr set" where
  "uses_pair uses1 uses2 h p = uses1 h (fst p) \<union> uses2 h (snd p)"

lemma val_pair_Some: "val_pair val1 val2 h p = Some v \<longleftrightarrow> val1 h (fst p) = Some (fst v) \<and> val2 h (snd p) = Some (snd v)"
  by (cases v) (auto simp: val_pair_def split: option.splits)

lemma deep_copy_pair:
  assumes a: "deep_copy copy1 val1 uses1" and b: "deep_copy copy2 val2 uses2"
  shows "deep_copy (copy_pair copy1 copy2) (val_pair val1 val2) (uses_pair uses1 uses2)"
proof (unfold_locales, goal_cases)
  case (1 h p v q h')
  obtain y1 h1 where 1: "copy1 (fst p) h = (y1, h1)" by fastforce
  obtain y2 h2 where 2: "copy2 (snd p) h1 = (y2, h2)" by fastforce
  have q: "q = (y1, y2)" "h' = h2" using \<open>copy_pair copy1 copy2 p h = (q, h')\<close> by (simp_all add: copy_pair_def 1 2)
  have v: "val1 h (fst p) = Some (fst v)" "val2 h (snd p) = Some (snd v)"
    using \<open>val_pair val1 val2 h p = Some v\<close> by (simp_all add: val_pair_Some)
  note c1 = deep_copy.copied [OF a \<open>heap_ok h\<close> v(1) 1]
  then have g1: "grows h h1" and w1: "val1 h1 y1 = Some (fst v)" by simp_all
  note c2 = deep_copy.copied [OF b grows_ok [OF g1] deep_copy.kept(1) [OF b \<open>heap_ok h\<close> v(2) g1] 2]
  then have g2: "grows h1 h2" by simp
  note k1 = deep_copy.kept [OF a grows_ok [OF g1] w1 g2]
  have "next_addr h \<le> next_addr h1" "next_addr h1 \<le> next_addr h2" using g1 g2 by (simp_all add: grows_def)
  with c1 c2 k1 grows_trans [OF g1 g2] show ?case unfolding q by (auto simp: val_pair_Some uses_pair_def)
next
  case (2 h p h')
  then have "agree_on (uses1 h (fst p)) h h'" "agree_on (uses2 h (snd p)) h h'"
    by (auto simp: uses_pair_def agree_on_def)
  then show ?case using deep_copy.local [OF a] deep_copy.local [OF b] by (simp add: val_pair_def uses_pair_def)
next
  case (3 h p v)
  then show ?case using deep_copy.bounded [OF a] deep_copy.bounded [OF b] by (simp add: val_pair_Some uses_pair_def)
qed

section \<open>The fields of a struct\<close>

text \<open>\<open>get\<close> and \<open>put\<close> are the fields that the copy has to follow; \<open>build\<close> makes the value of the struct.\<close>

definition copy_fields ::
  "('s \<Rightarrow> 'a) \<Rightarrow> ('s \<Rightarrow> 'a \<Rightarrow> 's) \<Rightarrow> ('a \<Rightarrow> 'c go_heap \<Rightarrow> 'a \<times> 'c go_heap) \<Rightarrow> 's \<Rightarrow> 'c go_heap \<Rightarrow> 's \<times> 'c go_heap" where
  "copy_fields get put copy x h = (case copy (get x) h of (y, h') \<Rightarrow> (put x y, h'))"

definition val_fields :: "('s \<Rightarrow> 'a) \<Rightarrow> ('s \<Rightarrow> 'v \<Rightarrow> 'w) \<Rightarrow> ('h \<Rightarrow> 'a \<Rightarrow> 'v option) \<Rightarrow> 'h \<Rightarrow> 's \<Rightarrow> 'w option" where
  "val_fields get build val h x = map_option (build x) (val h (get x))"

lemma deep_copy_fields:
  assumes a: "deep_copy copy val uses"
    and "\<And>x y. get (put x y) = y" and "\<And>x y. build (put x y) = build x"
  shows "deep_copy (copy_fields get put copy) (val_fields get build val) (\<lambda>h x. uses h (get x))"
proof (unfold_locales, goal_cases)
  case (1 h x v y h')
  obtain z where z: "copy (get x) h = (z, h')" "y = put x z"
    using 1(3) by (auto simp: copy_fields_def split: prod.splits)
  from 1(2) obtain u where u: "val h (get x) = Some u" "v = build x u" by (auto simp: val_fields_def)
  from deep_copy.copied [OF a 1(1) u(1) z(1)] show ?case by (simp add: z(2) assms(2,3) u(2) val_fields_def)
next
  case (2 h x h')
  from deep_copy.local [OF a 2] show ?case by (simp add: val_fields_def)
next
  case (3 h x v)
  then show ?case using deep_copy.bounded [OF a] by (auto simp: val_fields_def)
qed

section \<open>The elements of an array\<close>

fun copy_elems :: "('a \<Rightarrow> 'c go_heap \<Rightarrow> 'a \<times> 'c go_heap) \<Rightarrow> 'a list \<Rightarrow> 'c go_heap \<Rightarrow> 'a list \<times> 'c go_heap" where
  "copy_elems into [] h = ([], h)"
| "copy_elems into (x # xs) h =
     (case into x h of (y, h1) \<Rightarrow> (case copy_elems into xs h1 of (ys, h2) \<Rightarrow> (y # ys, h2)))"

definition val_elems :: "('h \<Rightarrow> 'a \<Rightarrow> 'v option) \<Rightarrow> 'h \<Rightarrow> 'a list \<Rightarrow> 'v list option" where
  "val_elems val h xs = those (map (val h) xs)"

definition uses_elems :: "('h \<Rightarrow> 'a \<Rightarrow> addr set) \<Rightarrow> 'h \<Rightarrow> 'a list \<Rightarrow> addr set" where
  "uses_elems uses h xs = (\<Union>x \<in> set xs. uses h x)"

lemma val_elems_Some: "val_elems val h xs = Some vs \<longleftrightarrow> list_all2 (\<lambda>x v. val h x = Some v) xs vs"
proof (induction xs arbitrary: vs)
  case (Cons x xs)
  then show ?case by (cases vs) (auto simp: val_elems_def split: option.splits)
qed (auto simp: val_elems_def)

lemma copy_elems_length: "copy_elems into xs h = (ys, h') \<Longrightarrow> length ys = length xs"
  by (induction into xs h arbitrary: ys h' rule: copy_elems.induct) (auto split: prod.splits)

text \<open>A list of copies, seen as the pair of its head and its tail.\<close>

lemma copy_elems_copied:
  assumes a: "deep_copy copy val uses"
    and "heap_ok h" and "val_elems val h xs = Some vs" and "copy_elems copy xs h = (ys, h')"
  shows "grows h h' \<and> val_elems val h' ys = Some vs \<and> uses_elems uses h' ys \<subseteq> {next_addr h..<next_addr h'}"
  using assms(2-)
proof (induction xs arbitrary: h vs ys)
  case Nil
  then show ?case by (auto simp: val_elems_def uses_elems_def)
next
  case (Cons x xs)
  obtain v ws where vs: "vs = v # ws" "val h x = Some v" "val_elems val h xs = Some ws"
    using Cons.prems(2) by (auto simp: val_elems_Some list_all2_Cons1)
  obtain y h1 zs where c: "copy x h = (y, h1)" "copy_elems copy xs h1 = (zs, h')" "ys = y # zs"
    using Cons.prems(3) by (auto split: prod.splits)
  note 1 = deep_copy.copied [OF a Cons.prems(1) vs(2) c(1)]
  then have g1: "grows h h1" and w1: "val h1 y = Some v" by simp_all
  have "val_elems val h1 xs = Some ws"
    using vs(3) deep_copy.kept(1) [OF a Cons.prems(1) _ g1] by (auto simp: val_elems_Some elim: list_all2_mono)
  note 2 = Cons.IH [OF grows_ok [OF g1] this c(2)]
  then have g2: "grows h1 h'" by simp
  note k = deep_copy.kept [OF a grows_ok [OF g1] w1 g2]
  have "next_addr h \<le> next_addr h1" "next_addr h1 \<le> next_addr h'" using g1 g2 by (simp_all add: grows_def)
  with 1 2 k grows_trans [OF g1 g2] show ?case by (auto simp: c(3) vs(1) val_elems_Some uses_elems_def)
qed

lemma deep_copy_elems:
  assumes a: "deep_copy copy val uses"
  shows "deep_copy (copy_elems copy) (val_elems val) (uses_elems uses)"
proof (unfold_locales, goal_cases)
  case (1 h xs vs ys h')
  then show ?case by (rule copy_elems_copied [OF a])
next
  case (2 h xs h')
  then have "agree_on (uses h x) h h'" if "x \<in> set xs" for x using that by (auto simp: uses_elems_def agree_on_def)
  then have "val h' x = val h x \<and> uses h' x = uses h x" if "x \<in> set xs" for x using that deep_copy.local [OF a] by blast
  then show ?case by (simp add: val_elems_def uses_elems_def cong: map_cong)
next
  case (3 h xs vs)
  then have "\<exists>v. val h x = Some v" if "x \<in> set xs" for x
    using that by (auto simp: val_elems_Some list_all2_conv_all_nth in_set_conv_nth)
  then show ?case using deep_copy.bounded [OF a 3(1)] by (fastforce simp: uses_elems_def)
qed

section \<open>Pointers and slices\<close>

text \<open>
  A reference into the heap: the cell it points to, what it shows of this cell, and the
  reference to a new cell. \<open>nil\<close> stays \<open>nil\<close>; else \<^verbatim>\<open>new\<close> or \<^verbatim>\<open>make\<close> gives the new cell and the
  copy goes into it. The cell starts as an image of the source (the assignment \<^verbatim>\<open>*out = *in\<close>
  that every \<^verbatim>\<open>DeepCopyInto\<close> begins with, element by element for a slice).
\<close>

definition copy_ref ::
  "('r \<Rightarrow> addr) \<Rightarrow> ('r \<Rightarrow> 'c \<Rightarrow> 'a option) \<Rightarrow> (addr \<Rightarrow> 'a \<Rightarrow> 'r) \<Rightarrow> ('a \<Rightarrow> 'c) \<Rightarrow> ('a \<Rightarrow> 'c go_heap \<Rightarrow> 'a \<times> 'c go_heap) \<Rightarrow>
   'r option \<Rightarrow> 'c go_heap \<Rightarrow> 'r option \<times> 'c go_heap" where
  "copy_ref target look mk box into p h =
     (case p of
        None \<Rightarrow> (None, h)
      | Some r \<Rightarrow>
          (case Option.bind (cells h (target r)) (look r) of
             None \<Rightarrow> (None, h)
           | Some x \<Rightarrow>
               (case new_cell (box x) h of (out, h1) \<Rightarrow>
               (case into x h1 of (y, h2) \<Rightarrow> (Some (mk out y), write_cell out (box y) h2)))))"

definition val_ref ::
  "('r \<Rightarrow> addr) \<Rightarrow> ('r \<Rightarrow> 'c \<Rightarrow> 'a option) \<Rightarrow> ('c go_heap \<Rightarrow> 'a \<Rightarrow> 'v option) \<Rightarrow> 'c go_heap \<Rightarrow> 'r option \<Rightarrow> 'v option option" where
  "val_ref target look val h p =
     (case p of
        None \<Rightarrow> Some None
      | Some r \<Rightarrow> (case Option.bind (cells h (target r)) (look r) of None \<Rightarrow> None | Some x \<Rightarrow> map_option Some (val h x)))"

definition uses_ref ::
  "('r \<Rightarrow> addr) \<Rightarrow> ('r \<Rightarrow> 'c \<Rightarrow> 'a option) \<Rightarrow> ('c go_heap \<Rightarrow> 'a \<Rightarrow> addr set) \<Rightarrow> 'c go_heap \<Rightarrow> 'r option \<Rightarrow> addr set" where
  "uses_ref target look uses h p =
     (case p of
        None \<Rightarrow> {}
      | Some r \<Rightarrow> insert (target r) (case Option.bind (cells h (target r)) (look r) of None \<Rightarrow> {} | Some x \<Rightarrow> uses h x))"

lemma val_ref_Some: "val_ref target look val h (Some r) = Some v \<longleftrightarrow>
  (\<exists>c x u. cells h (target r) = Some c \<and> look r c = Some x \<and> val h x = Some u \<and> v = Some u)"
  by (auto simp: val_ref_def bind_eq_Some_conv split: option.splits)

lemma val_ref_None [simp]: "val_ref target look val h None = Some None"
  by (simp add: val_ref_def)

lemma uses_ref_simps [simp]:
  "uses_ref target look uses h None = {}"
  "cells h (target r) = Some c \<Longrightarrow> look r c = Some x \<Longrightarrow> uses_ref target look uses h (Some r) = insert (target r) (uses h x)"
  by (simp_all add: uses_ref_def)

lemma copy_ref_copied:
  assumes a: "deep_copy copy val uses"
    and mk: "\<And>out y. target (mk out y) = out" "\<And>out y. look (mk out y) (box y) = Some y"
    and h: "heap_ok h" and v: "val_ref target look val h p = Some v" and c: "copy_ref target look mk box copy p h = (q, h')"
  shows "grows h h' \<and> val_ref target look val h' q = Some v \<and> uses_ref target look uses h' q \<subseteq> {next_addr h..<next_addr h'}"
proof (cases p)
  case None
  with h v c show ?thesis by (auto simp: copy_ref_def)
next
  case (Some r)
  with v obtain d x u where x: "cells h (target r) = Some d" "look r d = Some x" "val h x = Some u" "v = Some u"
    by (auto simp: val_ref_Some)
  obtain out h1 where 1: "new_cell (box x) h = (out, h1)" by fastforce
  obtain y h2 where 2: "copy x h1 = (y, h2)" by fastforce
  have q: "q = Some (mk out y)" and h': "h' = write_cell out (box y) h2"
    using c by (simp_all add: copy_ref_def Some x(1,2) 1 2)
  have n: "out = next_addr h" "grows h h1" "next_addr h1 = Suc out" using new_cell_grows [OF h 1] by simp_all
  note c = deep_copy.copied [OF a grows_ok [OF n(2)] deep_copy.kept(1) [OF a h x(3) n(2)] 2]
  then have g: "grows h1 h2" and u: "uses h2 y \<subseteq> {Suc out..<next_addr h2}" and w: "val h2 y = Some u" by (simp_all add: n(3))
  have "agree_on (uses h2 y) h2 h'" using u by (auto simp: h' agree_on_def write_cell_def)
  note l = deep_copy.local [OF a this]
  have out: "cells h' out = Some (box y)" by (simp add: h' write_cell_def)
  have "Suc out \<le> next_addr h2" and nx: "next_addr h' = next_addr h2" using g n(3) by (simp_all add: grows_def h' write_cell_def)
  moreover have "grows h h'" using n g by (auto simp: h' grows_def heap_ok_def write_cell_def)
  ultimately show ?thesis using l u w out by (auto simp: q val_ref_Some mk n(1) x(4))
qed

lemma deep_copy_ref:
  assumes a: "deep_copy copy val uses"
    and mk: "\<And>out y. target (mk out y) = out" "\<And>out y. look (mk out y) (box y) = Some y"
  shows "deep_copy (copy_ref target look mk box copy) (val_ref target look val) (uses_ref target look uses)"
proof (unfold_locales, goal_cases)
  case (1 h p v q h')
  then show ?case by (rule copy_ref_copied [OF a mk])
next
  case (2 h p h')
  show ?case
  proof (cases p)
    case (Some r)
    with 2 have c: "cells h' (target r) = cells h (target r)" by (simp add: uses_ref_def agree_on_def)
    show ?thesis
    proof (cases "Option.bind (cells h (target r)) (look r)")
      case (Some x)
      with 2 \<open>p = Some r\<close> have "agree_on (uses h x) h h'" by (simp add: uses_ref_def agree_on_def)
      from deep_copy.local [OF a this] Some c \<open>p = Some r\<close> show ?thesis by (simp add: val_ref_def uses_ref_def)
    qed (use c Some in \<open>simp add: val_ref_def uses_ref_def\<close>)
  qed (simp add: val_ref_def uses_ref_def)
next
  case (3 h p v)
  show ?case
  proof (cases p)
    case (Some r)
    with 3(2) obtain c x u where x: "cells h (target r) = Some c" "look r c = Some x" "val h x = Some u"
      by (auto simp: val_ref_Some)
    have "target r < next_addr h" using 3(1) x(1) by (metis heap_ok_def not_le option.distinct(1))
    with deep_copy.bounded [OF a 3(1) x(3)] x(1,2) Some show ?thesis by simp
  qed simp
qed

definition copy_ptr ::
  "('a \<Rightarrow> 'c) \<Rightarrow> ('c \<Rightarrow> 'a option) \<Rightarrow> ('a \<Rightarrow> 'c go_heap \<Rightarrow> 'a \<times> 'c go_heap) \<Rightarrow> addr option \<Rightarrow> 'c go_heap \<Rightarrow> addr option \<times> 'c go_heap" where
  "copy_ptr box unbox into = copy_ref (\<lambda>a. a) (\<lambda>a. unbox) (\<lambda>out y. out) box into"

definition val_ptr :: "('c \<Rightarrow> 'a option) \<Rightarrow> ('c go_heap \<Rightarrow> 'a \<Rightarrow> 'v option) \<Rightarrow> 'c go_heap \<Rightarrow> addr option \<Rightarrow> 'v option option" where
  "val_ptr unbox val = val_ref (\<lambda>a. a) (\<lambda>a. unbox) val"

definition uses_ptr :: "('c \<Rightarrow> 'a option) \<Rightarrow> ('c go_heap \<Rightarrow> 'a \<Rightarrow> addr set) \<Rightarrow> 'c go_heap \<Rightarrow> addr option \<Rightarrow> addr set" where
  "uses_ptr unbox uses = uses_ref (\<lambda>a. a) (\<lambda>a. unbox) uses"

text \<open>What a slice shows of its array. The copy is a slice of a whole new array.\<close>

definition window :: "('c \<Rightarrow> 'a list option) \<Rightarrow> slice \<Rightarrow> 'c \<Rightarrow> 'a list option" where
  "window unbox sl c =
     (case unbox c of
        None \<Rightarrow> None
      | Some xs \<Rightarrow> if sl_off sl + sl_len sl \<le> length xs then Some (take (sl_len sl) (drop (sl_off sl) xs)) else None)"

definition whole_slice :: "addr \<Rightarrow> 'a list \<Rightarrow> slice" where
  "whole_slice a xs = \<lparr>sl_array = a, sl_off = 0, sl_len = length xs\<rparr>"

definition copy_slice ::
  "('a list \<Rightarrow> 'c) \<Rightarrow> ('c \<Rightarrow> 'a list option) \<Rightarrow> ('a \<Rightarrow> 'c go_heap \<Rightarrow> 'a \<times> 'c go_heap) \<Rightarrow>
   slice option \<Rightarrow> 'c go_heap \<Rightarrow> slice option \<times> 'c go_heap" where
  "copy_slice box unbox into = copy_ref sl_array (window unbox) whole_slice box (copy_elems into)"

definition val_slice :: "('c \<Rightarrow> 'a list option) \<Rightarrow> ('c go_heap \<Rightarrow> 'a \<Rightarrow> 'v option) \<Rightarrow> 'c go_heap \<Rightarrow> slice option \<Rightarrow> 'v list option option" where
  "val_slice unbox val = val_ref sl_array (window unbox) (val_elems val)"

definition uses_slice :: "('c \<Rightarrow> 'a list option) \<Rightarrow> ('c go_heap \<Rightarrow> 'a \<Rightarrow> addr set) \<Rightarrow> 'c go_heap \<Rightarrow> slice option \<Rightarrow> addr set" where
  "uses_slice unbox uses = uses_ref sl_array (window unbox) (uses_elems uses)"

lemma deep_copy_ptr:
  assumes "deep_copy copy val uses" and "\<And>x. unbox (box x) = Some x"
  shows "deep_copy (copy_ptr box unbox copy) (val_ptr unbox val) (uses_ptr unbox uses)"
  unfolding copy_ptr_def val_ptr_def uses_ptr_def using assms by (intro deep_copy_ref) simp_all

lemma deep_copy_slice:
  assumes "deep_copy copy val uses" and "\<And>xs. unbox (box xs) = Some xs"
  shows "deep_copy (copy_slice box unbox copy) (val_slice unbox val) (uses_slice unbox uses)"
  unfolding copy_slice_def val_slice_def uses_slice_def
  using assms by (intro deep_copy_ref deep_copy_elems) (simp_all add: whole_slice_def window_def)

section \<open>The copies of the API types\<close>

type_synonym ('meta, 'lmeta, 'sel, 'x) api_heap = "('meta, 'lmeta, 'sel, 'x) cell go_heap"

text \<open>A \<^verbatim>\<open>DeepCopyInto\<close> of the library, of \<^verbatim>\<open>ObjectMeta\<close>, \<^verbatim>\<open>ListMeta\<close> or \<^verbatim>\<open>NodeSelector\<close>.\<close>

type_synonym ('a, 'h) copier = "'a \<Rightarrow> 'h \<Rightarrow> 'a \<times> 'h"

definition BridgeSpec_DeepCopyInto :: "BridgeSpec \<Rightarrow> ('meta, 'lmeta, 'sel, 'x) api_heap \<Rightarrow> BridgeSpec \<times> ('meta, 'lmeta, 'sel, 'x) api_heap" where
  "BridgeSpec_DeepCopyInto x h = (x, h)"

definition BridgeSpec_DeepCopy :: "addr option \<Rightarrow> ('meta, 'lmeta, 'sel, 'x) api_heap \<Rightarrow> addr option \<times> ('meta, 'lmeta, 'sel, 'x) api_heap" where
  "BridgeSpec_DeepCopy = copy_ptr BridgeCell (cell_content is_BridgeCell un_Bridge) BridgeSpec_DeepCopyInto"

definition UserGroupID_DeepCopyInto :: "UserGroupID \<Rightarrow> ('meta, 'lmeta, 'sel, 'x) api_heap \<Rightarrow> UserGroupID \<times> ('meta, 'lmeta, 'sel, 'x) api_heap" where
  "UserGroupID_DeepCopyInto x h = (x, h)"

definition UserGroupID_DeepCopy :: "addr option \<Rightarrow> ('meta, 'lmeta, 'sel, 'x) api_heap \<Rightarrow> addr option \<times> ('meta, 'lmeta, 'sel, 'x) api_heap" where
  "UserGroupID_DeepCopy = copy_ptr IdCell (cell_content is_IdCell un_Id) UserGroupID_DeepCopyInto"

definition VhostUserSpec_DeepCopyInto :: "go_VhostUserSpec \<Rightarrow> ('meta, 'lmeta, 'sel, 'x) api_heap \<Rightarrow> go_VhostUserSpec \<times> ('meta, 'lmeta, 'sel, 'x) api_heap" where
  "VhostUserSpec_DeepCopyInto x h =
     (case UserGroupID_DeepCopyInto (vs_User x) h of (user, h1) \<Rightarrow>
     (case UserGroupID_DeepCopyInto (vs_Group x) h1 of (grp, h2) \<Rightarrow>
     (case copy_ptr StringCell (cell_content is_StringCell un_String) plain_copy (vs_SelinuxLabel x) h2 of (label, h3) \<Rightarrow>
     (case copy_slice StringsCell (cell_content is_StringsCell un_Strings) plain_copy (vs_ACLUsers x) h3 of (users, h4) \<Rightarrow>
       (x\<lparr>vs_User := user, vs_Group := grp, vs_SelinuxLabel := label, vs_ACLUsers := users\<rparr>, h4)))))"

definition VhostUserSpec_DeepCopy :: "addr option \<Rightarrow> ('meta, 'lmeta, 'sel, 'x) api_heap \<Rightarrow> addr option \<times> ('meta, 'lmeta, 'sel, 'x) api_heap" where
  "VhostUserSpec_DeepCopy = copy_ptr VhostCell (cell_content is_VhostCell un_Vhost) VhostUserSpec_DeepCopyInto"

definition OvsDpdkConfigSpec_DeepCopyInto :: "go_OvsDpdkConfigSpec \<Rightarrow> ('meta, 'lmeta, 'sel, 'x) api_heap \<Rightarrow> go_OvsDpdkConfigSpec \<times> ('meta, 'lmeta, 'sel, 'x) api_heap" where
  "OvsDpdkConfigSpec_DeepCopyInto x h =
     (case copy_ptr VhostCell (cell_content is_VhostCell un_Vhost) VhostUserSpec_DeepCopyInto (cs_VhostUser x) h of (vhost, h1) \<Rightarrow>
       (x\<lparr>cs_VhostUser := vhost\<rparr>, h1))"

definition OvsDpdkConfigSpec_DeepCopy :: "addr option \<Rightarrow> ('meta, 'lmeta, 'sel, 'x) api_heap \<Rightarrow> addr option \<times> ('meta, 'lmeta, 'sel, 'x) api_heap" where
  "OvsDpdkConfigSpec_DeepCopy = copy_ptr ConfigSpecCell (cell_content is_ConfigSpecCell un_ConfigSpec) OvsDpdkConfigSpec_DeepCopyInto"

definition OvsDpdkConfig_DeepCopyInto :: "('meta, ('meta, 'lmeta, 'sel, 'x) api_heap) copier \<Rightarrow> 'meta go_OvsDpdkConfig \<Rightarrow> ('meta, 'lmeta, 'sel, 'x) api_heap \<Rightarrow> 'meta go_OvsDpdkConfig \<times> ('meta, 'lmeta, 'sel, 'x) api_heap" where
  "OvsDpdkConfig_DeepCopyInto meta_copy x h =
     (case meta_copy (ob_ObjectMeta x) h of (meta, h1) \<Rightarrow>
     (case OvsDpdkConfigSpec_DeepCopyInto (ob_Spec x) h1 of (spec, h2) \<Rightarrow>
       (x\<lparr>ob_ObjectMeta := meta, ob_Spec := spec\<rparr>, h2)))"

definition OvsDpdkConfig_DeepCopy :: "('meta, ('meta, 'lmeta, 'sel, 'x) api_heap) copier \<Rightarrow> addr option \<Rightarrow> ('meta, 'lmeta, 'sel, 'x) api_heap \<Rightarrow> addr option \<times> ('meta, 'lmeta, 'sel, 'x) api_heap" where
  "OvsDpdkConfig_DeepCopy meta_copy = copy_ptr ConfigCell (cell_content is_ConfigCell un_Config) (OvsDpdkConfig_DeepCopyInto meta_copy)"

definition OvsDpdkConfigList_DeepCopyInto :: "('meta, ('meta, 'lmeta, 'sel, 'x) api_heap) copier \<Rightarrow> ('lmeta, ('meta, 'lmeta, 'sel, 'x) api_heap) copier \<Rightarrow> 'lmeta go_list \<Rightarrow> ('meta, 'lmeta, 'sel, 'x) api_heap \<Rightarrow> 'lmeta go_list \<times> ('meta, 'lmeta, 'sel, 'x) api_heap" where
  "OvsDpdkConfigList_DeepCopyInto meta_copy lmeta_copy x h =
     (case lmeta_copy (ls_ListMeta x) h of (meta, h1) \<Rightarrow>
     (case copy_slice ConfigsCell (cell_content is_ConfigsCell un_Configs) (OvsDpdkConfig_DeepCopyInto meta_copy) (ls_Items x) h1 of (items, h2) \<Rightarrow>
       (x\<lparr>ls_ListMeta := meta, ls_Items := items\<rparr>, h2)))"

definition OvsDpdkConfigList_DeepCopy :: "('meta, ('meta, 'lmeta, 'sel, 'x) api_heap) copier \<Rightarrow> ('lmeta, ('meta, 'lmeta, 'sel, 'x) api_heap) copier \<Rightarrow> addr option \<Rightarrow> ('meta, 'lmeta, 'sel, 'x) api_heap \<Rightarrow> addr option \<times> ('meta, 'lmeta, 'sel, 'x) api_heap" where
  "OvsDpdkConfigList_DeepCopy meta_copy lmeta_copy = copy_ptr ConfigListCell (cell_content is_ConfigListCell un_ConfigList) (OvsDpdkConfigList_DeepCopyInto meta_copy lmeta_copy)"

definition OvsDpdkResourcePolicySpec_DeepCopyInto :: "('sel, ('meta, 'lmeta, 'sel, 'x) api_heap) copier \<Rightarrow> go_OvsDpdkResourcePolicySpec \<Rightarrow> ('meta, 'lmeta, 'sel, 'x) api_heap \<Rightarrow> go_OvsDpdkResourcePolicySpec \<times> ('meta, 'lmeta, 'sel, 'x) api_heap" where
  "OvsDpdkResourcePolicySpec_DeepCopyInto sel_copy x h =
     (case copy_ptr SelectorCell (cell_content is_SelectorCell un_Selector) sel_copy (ps_NodeSelector x) h of (sel, h1) \<Rightarrow>
     (case copy_slice BridgesCell (cell_content is_BridgesCell un_Bridges) plain_copy (ps_Bridges x) h1 of (bridges, h2) \<Rightarrow>
       (x\<lparr>ps_NodeSelector := sel, ps_Bridges := bridges\<rparr>, h2)))"

definition OvsDpdkResourcePolicySpec_DeepCopy :: "('sel, ('meta, 'lmeta, 'sel, 'x) api_heap) copier \<Rightarrow> addr option \<Rightarrow> ('meta, 'lmeta, 'sel, 'x) api_heap \<Rightarrow> addr option \<times> ('meta, 'lmeta, 'sel, 'x) api_heap" where
  "OvsDpdkResourcePolicySpec_DeepCopy sel_copy = copy_ptr PolicySpecCell (cell_content is_PolicySpecCell un_PolicySpec) (OvsDpdkResourcePolicySpec_DeepCopyInto sel_copy)"

definition OvsDpdkResourcePolicy_DeepCopyInto :: "('meta, ('meta, 'lmeta, 'sel, 'x) api_heap) copier \<Rightarrow> ('sel, ('meta, 'lmeta, 'sel, 'x) api_heap) copier \<Rightarrow> 'meta go_OvsDpdkResourcePolicy \<Rightarrow> ('meta, 'lmeta, 'sel, 'x) api_heap \<Rightarrow> 'meta go_OvsDpdkResourcePolicy \<times> ('meta, 'lmeta, 'sel, 'x) api_heap" where
  "OvsDpdkResourcePolicy_DeepCopyInto meta_copy sel_copy x h =
     (case meta_copy (ob_ObjectMeta x) h of (meta, h1) \<Rightarrow>
     (case OvsDpdkResourcePolicySpec_DeepCopyInto sel_copy (ob_Spec x) h1 of (spec, h2) \<Rightarrow>
       (x\<lparr>ob_ObjectMeta := meta, ob_Spec := spec\<rparr>, h2)))"

definition OvsDpdkResourcePolicy_DeepCopy :: "('meta, ('meta, 'lmeta, 'sel, 'x) api_heap) copier \<Rightarrow> ('sel, ('meta, 'lmeta, 'sel, 'x) api_heap) copier \<Rightarrow> addr option \<Rightarrow> ('meta, 'lmeta, 'sel, 'x) api_heap \<Rightarrow> addr option \<times> ('meta, 'lmeta, 'sel, 'x) api_heap" where
  "OvsDpdkResourcePolicy_DeepCopy meta_copy sel_copy = copy_ptr PolicyCell (cell_content is_PolicyCell un_Policy) (OvsDpdkResourcePolicy_DeepCopyInto meta_copy sel_copy)"

definition OvsDpdkResourcePolicyList_DeepCopyInto :: "('meta, ('meta, 'lmeta, 'sel, 'x) api_heap) copier \<Rightarrow> ('lmeta, ('meta, 'lmeta, 'sel, 'x) api_heap) copier \<Rightarrow> ('sel, ('meta, 'lmeta, 'sel, 'x) api_heap) copier \<Rightarrow> 'lmeta go_list \<Rightarrow> ('meta, 'lmeta, 'sel, 'x) api_heap \<Rightarrow> 'lmeta go_list \<times> ('meta, 'lmeta, 'sel, 'x) api_heap" where
  "OvsDpdkResourcePolicyList_DeepCopyInto meta_copy lmeta_copy sel_copy x h =
     (case lmeta_copy (ls_ListMeta x) h of (meta, h1) \<Rightarrow>
     (case copy_slice PoliciesCell (cell_content is_PoliciesCell un_Policies) (OvsDpdkResourcePolicy_DeepCopyInto meta_copy sel_copy) (ls_Items x) h1
      of (items, h2) \<Rightarrow> (x\<lparr>ls_ListMeta := meta, ls_Items := items\<rparr>, h2)))"

definition OvsDpdkResourcePolicyList_DeepCopy :: "('meta, ('meta, 'lmeta, 'sel, 'x) api_heap) copier \<Rightarrow> ('lmeta, ('meta, 'lmeta, 'sel, 'x) api_heap) copier \<Rightarrow> ('sel, ('meta, 'lmeta, 'sel, 'x) api_heap) copier \<Rightarrow> addr option \<Rightarrow> ('meta, 'lmeta, 'sel, 'x) api_heap \<Rightarrow> addr option \<times> ('meta, 'lmeta, 'sel, 'x) api_heap" where
  "OvsDpdkResourcePolicyList_DeepCopy meta_copy lmeta_copy sel_copy = copy_ptr PolicyListCell (cell_content is_PolicyListCell un_PolicyList) (OvsDpdkResourcePolicyList_DeepCopyInto meta_copy lmeta_copy sel_copy)"

text \<open>
  \<^verbatim>\<open>DeepCopyObject\<close> gives the copy as a \<^verbatim>\<open>runtime.Object\<close>. An interface holds the type with the pointer;
  for a nil receiver the interface itself is nil (\<open>None\<close>), not a typed nil pointer.
\<close>

datatype Object = ConfigObject addr | ConfigListObject addr | PolicyObject addr | PolicyListObject addr

definition as_object :: "(addr \<Rightarrow> Object) \<Rightarrow> addr option \<times> 'h \<Rightarrow> Object option \<times> 'h" where
  "as_object con r = (case r of (Some c, h) \<Rightarrow> (Some (con c), h) | (None, h) \<Rightarrow> (None, h))"

definition OvsDpdkConfig_DeepCopyObject :: "('meta, ('meta, 'lmeta, 'sel, 'x) api_heap) copier \<Rightarrow> addr option \<Rightarrow> ('meta, 'lmeta, 'sel, 'x) api_heap \<Rightarrow> Object option \<times> ('meta, 'lmeta, 'sel, 'x) api_heap" where
  "OvsDpdkConfig_DeepCopyObject meta_copy p h = as_object ConfigObject (OvsDpdkConfig_DeepCopy meta_copy p h)"

definition OvsDpdkConfigList_DeepCopyObject :: "('meta, ('meta, 'lmeta, 'sel, 'x) api_heap) copier \<Rightarrow> ('lmeta, ('meta, 'lmeta, 'sel, 'x) api_heap) copier \<Rightarrow> addr option \<Rightarrow> ('meta, 'lmeta, 'sel, 'x) api_heap \<Rightarrow> Object option \<times> ('meta, 'lmeta, 'sel, 'x) api_heap" where
  "OvsDpdkConfigList_DeepCopyObject meta_copy lmeta_copy p h = as_object ConfigListObject (OvsDpdkConfigList_DeepCopy meta_copy lmeta_copy p h)"

definition OvsDpdkResourcePolicy_DeepCopyObject :: "('meta, ('meta, 'lmeta, 'sel, 'x) api_heap) copier \<Rightarrow> ('sel, ('meta, 'lmeta, 'sel, 'x) api_heap) copier \<Rightarrow> addr option \<Rightarrow> ('meta, 'lmeta, 'sel, 'x) api_heap \<Rightarrow> Object option \<times> ('meta, 'lmeta, 'sel, 'x) api_heap" where
  "OvsDpdkResourcePolicy_DeepCopyObject meta_copy sel_copy p h = as_object PolicyObject (OvsDpdkResourcePolicy_DeepCopy meta_copy sel_copy p h)"

definition OvsDpdkResourcePolicyList_DeepCopyObject :: "('meta, ('meta, 'lmeta, 'sel, 'x) api_heap) copier \<Rightarrow> ('lmeta, ('meta, 'lmeta, 'sel, 'x) api_heap) copier \<Rightarrow> ('sel, ('meta, 'lmeta, 'sel, 'x) api_heap) copier \<Rightarrow> addr option \<Rightarrow> ('meta, 'lmeta, 'sel, 'x) api_heap \<Rightarrow> Object option \<times> ('meta, 'lmeta, 'sel, 'x) api_heap" where
  "OvsDpdkResourcePolicyList_DeepCopyObject meta_copy lmeta_copy sel_copy p h = as_object PolicyListObject (OvsDpdkResourcePolicyList_DeepCopy meta_copy lmeta_copy sel_copy p h)"

section \<open>Values\<close>

text \<open>What a struct in the heap says, and the cells it reaches.\<close>

abbreviation "label_val \<equiv> val_ptr (cell_content is_StringCell un_String) plain_val"
abbreviation "label_uses \<equiv> uses_ptr (cell_content is_StringCell un_String) plain_uses"
abbreviation "users_val \<equiv> val_slice (cell_content is_StringsCell un_Strings) plain_val"
abbreviation "users_uses \<equiv> uses_slice (cell_content is_StringsCell un_Strings) plain_uses"

definition vhost_val :: "('meta, 'lmeta, 'sel, 'x) api_heap \<Rightarrow> go_VhostUserSpec \<Rightarrow> (string option, string list option) vhost_struct option" where
  "vhost_val = val_fields (\<lambda>x. (vs_SelinuxLabel x, vs_ACLUsers x))
     (\<lambda>x (l, u). \<lparr>vs_ContainerRootPath = vs_ContainerRootPath x, vs_User = vs_User x, vs_Group = vs_Group x,
                   vs_SelinuxLabel = l, vs_ACLUsers = u\<rparr>)
     (val_pair label_val users_val)"

definition vhost_uses :: "('meta, 'lmeta, 'sel, 'x) api_heap \<Rightarrow> go_VhostUserSpec \<Rightarrow> addr set" where
  "vhost_uses h x = uses_pair label_uses users_uses h (vs_SelinuxLabel x, vs_ACLUsers x)"

definition config_val ::
  "('meta, 'lmeta, 'sel, 'x) api_heap \<Rightarrow> go_OvsDpdkConfigSpec \<Rightarrow> (string option, string list option) vhost_struct option config_struct option" where
  "config_val = val_fields cs_VhostUser (\<lambda>x v. \<lparr>cs_VhostUser = v\<rparr>) (val_ptr (cell_content is_VhostCell un_Vhost) vhost_val)"

definition config_uses :: "('meta, 'lmeta, 'sel, 'x) api_heap \<Rightarrow> go_OvsDpdkConfigSpec \<Rightarrow> addr set" where
  "config_uses h x = uses_ptr (cell_content is_VhostCell un_Vhost) vhost_uses h (cs_VhostUser x)"

definition policy_val ::
  "(('meta, 'lmeta, 'sel, 'x) api_heap \<Rightarrow> 'sel \<Rightarrow> 'selval option) \<Rightarrow> ('meta, 'lmeta, 'sel, 'x) api_heap \<Rightarrow> go_OvsDpdkResourcePolicySpec \<Rightarrow> ('selval option, BridgeSpec list option) policy_struct option" where
  "policy_val sel_val = val_fields (\<lambda>x. (ps_NodeSelector x, ps_Bridges x)) (\<lambda>x (s, b). \<lparr>ps_NodeSelector = s, ps_Bridges = b\<rparr>)
     (val_pair (val_ptr (cell_content is_SelectorCell un_Selector) sel_val) (val_slice (cell_content is_BridgesCell un_Bridges) plain_val))"

definition policy_uses :: "(('meta, 'lmeta, 'sel, 'x) api_heap \<Rightarrow> 'sel \<Rightarrow> addr set) \<Rightarrow> ('meta, 'lmeta, 'sel, 'x) api_heap \<Rightarrow> go_OvsDpdkResourcePolicySpec \<Rightarrow> addr set" where
  "policy_uses sel_uses h x =
     uses_pair (uses_ptr (cell_content is_SelectorCell un_Selector) sel_uses) (uses_slice (cell_content is_BridgesCell un_Bridges) plain_uses) h
       (ps_NodeSelector x, ps_Bridges x)"

definition object_val ::
  "('h \<Rightarrow> 'meta \<Rightarrow> 'mval option) \<Rightarrow> ('h \<Rightarrow> 'spec \<Rightarrow> 'sval option) \<Rightarrow> 'h \<Rightarrow> ('meta, 'spec) object_struct \<Rightarrow>
   ('mval, 'sval) object_struct option" where
  "object_val meta_val spec_val = val_fields (\<lambda>x. (ob_ObjectMeta x, ob_Spec x))
     (\<lambda>x (m, s). \<lparr>ob_TypeMeta = ob_TypeMeta x, ob_ObjectMeta = m, ob_Spec = s\<rparr>) (val_pair meta_val spec_val)"

definition object_uses ::
  "('h \<Rightarrow> 'meta \<Rightarrow> addr set) \<Rightarrow> ('h \<Rightarrow> 'spec \<Rightarrow> addr set) \<Rightarrow> 'h \<Rightarrow> ('meta, 'spec) object_struct \<Rightarrow> addr set" where
  "object_uses meta_uses spec_uses h x = uses_pair meta_uses spec_uses h (ob_ObjectMeta x, ob_Spec x)"

definition list_val ::
  "('h \<Rightarrow> 'lmeta \<Rightarrow> 'lval option) \<Rightarrow> ('h \<Rightarrow> 'items \<Rightarrow> 'ival option) \<Rightarrow> 'h \<Rightarrow> ('lmeta, 'items) list_struct \<Rightarrow>
   ('lval, 'ival) list_struct option" where
  "list_val lmeta_val items_val = val_fields (\<lambda>x. (ls_ListMeta x, ls_Items x))
     (\<lambda>x (m, i). \<lparr>ls_TypeMeta = ls_TypeMeta x, ls_ListMeta = m, ls_Items = i\<rparr>) (val_pair lmeta_val items_val)"

definition list_uses ::
  "('h \<Rightarrow> 'lmeta \<Rightarrow> addr set) \<Rightarrow> ('h \<Rightarrow> 'items \<Rightarrow> addr set) \<Rightarrow> 'h \<Rightarrow> ('lmeta, 'items) list_struct \<Rightarrow> addr set" where
  "list_uses lmeta_uses items_uses h x = uses_pair lmeta_uses items_uses h (ls_ListMeta x, ls_Items x)"

section \<open>Every copy keeps the contract\<close>

lemmas copy_eqs = copy_fields_def copy_pair_def BridgeSpec_DeepCopyInto_def UserGroupID_DeepCopyInto_def plain_copy_def

lemma cell_content_box [simp]: "is_kind (box x) \<Longrightarrow> un (box x) = x \<Longrightarrow> cell_content is_kind un (box x) = Some x"
  by (simp add: cell_content_def)

lemma deep_copy_plain: "(\<And>x h. copy x h = (x, h)) \<Longrightarrow> deep_copy copy plain_val plain_uses"
  by unfold_locales (auto simp: plain_val_def plain_uses_def)

interpretation bridge: deep_copy BridgeSpec_DeepCopyInto plain_val plain_uses
  by (rule deep_copy_plain) (simp add: BridgeSpec_DeepCopyInto_def)

interpretation user_group: deep_copy UserGroupID_DeepCopyInto plain_val plain_uses
  by (rule deep_copy_plain) (simp add: UserGroupID_DeepCopyInto_def)

lemma VhostUserSpec_DeepCopyInto_fields: "VhostUserSpec_DeepCopyInto =
  copy_fields (\<lambda>x. (vs_SelinuxLabel x, vs_ACLUsers x)) (\<lambda>x (l, u). x\<lparr>vs_SelinuxLabel := l, vs_ACLUsers := u\<rparr>)
    (copy_pair (copy_ptr StringCell (cell_content is_StringCell un_String) plain_copy)
               (copy_slice StringsCell (cell_content is_StringsCell un_Strings) plain_copy))"
  by (intro ext) (simp add: VhostUserSpec_DeepCopyInto_def copy_eqs split: prod.splits)

interpretation vhost: deep_copy VhostUserSpec_DeepCopyInto vhost_val vhost_uses
  unfolding VhostUserSpec_DeepCopyInto_fields vhost_val_def vhost_uses_def [abs_def]
  by (rule deep_copy_fields) (auto intro!: deep_copy_pair deep_copy_ptr deep_copy_slice plain.deep_copy_axioms)

lemma OvsDpdkConfigSpec_DeepCopyInto_fields: "OvsDpdkConfigSpec_DeepCopyInto =
  copy_fields cs_VhostUser (\<lambda>x v. x\<lparr>cs_VhostUser := v\<rparr>) (copy_ptr VhostCell (cell_content is_VhostCell un_Vhost) VhostUserSpec_DeepCopyInto)"
  by (intro ext) (simp add: OvsDpdkConfigSpec_DeepCopyInto_def copy_eqs split: prod.splits)

interpretation config_spec: deep_copy OvsDpdkConfigSpec_DeepCopyInto config_val config_uses
  unfolding OvsDpdkConfigSpec_DeepCopyInto_fields config_val_def config_uses_def [abs_def]
  by (rule deep_copy_fields) (auto intro!: deep_copy_ptr vhost.deep_copy_axioms)

lemma deep_copy_object:
  fixes meta_copy :: "('a, 'c go_heap) copier" and spec_copy :: "('b, 'c go_heap) copier"
  assumes "deep_copy meta_copy meta_val meta_uses" and "deep_copy spec_copy spec_val spec_uses"
  shows "deep_copy (\<lambda>x h. case meta_copy (ob_ObjectMeta x) h of (meta, h1) \<Rightarrow> (case spec_copy (ob_Spec x) h1 of (spec, h2) \<Rightarrow>
             (x\<lparr>ob_ObjectMeta := meta, ob_Spec := spec\<rparr>, h2)))
           (object_val meta_val spec_val) (object_uses meta_uses spec_uses)"
proof -
  have eq: "(\<lambda>(x :: ('a, 'b) object_struct) h. case meta_copy (ob_ObjectMeta x) h of (meta, h1) \<Rightarrow> (case spec_copy (ob_Spec x) h1 of (spec, h2) \<Rightarrow>
            (x\<lparr>ob_ObjectMeta := meta, ob_Spec := spec\<rparr>, h2))) =
    copy_fields (\<lambda>x. (ob_ObjectMeta x, ob_Spec x)) (\<lambda>x (m, s). x\<lparr>ob_ObjectMeta := m, ob_Spec := s\<rparr>) (copy_pair meta_copy spec_copy)"
    by (intro ext) (simp add: copy_eqs split: prod.splits)
  show ?thesis unfolding eq object_val_def object_uses_def [abs_def]
    by (rule deep_copy_fields) (auto intro!: deep_copy_pair assms)
qed

lemma deep_copy_list:
  fixes lmeta_copy :: "('a, 'c go_heap) copier" and items_copy :: "('b, 'c go_heap) copier"
  assumes "deep_copy lmeta_copy lmeta_val lmeta_uses" and "deep_copy items_copy items_val items_uses"
  shows "deep_copy (\<lambda>x h. case lmeta_copy (ls_ListMeta x) h of (meta, h1) \<Rightarrow> (case items_copy (ls_Items x) h1 of (items, h2) \<Rightarrow>
             (x\<lparr>ls_ListMeta := meta, ls_Items := items\<rparr>, h2)))
           (list_val lmeta_val items_val) (list_uses lmeta_uses items_uses)"
proof -
  have eq: "(\<lambda>(x :: ('a, 'b) list_struct) h. case lmeta_copy (ls_ListMeta x) h of (meta, h1) \<Rightarrow> (case items_copy (ls_Items x) h1 of (items, h2) \<Rightarrow>
            (x\<lparr>ls_ListMeta := meta, ls_Items := items\<rparr>, h2))) =
    copy_fields (\<lambda>x. (ls_ListMeta x, ls_Items x)) (\<lambda>x (m, s). x\<lparr>ls_ListMeta := m, ls_Items := s\<rparr>) (copy_pair lmeta_copy items_copy)"
    by (intro ext) (simp add: copy_eqs split: prod.splits)
  show ?thesis unfolding eq list_val_def list_uses_def [abs_def]
    by (rule deep_copy_fields) (auto intro!: deep_copy_pair assms)
qed

text \<open>The copies of the library are assumed to keep the contract; then the copies built on them do.\<close>

locale api_library =
  meta: deep_copy meta_copy meta_val meta_uses + lmeta: deep_copy lmeta_copy lmeta_val lmeta_uses +
  sel: deep_copy sel_copy sel_val sel_uses
  for meta_copy :: "('meta, ('meta, 'lmeta, 'sel, 'x) api_heap) copier" and meta_val :: "('meta, 'lmeta, 'sel, 'x) api_heap \<Rightarrow> 'meta \<Rightarrow> 'mval option" and meta_uses
    and lmeta_copy :: "('lmeta, ('meta, 'lmeta, 'sel, 'x) api_heap) copier" and lmeta_val :: "('meta, 'lmeta, 'sel, 'x) api_heap \<Rightarrow> 'lmeta \<Rightarrow> 'lval option" and lmeta_uses
    and sel_copy :: "('sel, ('meta, 'lmeta, 'sel, 'x) api_heap) copier" and sel_val :: "('meta, 'lmeta, 'sel, 'x) api_heap \<Rightarrow> 'sel \<Rightarrow> 'selval option" and sel_uses

sublocale api_library \<subseteq> config: deep_copy "OvsDpdkConfig_DeepCopyInto meta_copy" "object_val meta_val config_val" "object_uses meta_uses config_uses"
  unfolding OvsDpdkConfig_DeepCopyInto_def [abs_def]
  by (rule deep_copy_object [OF meta.deep_copy_axioms config_spec.deep_copy_axioms])

sublocale api_library \<subseteq> config_list: deep_copy "OvsDpdkConfigList_DeepCopyInto meta_copy lmeta_copy"
    "list_val lmeta_val (val_slice (cell_content is_ConfigsCell un_Configs) (object_val meta_val config_val))"
    "list_uses lmeta_uses (uses_slice (cell_content is_ConfigsCell un_Configs) (object_uses meta_uses config_uses))"
  unfolding OvsDpdkConfigList_DeepCopyInto_def [abs_def]
  by (rule deep_copy_list [OF lmeta.deep_copy_axioms deep_copy_slice [OF config.deep_copy_axioms]]) simp

sublocale api_library \<subseteq> policy_spec: deep_copy "OvsDpdkResourcePolicySpec_DeepCopyInto sel_copy" "policy_val sel_val" "policy_uses sel_uses"
proof -
  have eq: "OvsDpdkResourcePolicySpec_DeepCopyInto sel_copy =
    copy_fields (\<lambda>x. (ps_NodeSelector x, ps_Bridges x)) (\<lambda>x (s, b). x\<lparr>ps_NodeSelector := s, ps_Bridges := b\<rparr>)
      (copy_pair (copy_ptr SelectorCell (cell_content is_SelectorCell un_Selector) sel_copy)
                 (copy_slice BridgesCell (cell_content is_BridgesCell un_Bridges) plain_copy))"
    by (intro ext) (simp add: OvsDpdkResourcePolicySpec_DeepCopyInto_def copy_eqs split: prod.splits)
  show "deep_copy (OvsDpdkResourcePolicySpec_DeepCopyInto sel_copy) (policy_val sel_val) (policy_uses sel_uses)"
    unfolding eq policy_val_def policy_uses_def [abs_def]
    by (rule deep_copy_fields) (auto intro!: deep_copy_pair deep_copy_ptr deep_copy_slice sel.deep_copy_axioms plain.deep_copy_axioms)
qed

sublocale api_library \<subseteq> policy: deep_copy "OvsDpdkResourcePolicy_DeepCopyInto meta_copy sel_copy"
    "object_val meta_val (policy_val sel_val)" "object_uses meta_uses (policy_uses sel_uses)"
  unfolding OvsDpdkResourcePolicy_DeepCopyInto_def [abs_def]
  by (rule deep_copy_object [OF meta.deep_copy_axioms policy_spec.deep_copy_axioms])

sublocale api_library \<subseteq> policy_list: deep_copy "OvsDpdkResourcePolicyList_DeepCopyInto meta_copy lmeta_copy sel_copy"
    "list_val lmeta_val (val_slice (cell_content is_PoliciesCell un_Policies) (object_val meta_val (policy_val sel_val)))"
    "list_uses lmeta_uses (uses_slice (cell_content is_PoliciesCell un_Policies) (object_uses meta_uses (policy_uses sel_uses)))"
  unfolding OvsDpdkResourcePolicyList_DeepCopyInto_def [abs_def]
  by (rule deep_copy_list [OF lmeta.deep_copy_axioms deep_copy_slice [OF policy.deep_copy_axioms]]) simp

section \<open>Copies behind pointers\<close>

text \<open>
  The object at \<open>b\<close> in \<open>h'\<close> is a copy of the one at \<open>a\<close> in \<open>h\<close> that shares nothing with it: the old
  cells are as they were, later changes of old cells do not show in the copy, and later
  changes of new cells do not show in the original.
\<close>

definition detached :: "('c go_heap \<Rightarrow> addr option \<Rightarrow> 'v option) \<Rightarrow> 'c go_heap \<Rightarrow> addr \<Rightarrow> 'c go_heap \<Rightarrow> addr \<Rightarrow> bool" where
  "detached val h a h' b \<longleftrightarrow>
     grows h h' \<and> next_addr h \<le> b \<and> val h' (Some b) = val h (Some a) \<and>
     (\<forall>h''. agree_on {next_addr h..} h' h'' \<longrightarrow> val h'' (Some b) = val h (Some a)) \<and>
     (\<forall>h''. agree_on {..<next_addr h} h' h'' \<longrightarrow> val h'' (Some a) = val h (Some a))"

lemma copy_ptr_detached:
  assumes c: "deep_copy copy val uses" and box: "\<And>x. unbox (box x) = Some x"
    and h: "heap_ok h" and v: "val_ptr unbox val h (Some a) \<noteq> None"
  shows "\<exists>b h'. copy_ptr box unbox copy (Some a) h = (Some b, h') \<and> detached (val_ptr unbox val) h a h' b"
proof -
  note d = deep_copy_ptr [OF c, of unbox box, OF box]
  obtain v' where v': "val_ptr unbox val h (Some a) = Some v'" using v by blast
  then obtain x where x: "Option.bind (cells h a) unbox = Some x"
    by (auto simp: val_ptr_def val_ref_Some)
  obtain y h2 where y: "copy x (snd (new_cell (box x) h)) = (y, h2)" by fastforce
  define h' where "h' = write_cell (next_addr h) (box y) h2"
  have r: "copy_ptr box unbox copy (Some a) h = (Some (next_addr h), h')"
    using y by (simp add: copy_ptr_def copy_ref_def x new_cell_def h'_def)
  note i = deep_copy.independent [OF d h v' r] and g = deep_copy.copied [OF d h v' r]
  have "detached (val_ptr unbox val) h a h' (next_addr h)"
    unfolding detached_def v' using g i by simp
  with r show ?thesis by blast
qed

abbreviation "policies_val meta_val lmeta_val sel_val \<equiv> val_ptr (cell_content is_PolicyListCell un_PolicyList)
  (list_val lmeta_val (val_slice (cell_content is_PoliciesCell un_Policies) (object_val meta_val (policy_val sel_val))))"

abbreviation "configs_val meta_val lmeta_val \<equiv> val_ptr (cell_content is_ConfigListCell un_ConfigList)
  (list_val lmeta_val (val_slice (cell_content is_ConfigsCell un_Configs) (object_val meta_val config_val)))"

context api_library
begin

lemma policies_detached:
  assumes "heap_ok h" and "policies_val meta_val lmeta_val sel_val h (Some a) \<noteq> None"
  shows "\<exists>b h'. OvsDpdkResourcePolicyList_DeepCopyObject meta_copy lmeta_copy sel_copy (Some a) h = (Some (PolicyListObject b), h') \<and>
           detached (policies_val meta_val lmeta_val sel_val) h a h' b"
  using copy_ptr_detached [OF policy_list.deep_copy_axioms _ assms, where box = PolicyListCell]
  by (auto simp: OvsDpdkResourcePolicyList_DeepCopyObject_def OvsDpdkResourcePolicyList_DeepCopy_def as_object_def)

lemma configs_detached:
  assumes "heap_ok h" and "configs_val meta_val lmeta_val h (Some a) \<noteq> None"
  shows "\<exists>b h'. OvsDpdkConfigList_DeepCopyObject meta_copy lmeta_copy (Some a) h = (Some (ConfigListObject b), h') \<and>
           detached (configs_val meta_val lmeta_val) h a h' b"
  using copy_ptr_detached [OF config_list.deep_copy_axioms _ assms, where box = ConfigListCell]
  by (auto simp: OvsDpdkConfigList_DeepCopyObject_def OvsDpdkConfigList_DeepCopy_def as_object_def)

end

section \<open>The configuration behind a pointer\<close>

text \<open>
  \<^verbatim>\<open>updateConfig\<close> and \<^verbatim>\<open>UpdateConfig\<close> as they run on the heap; the result is the new pointer
  \<^verbatim>\<open>d.vhostUserConfig\<close>. Reading a field through a nil pointer panics.
\<close>

definition go_updateConfig :: "addr option \<Rightarrow> ('meta, 'lmeta, 'sel, 'x) api_heap \<Rightarrow> addr option res \<times> ('meta, 'lmeta, 'sel, 'x) api_heap" where
  "go_updateConfig vhostUser h =
     (case VhostUserSpec_DeepCopy vhostUser h of
        (None, h1) \<Rightarrow> (Panic ''invalid memory address or nil pointer dereference'', h1)
      | (Some a, h1) \<Rightarrow>
          (case cells h1 a of
             Some (VhostCell v) \<Rightarrow>
               (Ok (Some a),
                if vs_ContainerRootPath v = [] then write_cell a (VhostCell (v\<lparr>vs_ContainerRootPath := DefaultContainerRootPath\<rparr>)) h1
                else h1)
           | _ \<Rightarrow> (Panic ''invalid memory address or nil pointer dereference'', h1)))"

definition go_UpdateConfig :: "addr option \<Rightarrow> ('meta, 'lmeta, 'sel, 'x) api_heap \<Rightarrow> addr option res \<times> ('meta, 'lmeta, 'sel, 'x) api_heap" where
  "go_UpdateConfig spec h =
     (case spec of
        None \<Rightarrow> (Ok None, h)
      | Some a \<Rightarrow>
          (case cells h a of
             Some (ConfigSpecCell s) \<Rightarrow> (if cs_VhostUser s = None then (Ok None, h) else go_updateConfig (cs_VhostUser s) h)
           | _ \<Rightarrow> (Panic ''invalid memory address or nil pointer dereference'', h)))"

text \<open>What the pointers stand for: a nil slice of users is an empty list.\<close>

definition vhost_of :: "(string option, string list option) vhost_struct \<Rightarrow> VhostUserSpec" where
  "vhost_of v = \<lparr>ContainerRootPath = vs_ContainerRootPath v, vu_User = vs_User v, vu_Group = vs_Group v,
     SelinuxLabel = vs_SelinuxLabel v, ACLUsers = (case vs_ACLUsers v of None \<Rightarrow> [] | Some us \<Rightarrow> us)\<rparr>"

definition read_config :: "('meta, 'lmeta, 'sel, 'x) api_heap \<Rightarrow> addr option \<Rightarrow> VhostUserSpec option option" where
  "read_config h p = map_option (map_option vhost_of) (val_ptr (cell_content is_VhostCell un_Vhost) vhost_val h p)"

definition read_spec :: "('meta, 'lmeta, 'sel, 'x) api_heap \<Rightarrow> addr option \<Rightarrow> OvsDpdkConfigSpec option option" where
  "read_spec h p = map_option (map_option (\<lambda>s. \<lparr>VhostUser = map_option vhost_of (cs_VhostUser s)\<rparr>))
     (val_ptr (cell_content is_ConfigSpecCell un_ConfigSpec) config_val h p)"

abbreviation "vhost_ptr_val \<equiv> val_ptr (cell_content is_VhostCell un_Vhost) vhost_val"
abbreviation "vhost_ptr_uses \<equiv> uses_ptr (cell_content is_VhostCell un_Vhost) vhost_uses"

interpretation vhost_ptr: deep_copy VhostUserSpec_DeepCopy vhost_ptr_val vhost_ptr_uses
  unfolding VhostUserSpec_DeepCopy_def by (rule deep_copy_ptr [OF vhost.deep_copy_axioms]) simp

lemma cell_content_Some: "cell_content is_kind un c = Some x \<longleftrightarrow> is_kind c \<and> un c = x"
  by (auto simp: cell_content_def)

lemma vhost_ptr_val_Some: "vhost_ptr_val h (Some a) = Some v \<longleftrightarrow>
  (\<exists>g u. cells h a = Some (VhostCell g) \<and> vhost_val h g = Some u \<and> v = Some u)"
  by (auto simp: val_ptr_def val_ref_Some cell_content_Some is_VhostCell_def)

text \<open>A struct does not reach the cell that holds it: the cells it reaches are of other kinds.\<close>

lemma vhost_uses_other:
  assumes "vhost_val h g = Some u" and "cells h a = Some (VhostCell g')"
  shows "a \<notin> vhost_uses h g"
proof -
  obtain l us where lu: "label_val h (vs_SelinuxLabel g) = Some l" "users_val h (vs_ACLUsers g) = Some us"
    using assms(1) by (auto simp: vhost_val_def val_fields_def val_pair_Some)
  have "a \<notin> label_uses h (vs_SelinuxLabel g)"
    using lu(1) assms(2) by (cases "vs_SelinuxLabel g") (auto simp: val_ptr_def uses_ptr_def val_ref_Some cell_content_Some plain_uses_def)
  moreover have "a \<notin> users_uses h (vs_ACLUsers g)"
    using lu(2) assms(2)
    by (cases "vs_ACLUsers g") (auto simp: val_slice_def uses_slice_def val_ref_Some window_def cell_content_Some plain_uses_def uses_elems_def
        split: option.splits if_splits)
  ultimately show ?thesis by (simp add: vhost_uses_def uses_pair_def)
qed

lemma vhost_val_path:
  "vhost_val h (g\<lparr>vs_ContainerRootPath := r\<rparr>) = map_option (\<lambda>v. v\<lparr>vs_ContainerRootPath := r\<rparr>) (vhost_val h g)"
  "vhost_uses h (g\<lparr>vs_ContainerRootPath := r\<rparr>) = vhost_uses h g"
  by (auto simp: vhost_val_def vhost_uses_def val_fields_def option.map_comp intro!: map_option_cong)

lemma go_updateConfig_ok:
  assumes h: "heap_ok h" and v: "vhost_ptr_val h (Some a) = Some (Some v)"
  shows "\<exists>b h'. go_updateConfig (Some a) h = (Ok (Some b), h') \<and> grows h h' \<and> vhost_ptr_uses h' (Some b) \<subseteq> {next_addr h..} \<and>
    vhost_ptr_val h' (Some b) =
      Some (Some (if vs_ContainerRootPath v = [] then v\<lparr>vs_ContainerRootPath := DefaultContainerRootPath\<rparr> else v))"
proof -
  obtain b h1 where c: "VhostUserSpec_DeepCopy (Some a) h = (Some b, h1)"
    using copy_ptr_detached [OF vhost.deep_copy_axioms _ h, where box = VhostCell and unbox = "cell_content is_VhostCell un_Vhost" and a = a] v
    by (auto simp: VhostUserSpec_DeepCopy_def)
  note d = vhost_ptr.copied [OF h v c]
  then obtain g where g: "cells h1 b = Some (VhostCell g)" "vhost_val h1 g = Some v" by (auto simp: vhost_ptr_val_Some)
  have p: "vs_ContainerRootPath g = vs_ContainerRootPath v"
    using g(2) by (auto simp: vhost_val_def val_fields_def)
  have "b \<in> vhost_ptr_uses h1 (Some b)" by (simp add: uses_ptr_def uses_ref_def)
  then have b: "next_addr h \<le> b" "b < next_addr h1" using d by auto
  show ?thesis
  proof (cases "vs_ContainerRootPath v = []")
    case False
    with d show ?thesis by (intro exI [of _ b] exI [of _ h1]) (auto simp: go_updateConfig_def c g p)
  next
    case True
    define g' where "g' = g\<lparr>vs_ContainerRootPath := DefaultContainerRootPath\<rparr>"
    define h' where "h' = write_cell b (VhostCell g') h1"
    have "agree_on (vhost_uses h1 g) h1 h'"
      using vhost_uses_other [OF g(2,1)] by (auto simp: agree_on_def h'_def write_cell_def)
    then have l: "vhost_val h' g' = vhost_val h1 g'" "vhost_uses h' g' = vhost_uses h1 g"
      using vhost.local [of h1 g' h'] by (simp_all add: g'_def vhost_val_path(2))
    have cb: "cells h' b = Some (VhostCell g')" by (simp add: h'_def write_cell_def)
    have "vhost_ptr_uses h1 (Some b) = insert b (vhost_uses h1 g)" "vhost_ptr_uses h' (Some b) = insert b (vhost_uses h1 g)"
      using g(1) cb l(2) by (simp_all add: uses_ptr_def uses_ref_def)
    moreover have "grows h h'" using d b by (auto simp: grows_def heap_ok_def h'_def write_cell_def)
    moreover have "vhost_ptr_val h' (Some b) = Some (Some (v\<lparr>vs_ContainerRootPath := DefaultContainerRootPath\<rparr>))"
      using cb l(1) g(2) by (simp add: vhost_ptr_val_Some g'_def vhost_val_path)
    moreover have "go_updateConfig (Some a) h = (Ok (Some b), h')"
      using True by (simp add: go_updateConfig_def c g p h'_def g'_def)
    ultimately show ?thesis using True d by (intro exI [of _ b] exI [of _ h']) auto
  qed
qed

lemma read_spec_cases:
  assumes "read_spec h p = Some s"
  obtains (missing) "p = None" "s = None"
    | (given) a g w where "p = Some a" "cells h a = Some (ConfigSpecCell g)" "vhost_ptr_val h (cs_VhostUser g) = Some w"
        "s = Some \<lparr>VhostUser = map_option vhost_of w\<rparr>"
proof (cases p)
  case None
  then show thesis using assms missing by (auto simp: read_spec_def val_ptr_def)
next
  case (Some a)
  then obtain c g k where "cells h a = Some c" "cell_content is_ConfigSpecCell un_ConfigSpec c = Some g" "config_val h g = Some k"
    "s = Some \<lparr>VhostUser = map_option vhost_of (cs_VhostUser k)\<rparr>"
    using assms by (auto simp: read_spec_def val_ptr_def [of "cell_content is_ConfigSpecCell un_ConfigSpec"] val_ref_Some)
  then show thesis
    using given [OF Some, of g "cs_VhostUser k"] by (auto simp: cell_content_Some is_ConfigSpecCell_def config_val_def val_fields_def)
qed

lemma vhost_ptr_val_nil: "vhost_ptr_val h p = Some None \<longleftrightarrow> p = None"
  by (cases p) (auto simp: vhost_ptr_val_Some val_ptr_def [of "cell_content is_VhostCell un_Vhost"] val_ref_Some)

text \<open>
  C30. \<open>UpdateConfig\<close> on the heap does what the model of the device state says, whatever the
  state \<open>d\<close>: the new \<^verbatim>\<open>d.vhostUserConfig\<close> reads as the configuration the model keeps, with the
  default path filled in only in the copy. No cell that existed changes, so the reconciler's
  object and every configuration that \<^verbatim>\<open>GetVhostUserConfig\<close> handed out before read as they did;
  and what is later written to those cells does not reach the new configuration.
\<close>

theorem UpdateConfig_detached:
  assumes h: "heap_ok h" and s: "read_spec h p = Some s"
  shows "\<exists>q h'. go_UpdateConfig p h = (Ok q, h') \<and> grows h h' \<and>
    read_config h' q = Some (vhostUserConfig (snd (UpdateConfig s d))) \<and>
    (\<forall>r c. read_config h r = Some c \<longrightarrow> read_config h' r = Some c) \<and>
    (\<forall>h''. agree_on {next_addr h..} h' h'' \<longrightarrow> read_config h'' q = read_config h' q)"
proof -
  have old: "read_config h' r = Some c" if "grows h h'" "read_config h r = Some c" for h' r c
    using that(2) vhost_ptr.kept(1) [OF h _ that(1)] by (auto simp: read_config_def)
  have cleared: ?thesis if "go_UpdateConfig p h = (Ok None, h)" "vhostUserConfig (snd (UpdateConfig s d)) = None"
    using that h old by (auto simp: read_config_def val_ptr_def)
  show ?thesis using s
  proof (cases rule: read_spec_cases)
    case missing
    then show ?thesis by (intro cleared) (simp_all add: go_UpdateConfig_def UpdateConfig_def clearConfig_def)
  next
    case (given a g w)
    show ?thesis
    proof (cases w)
      case None
      with given show ?thesis
        by (intro cleared) (simp_all add: vhost_ptr_val_nil go_UpdateConfig_def UpdateConfig_def clearConfig_def)
    next
      case (Some v)
      with given(3) obtain b where b: "cs_VhostUser g = Some b" by (cases "cs_VhostUser g") (auto simp: vhost_ptr_val_nil val_ptr_def)
      with given(3) Some have v: "vhost_ptr_val h (Some b) = Some (Some v)" by simp
      from go_updateConfig_ok [OF h v] obtain q h' where q: "go_updateConfig (Some b) h = (Ok (Some q), h')" "grows h h'"
        "vhost_ptr_uses h' (Some q) \<subseteq> {next_addr h..}"
        "vhost_ptr_val h' (Some q) = Some (Some (if vs_ContainerRootPath v = [] then v\<lparr>vs_ContainerRootPath := DefaultContainerRootPath\<rparr> else v))"
        by blast
      have "vhost_ptr_val h'' (Some q) = vhost_ptr_val h' (Some q)" if "agree_on {next_addr h..} h' h''" for h''
        using vhost_ptr.local [OF agree_on_mono [OF that q(3)]] by simp
      moreover have "go_UpdateConfig p h = (Ok (Some q), h')" using given b q(1) by (simp add: go_UpdateConfig_def)
      ultimately show ?thesis using old q(2,4)
        by (intro exI [of _ "Some q"] exI [of _ h'])
          (auto simp: read_config_def UpdateConfig_def updateConfig_def given(4) Some vhost_of_def)
    qed
  qed
qed

section \<open>The lists of the API\<close>

text \<open>
  \<^verbatim>\<open>DeepCopyObject\<close> of a list of policies and of a list of configurations, with all that they
  reach (items, metadata, node selectors, bridges, vhost-user settings, labels, users): the
  copy always succeeds, has the value of the original down to which pointers and slices are
  nil, and shares no cell with it; a nil receiver gives a nil object. The copies of the library's types keep the same contract by
  hypothesis.
\<close>

theorem lists_detached:
  assumes lib: "api_library meta_copy meta_val meta_uses lmeta_copy lmeta_val lmeta_uses sel_copy sel_val sel_uses"
    and h: "heap_ok h"
    and policies: "policies_val meta_val lmeta_val sel_val h (Some a) \<noteq> None"
    and configs: "configs_val meta_val lmeta_val h (Some c) \<noteq> None"
  shows "(\<exists>b h'. OvsDpdkResourcePolicyList_DeepCopyObject meta_copy lmeta_copy sel_copy (Some a) h = (Some (PolicyListObject b), h') \<and>
            detached (policies_val meta_val lmeta_val sel_val) h a h' b) \<and>
         (\<exists>b h'. OvsDpdkConfigList_DeepCopyObject meta_copy lmeta_copy (Some c) h = (Some (ConfigListObject b), h') \<and>
            detached (configs_val meta_val lmeta_val) h c h' b) \<and>
         OvsDpdkResourcePolicyList_DeepCopyObject meta_copy lmeta_copy sel_copy None h = (None, h) \<and>
         OvsDpdkConfigList_DeepCopyObject meta_copy lmeta_copy None h = (None, h)"
  using api_library.policies_detached [OF lib h policies] api_library.configs_detached [OF lib h configs]
  by (simp add: OvsDpdkResourcePolicyList_DeepCopyObject_def OvsDpdkResourcePolicyList_DeepCopy_def
      OvsDpdkConfigList_DeepCopyObject_def OvsDpdkConfigList_DeepCopy_def as_object_def copy_ptr_def copy_ref_def)

section \<open>A concrete heap\<close>

text \<open>The library's metadata as plain names, its node selectors as pointers to an expression.\<close>

type_synonym sample_heap = "(string, string, addr option, string) api_heap"

definition selector_copy :: "(addr option, sample_heap) copier" where
  "selector_copy = copy_ptr LibraryCell (cell_content is_LibraryCell un_Library) plain_copy"

definition selector_val :: "sample_heap \<Rightarrow> addr option \<Rightarrow> string option option" where
  "selector_val = val_ptr (cell_content is_LibraryCell un_Library) plain_val"

definition selector_uses :: "sample_heap \<Rightarrow> addr option \<Rightarrow> addr set" where
  "selector_uses = uses_ptr (cell_content is_LibraryCell un_Library) plain_uses"

interpretation selector: deep_copy selector_copy selector_val selector_uses
  unfolding selector_copy_def selector_val_def selector_uses_def by (rule deep_copy_ptr [OF plain.deep_copy_axioms]) simp

interpretation sample_api: api_library plain_copy plain_val plain_uses plain_copy plain_val plain_uses
    selector_copy selector_val selector_uses
  by unfold_locales

definition object_heap :: sample_heap where
  "object_heap = \<lparr>cells =
     [0 \<mapsto> LibraryCell ''zone=a'', 1 \<mapsto> SelectorCell (Some 0),
      2 \<mapsto> BridgesCell [\<lparr>bs_Name = ''br0'', TopologyResource = ''topology-br0'', bs_Mtu = 1500\<rparr>],
      3 \<mapsto> PoliciesCell [\<lparr>ob_TypeMeta = \<lparr>tm_Kind = ''OvsDpdkResourcePolicy'', tm_APIVersion = OvsPortAPIVersion\<rparr>, ob_ObjectMeta = ''pol'',
             ob_Spec = \<lparr>ps_NodeSelector = Some 1, ps_Bridges = Some \<lparr>sl_array = 2, sl_off = 0, sl_len = 1\<rparr>\<rparr>\<rparr>],
      4 \<mapsto> PolicyListCell \<lparr>ls_TypeMeta = \<lparr>tm_Kind = [], tm_APIVersion = []\<rparr>, ls_ListMeta = ''17'',
             ls_Items = Some \<lparr>sl_array = 3, sl_off = 0, sl_len = 1\<rparr>\<rparr>,
      5 \<mapsto> StringCell ''u:r:t:s0'', 6 \<mapsto> StringsCell [''qemu'', ''ovs'', ''dpdk''],
      7 \<mapsto> VhostCell \<lparr>vs_ContainerRootPath = [], vs_User = NewUserGroupIDFromID 107, vs_Group = NewUserGroupIDFromName ''qemu'',
             vs_SelinuxLabel = Some 5, vs_ACLUsers = Some \<lparr>sl_array = 6, sl_off = 1, sl_len = 2\<rparr>\<rparr>,
      8 \<mapsto> ConfigSpecCell \<lparr>cs_VhostUser = Some 7\<rparr>,
      9 \<mapsto> ConfigsCell [\<lparr>ob_TypeMeta = \<lparr>tm_Kind = ''OvsDpdkConfig'', tm_APIVersion = OvsPortAPIVersion\<rparr>, ob_ObjectMeta = ''default'',
             ob_Spec = \<lparr>cs_VhostUser = Some 7\<rparr>\<rparr>],
      10 \<mapsto> ConfigListCell \<lparr>ls_TypeMeta = \<lparr>tm_Kind = [], tm_APIVersion = []\<rparr>, ls_ListMeta = ''18'',
             ls_Items = Some \<lparr>sl_array = 9, sl_off = 0, sl_len = 1\<rparr>\<rparr>],
     next_addr = 11\<rparr>"

lemma object_heap_ok: "heap_ok object_heap"
  by (auto simp: heap_ok_def object_heap_def)

lemmas value_defs = object_heap_def val_ptr_def val_slice_def val_ref_def list_val_def object_val_def policy_val_def config_val_def
  vhost_val_def val_fields_def val_pair_def val_elems_def cell_content_def window_def plain_val_def selector_val_def

lemma object_heap_values:
  "policies_val plain_val plain_val selector_val object_heap (Some 4) \<noteq> None"
  "configs_val plain_val plain_val object_heap (Some 10) \<noteq> None"
  by (simp_all add: value_defs)

theorem lists_detached_witness:
  "(\<exists>b h'. OvsDpdkResourcePolicyList_DeepCopyObject plain_copy plain_copy selector_copy (Some 4) object_heap = (Some (PolicyListObject b), h') \<and>
      detached (policies_val plain_val plain_val selector_val) object_heap 4 h' b) \<and>
   (\<exists>b h'. OvsDpdkConfigList_DeepCopyObject plain_copy plain_copy (Some 10) object_heap = (Some (ConfigListObject b), h') \<and>
      detached (configs_val plain_val plain_val) object_heap 10 h' b)"
  using lists_detached [OF sample_api.api_library_axioms object_heap_ok object_heap_values] by blast

definition sample_vhost :: VhostUserSpec where
  "sample_vhost = \<lparr>ContainerRootPath = [], vu_User = NewUserGroupIDFromID 107, vu_Group = NewUserGroupIDFromName ''qemu'',
     SelinuxLabel = Some ''u:r:t:s0'', ACLUsers = [''ovs'', ''dpdk'']\<rparr>"

lemma object_heap_spec: "read_spec object_heap (Some 8) = Some (Some \<lparr>VhostUser = Some sample_vhost\<rparr>)"
  by (simp add: read_spec_def vhost_of_def sample_vhost_def value_defs)

theorem UpdateConfig_detached_witness:
  "\<exists>q h'. go_UpdateConfig (Some 8) object_heap = (Ok q, h') \<and> grows object_heap h' \<and>
     read_config h' q = Some (Some (sample_vhost\<lparr>ContainerRootPath := DefaultContainerRootPath\<rparr>))"
  using UpdateConfig_detached [OF object_heap_ok object_heap_spec, of DeviceState_New]
  by (auto simp: UpdateConfig_def updateConfig_def sample_vhost_def)

end
