(* ===== verification/Spec2Isabelle.thy ===== *)
theory Spec2Isabelle
  imports Lifetime Restart Shutdown KubeletWatch DeepCopy
begin

text \<open>
  \<^bold>\<open>Verification of the OVS-DPDK DRA driver\<close>

  \<^bold>\<open>The program.\<close> The driver runs on every node of a Kubernetes cluster and gives pods vhost-user
  ports of an Open vSwitch with DPDK. The cluster's administrator lists bridges in
  \<^verbatim>\<open>OvsDpdkResourcePolicy\<close> objects and the attributes of the socket directories in one
  \<^verbatim>\<open>OvsDpdkConfig\<close> object. Two controllers (\<^verbatim>\<open>pkg/controllers\<close>) bring these into the device state
  (\<^verbatim>\<open>pkg/devicestate\<close>), which the driver (\<^verbatim>\<open>pkg/driver\<close>) publishes to the scheduler. When a pod
  with a claim starts, the kubelet calls the driver: for each allocated device it makes a
  socket directory (\<^verbatim>\<open>pkg/socketfs\<close>) and an OVS port (\<^verbatim>\<open>pkg/ovs\<close>), writes a CDI spec file
  (\<^verbatim>\<open>pkg/cdi\<close>) and a checkpoint (\<^verbatim>\<open>pkg/claimstore\<close>), and reports the result in the claim's status.
  When the pod ends, all of it is removed. Beside that, the OVS client follows the DPDK
  interfaces in OVSDB, reads their NUMA nodes from sysfs (\<^verbatim>\<open>pkg/pci\<close>), and a manager of Device
  Plugins (\<^verbatim>\<open>pkg/deviceplugin\<close>) announces a topology resource for bridges on one NUMA node.

  \<^bold>\<open>The theories\<close>, each after the code it models:

  \<^item> \<open>Prelude\<close>: the result type \<open>res\<close> (a value, an error or a panic), collections of simplification
    rules and lemmas on lists and maps. \<open>GoLib\<close>: the parts of Go's standard library that the
    code uses (\<^verbatim>\<open>strings\<close>, \<^verbatim>\<open>strconv\<close>, \<^verbatim>\<open>path/filepath\<close>, \<^verbatim>\<open>errors\<close>, \<^verbatim>\<open>fmt\<close>). \<open>Json\<close>: JSON values and their
    decoding into numbers and strings. \<open>Host\<close>: a host's files with owners, modes, labels and
    ACLs, and system calls that may fail at any moment.
  \<^item> \<open>ApiTypes\<close>: \<^verbatim>\<open>pkg/api\<close>, \<^verbatim>\<open>pkg/types\<close>, \<^verbatim>\<open>pkg/consts\<close>. \<open>Pci\<close>: \<^verbatim>\<open>pkg/pci\<close>. \<open>SocketFS\<close>: \<^verbatim>\<open>pkg/socketfs\<close>.
    \<open>Cdi\<close>: \<^verbatim>\<open>pkg/cdi\<close>. \<open>ClaimStore\<close>: \<^verbatim>\<open>pkg/claimstore\<close>.
  \<^item> \<open>Ovs\<close>: \<^verbatim>\<open>pkg/ovs\<close>, with the client as a record of the NUMA map, the event channel and the
    notifiers. \<open>Ovsdb\<close>: the rules of an OVSDB server (locale \<open>ovsdb_server\<close>, interpreted on a
    reference server \<open>ref_lib\<close>) and the effect of the port operations under them.
  \<^item> \<open>ClaimConfig\<close>: \<^verbatim>\<open>devicestate/config.go\<close> and \<^verbatim>\<open>claimstatus.go\<close>. \<open>DeviceState\<close>: \<^verbatim>\<open>devicestate.go\<close>.
    \<open>Prepare\<close>: preparing and unpreparing over any backend with the contract \<open>prepare_backend\<close>.
    \<open>Node\<close>: the packages put together on one node, and the contract interpreted on them.
  \<^item> \<open>Driver\<close>: \<^verbatim>\<open>pkg/driver\<close>, and the handlers over any store and device state with the contract
    \<open>driver_laws\<close>. \<open>DriverNode\<close>: the driver on the node. \<open>Isolation\<close>: calls for several claims, one
    after the other. \<open>Restart\<close>: what a new process finds. \<open>Shutdown\<close>: \<^verbatim>\<open>Stop\<close> against running handlers.
  \<^item> \<open>DevicePlugin\<close>: the server and the manager of \<^verbatim>\<open>pkg/deviceplugin\<close>. \<open>PluginManager\<close>: what the
    manager guarantees. \<open>KubeletWatch\<close>: the goroutine that watches for restarts of the kubelet.
    \<open>NumaSystem\<close>: the OVS client and the manager as one system.
  \<^item> \<open>Controllers\<close>: \<^verbatim>\<open>pkg/controllers\<close>, over the interface \<open>resource_updater\<close> that the manager
    implements. \<open>Startup\<close>: the constructors that wait or clean up, and \<^verbatim>\<open>run\<close> of
    \<^verbatim>\<open>cmd/dra-driver-ovsdpdk/main.go\<close>. \<open>App\<close>: \<^verbatim>\<open>pkg/flags\<close>, \<^verbatim>\<open>newApp\<close> and \<^verbatim>\<open>main\<close>.
  \<^item> \<open>Program\<close>: the packages as \<^verbatim>\<open>run\<close> wires them, as one state machine that projects to those of
    the packages (locale \<open>program_platform\<close>). \<open>Lifetime\<close>: \<^verbatim>\<open>run\<close> on this state, from the first
    call to the last deferred one (locales \<open>main_stages\<close> and \<open>program_process\<close>), and processes
    that follow each other on a node.
  \<^item> \<open>DeepCopy\<close>: \<^verbatim>\<open>zz_generated.deepcopy.go\<close> over a heap of cells with pointers and slices, with the
    contract \<open>deep_copy\<close> that pointers, slices and structs inherit from their parts, and
    \<^verbatim>\<open>UpdateConfig\<close> on this heap as a refinement of the one of \<open>DeviceState\<close>.

  \<^bold>\<open>How the code is modelled.\<close> A struct is a record, an operation a function from its state and
  arguments to its results and the new state. Operations that touch the outside carry a
  world as a last argument and result. Errors are values of the type \<open>error\<close>, with the
  wrapping of \<^verbatim>\<open>fmt.Errorf\<close> and \<^verbatim>\<open>errors.Is\<close>; a panic is a third kind of result. Numbers of type
  \<^verbatim>\<open>int32\<close> are 32-bit words, Go's \<^verbatim>\<open>int\<close> is an integer. A range over a Go map takes the order of the
  keys as an argument, and theorems hold for every order. State that goroutines share is
  modelled by step relations that allow every interleaving of the operations, each of
  which holds its lock: \<open>ds_step\<close> for the device state, \<open>ovs_step\<close> for the client, \<open>dp_step\<close> for
  the manager, \<open>ns_step\<close> for both together, \<open>trig_step\<close> for the triggers of a reconcile,
  \<open>claim_step\<close> for the calls of the kubelet, \<open>sd_step\<close> for the end of the driver, and
  \<open>program_step\<close> for all packages together. A
  preparation reads the device state several times without a lock in between: it takes a
  sequence of states (\<open>obs\<close>), one for each read. The loop that waits for OVSDB is a partial
  function, whose value says whether it returns; all other functions are total.

  \<^bold>\<open>Hypotheses on code outside the repository\<close> are the assumptions of the locales
  \<open>ovsdb_server\<close> (transactions are atomic and follow the OVSDB rules, or are lost with an
  error), \<open>cdi_files\<close>, \<open>bolt_store\<close> (a transaction is committed or rolled back), \<open>backoff_law\<close>
  (at most the configured number of rounds), \<open>plugin_node\<close> and \<open>api_library\<close> (the copies of the
  library's metadata and selectors share nothing). \<open>program_platform\<close> collects them for the whole
  program, with the claims independent of each other and the orders of ranges those of the
  ranged maps, and \<open>program_process\<close> adds that connecting to OVSDB and starting the kubelet
  plugin change neither the tables nor the stored checkpoints, that OVSDB answers or the
  wait for it ends, and that what happens while the process serves are steps of the
  program. Each is interpreted on a reference implementation, on which the witnesses run
  the model. What the flag and command line
  libraries document are the predicates \<open>flag_set_ok\<close> and \<open>cli_runs\<close> of \<open>App\<close>.

  \<^bold>\<open>What is shown.\<close> Claims: a successful preparation has made exactly what the container needs
  and every announced CDI device resolves; a failed one leaves nothing behind; unpreparing
  undoes preparing; the checkpoints are those of the prepared claims, calls are
  idempotent, and the whole life of a claim leaves the node as it was (\<open>claim_lifecycle\<close>);
  whatever happens to other claims, a checkpointed claim keeps what was made for it, and a
  restart answers it from the store, while a claim that was cut off before its checkpoint
  cannot be prepared again as long as its port is there.
  All this holds while the other goroutines of the program run (\<open>program_invariant\<close>) and from
  process to process, whichever constructor fails (\<open>claims_survive_processes\<close>).
  The status update never touches another claim or another driver's entries. Policies:
  the advertised devices are valid in every reachable state, a reconcile advertises and
  publishes exactly the devices of the policies (\<open>reconcile_publishes\<close>), it converges, and
  no bridge event is lost; called within the whole program, it leaves the published pool, the
  devices and the plugins' topology in agreement (\<open>Reconcile_in_program\<close>). Topology: whatever the interleaving, an announced resource has
  a server and a served socket, and a registration unless the kubelet has restarted and the
  watcher has not renewed it, and its NUMA node is that of all DPDK interfaces
  of its bridges unless a notification is on its way; after a restart of the kubelet every
  server is registered again, on a socket that no longer exists. Program: from the
  command line to the exit code, what was started is stopped in reverse order; the
  store is not closed under a handler that has entered; the constructor of the client
  returns as soon as it can; flags and variables are unambiguous, and one flag has no
  effect (\<open>registrar_path_ignored\<close>). Copies of API objects
  have the value of the original and share no cell with it, so that neither the informer's
  objects nor a published configuration change under a reader. Besides, the parsers,
  encoders, names and paths are characterised, with their limits.

  \<^bold>\<open>Not modelled\<close>: logging, contexts and timeouts (except where they end a loop or stop the
  plugin servers before \<^verbatim>\<open>StopAll\<close> does), the gRPC
  servers and the kubelet's side of them, the work queue of the controller library beyond
  what it is asked to watch, the delays of the retries, and the generated mocks. The manager
  reads the NUMA nodes of a call's bridges as one snapshot. In \<open>Lifetime\<close> the goroutines that
  the constructors start are taken to act from the start of the controllers to their end,
  and the end of the handlers before the store is closed is the matter of \<open>Shutdown\<close>.
\<close>

section \<open>The life of a claim\<close>

text \<open>
  C4. The whole life of a claim, through the handlers that the kubelet calls: a claim that the store
  does not know is prepared and later unprepared without an error. Then the node is as it
  was: the same ports, none of the claim's socket directories, every unrelated directory
  and all other claims' CDI specs and checkpoints unchanged, and no checkpoint of the claim.
\<close>

theorem claim_lifecycle:
  fixes w :: "('db, 'c, 's, 'k) node"
  assumes "driver_node lib calls tables cdi cspecs" and "driver_stack db codec content backoff"
    and "wf_tables (tables (nd_db w))" and "stored_claims codec content (nd_store w) (rc_UID claim) = None"
    and "PrepareResourceClaims (node_driver (node_backend env lib cdi) db codec client backoff obs) [claim] w = (Ok (res, None), w1)"
    and "UnprepareResourceClaims (node_driver (node_backend env lib cdi) db codec client backoff obs) [obj] w1 = (Ok (res', None), w2)"
    and "no_UID obj = rc_UID claim" and "res' (rc_UID claim) = Some None"
    and "rc_Allocation claim = Some al"
    and "fresh_claim (\<lambda>w. attached_ports (tables (nd_db w))) node_dir claim (own_results (al_Results al)) w"
  shows "attached_ports (tables (nd_db w2)) = attached_ports (tables (nd_db w))
    \<and> (\<forall>r \<in> set (own_results (al_Results al)). \<not> node_dir w2 (claim_dir claim r))
    \<and> (\<forall>q. (\<forall>r \<in> set (own_results (al_Results al)). unrelated (claim_dir claim r) q) \<longrightarrow> node_dir w2 q = node_dir w q)
    \<and> (\<forall>n. n \<noteq> claim_spec_name cdi (rc_UID claim) \<longrightarrow> cspecs (nd_cdi w2) n = cspecs (nd_cdi w) n)
    \<and> (\<forall>pds. \<not> has_checkpoint codec content w2 (rc_UID claim) pds)
    \<and> (\<forall>u. u \<noteq> rc_UID claim \<longrightarrow> stored_claims codec content (nd_store w2) u = stored_claims codec content (nd_store w) u)"
proof -
  let ?d = "node_driver (node_backend env lib cdi) db codec client backoff obs"
  obtain pds claim' v s where p: "PrepareResourceClaim (node_backend env lib cdi) (obs claim) claim w = (Ok pds, claim', v)"
    and s: "preparedClaimStore_Set db codec (rc_UID claim) pds (nd_store v) = (Ok (), s)"
    and w1: "w1 = driver_updateClaimStatus ?d claim' (v\<lparr>nd_store := s\<rparr>)"
    by (rule driver_stack.prepare_single [OF assms(2,5,4)])
  have same: "nd_db w1 = nd_db v" "nd_fs w1 = nd_fs v" "nd_cdi w1 = nd_cdi v" "nd_store w1 = s"
    unfolding w1 by (subst driver_stack.status_update_view [OF assms(2)]; simp)+
  have "bolt_store db codec content" using assms(2) by (simp add: driver_stack_def)
  from bolt_store.Set_ok [OF this s] PrepareResourceClaim_nonempty [OF p]
  have "has_checkpoint codec content w1 (no_UID obj) pds" by (simp add: has_checkpoint_def same assms(7))
  then obtain v2 s2 where u: "UnprepareResourceClaim (node_backend env lib cdi) pds w1 = (Ok (), v2)" and w2: "w2 = v2\<lparr>nd_store := s2\<rparr>"
    using driver_stack.unprepare_single [OF assms(2,6)] assms(7,8) by metis
  obtain cfgs where "parseClaimConfigs (al_Config al) = Inr cfgs" by (rule PrepareResourceClaim_parsed [OF p assms(9)])
  note wf = driver_node.prepared_wf_law [OF assms(1,3) p assms(9) this]
  note restored = driver_node.prepare_unprepare_law [OF assms(1,3) p _ _ _ _ u assms(9,10)]
  have "attached_ports (tables (nd_db w2)) = attached_ports (tables (nd_db w))
    \<and> (\<forall>r \<in> set (own_results (al_Results al)). \<not> node_dir w2 (claim_dir claim r))
    \<and> (\<forall>q. (\<forall>r \<in> set (own_results (al_Results al)). unrelated (claim_dir claim r) q) \<longrightarrow> node_dir w2 q = node_dir w q)
    \<and> (\<forall>n. n \<noteq> claim_spec_name cdi (rc_UID claim) \<longrightarrow> cspecs (nd_cdi w2) n = cspecs (nd_cdi w) n)"
    using restored wf by (simp add: same w2)
  moreover have "(\<forall>pds. \<not> has_checkpoint codec content w2 (rc_UID claim) pds)
    \<and> (\<forall>u. u \<noteq> rc_UID claim \<longrightarrow> stored_claims codec content (nd_store w2) u = stored_claims codec content (nd_store w) u)"
    using driver_stack.unprepare_checkpoints_law [OF assms(2) assms(6) [unfolded UnprepareResourceClaims_def]]
      driver_stack.prepare_checkpoints_law [OF assms(2) assms(5) [unfolded PrepareResourceClaims_def]] assms(7,8) by simp
  ultimately show ?thesis by blast
qed

theorem claim_lifecycle_witness:
  "\<exists>res w1 res' w2. PrepareResourceClaims sample_driver sample_claims stack_node = (Ok (res, None), w1)
     \<and> UnprepareResourceClaims sample_driver [sample_object] w1 = (Ok (res', None), w2)
     \<and> attached_ports (nd_db w2) = attached_ports sample_tables"
proof -
  let ?claim = "sample_claim [sample_result ''br0'' ''net'']"
  let ?al = "\<lparr>al_Config = [sample_config [] ''7''], al_Results = [sample_result ''br0'' ''net'']\<rparr>"
  obtain res w1 res' w2 where r: "PrepareResourceClaims sample_driver [?claim] stack_node = (Ok (res, None), w1)"
    and u: "UnprepareResourceClaims sample_driver [sample_object] w1 = (Ok (res', None), w2)" and n: "res' ''0123-4567-89ab'' = Some None"
    unfolding sample_claims_def [symmetric] by (rule sample_run_ok)
  have db: "nd_db stack_node = sample_tables" by (simp add: stack_node_def)
  have wf: "wf_tables (nd_db stack_node)" using sample_wf by (simp add: db sample_db)
  have uid: "rc_UID ?claim = ''0123-4567-89ab''" "no_UID sample_object = ''0123-4567-89ab''" by (simp_all add: sample_claim_def sample_object_def)
  have st: "stored_claims mem_codec mem_content (nd_store stack_node) (rc_UID ?claim) = None"
    by (simp add: stack_node_def stored_claims_def empty_bolt_def mem_content_def)
  have fr: "fresh_claim (\<lambda>w. attached_ports (nd_db w)) node_dir ?claim (own_results (al_Results ?al)) stack_node"
    by (simp add: stack_fresh)
  have n': "res' (rc_UID ?claim) = Some None" "no_UID sample_object = rc_UID ?claim" using n uid by simp_all
  from claim_lifecycle [OF ref_node.driver_node_axioms sample_stack.driver_stack_axioms wf st r [unfolded sample_driver_def]
      u [unfolded sample_driver_def] n'(2,1) sample_allocation fr] r u
  show ?thesis unfolding sample_claims_def db by blast
qed

section \<open>From the policies to the scheduler\<close>

text \<open>
  C20. What the scheduler is told is what the node can prepare: when a policy reconcile of a
  running driver succeeds, the last thing it published is one pool, named after the node, whose
  devices are exactly those of the bridges that it read, each of them known to the device
  state under its name, before the topology Device Plugins were updated with the same bridges.
\<close>

theorem reconcile_publishes:
  assumes "policy_Reconcile E nodeName namespace d w = (Ok \<lparr>RequeueAfter = 0\<rparr>, d', w')"
    and "ce_republish E = Driver_PublishResources publish order nodeName" and "republishCallback d"
    and "range_order (allocatable d') (order (allocatable d'))"
  shows "\<exists>bs devices w1. policy_view E nodeName namespace w = Some bs
    \<and> publish [nodeName \<mapsto> devices] w = (None, w1) \<and> ce_UpdateResources E bs w1 = (None, w')
    \<and> mset devices = image_mset (ad_Device \<circ> bridgeToDevice) (mset bs)
    \<and> list_all (\<lambda>b. allocatable d' (bs_Name b) = Some (bridgeToDevice b)) bs"
proof -
  obtain bs w1 where v: "policy_view E nodeName namespace w = Some bs" and valid: "valid_bridges bs"
    and u: "UpdatePolicyDevices (ce_republish E) bs d w = (Ok (), d', w1)" and d': "d' = updateBridges bs d"
    and r: "ce_UpdateResources E bs w1 = (None, w')" by (rule policy_Reconcile_ok [OF assms(1)])
  let ?a = "allocatable d'" and ?ks = "order (allocatable d')"
  let ?devices = "map (\<lambda>k. ad_Device (the (?a k))) ?ks"
  have dist: "distinct (map bs_Name bs)" using valid by (simp add: valid_bridges_def)
  have iff: "?a n = Some ad \<longleftrightarrow> (\<exists>b \<in> set bs. bs_Name b = n \<and> ad = bridgeToDevice b)" for n ad
    unfolding d' updateBridges_def by (simp add: computeAllocatableDevices_iff [OF dist])
  then have known: "?a (bs_Name b) = Some (bridgeToDevice b)" if "b \<in> set bs" for b using that by blast
  have "validate_bridges [] bs = None" using valid validate_bridges_iff [of "[]" bs] by simp
  moreover have "republishCallback (updateBridges bs d)" using assms(3) by (simp add: updateBridges_def)
  ultimately have "ce_republish E d' w = (None, w1)"
    using u d' by (auto simp: UpdatePolicyDevices_def Let_def split: prod.splits option.splits)
  then have pub: "publish [nodeName \<mapsto> ?devices] w = (None, w1)"
    by (simp add: assms(2) Driver_PublishResources_def GetAllocatableDevices_def Let_def)
  have ks: "mset ?ks = mset (map bs_Name bs)"
  proof (rule set_eq_iff_mset_eq_distinct [THEN iffD1, OF _ dist])
    show "distinct ?ks" using assms(4) by (simp add: range_order_def)
    have "set ?ks = dom ?a" using assms(4) by (simp add: range_order_def)
    then show "set ?ks = set (map bs_Name bs)" using iff by (auto simp: dom_def)
  qed
  have "mset ?devices = image_mset (\<lambda>k. ad_Device (the (?a k))) (mset ?ks)" by simp
  also have "\<dots> = image_mset (ad_Device \<circ> bridgeToDevice) (mset bs)"
    unfolding ks mset_map by (simp add: multiset.map_comp comp_def) (rule image_mset_cong, simp add: known)
  finally show ?thesis using v pub r known by (intro exI [of _ bs] exI [of _ ?devices] exI [of _ w1]) (simp add: list_all_iff)
qed

definition published_env :: "(string, (string \<rightharpoonup> Device list) list) controller_env" where
  "published_env =
     \<lparr>k8s_GetNode = (\<lambda>n w. Inr \<lparr>nm_Name = n, nm_Labels = Map.empty\<rparr>),
      k8s_ListPolicies = (\<lambda>ns w. Inr [\<lparr>pol_Name = ''p'', pol_NodeSelector = None,
        pol_Bridges = [sample_bridge, sample_bridge\<lparr>bs_Name := ''br9''\<rparr>]\<rparr>]),
      k8s_GetConfig = (\<lambda>n w. Inl (ApiStatus NotFound)),
      nodeaffinity_NewNodeSelector = (\<lambda>terms. Inl (External ''invalid'')),
      ce_BridgeExists = (\<lambda>n w. Inr (n = ''br0'')),
      ce_republish = Driver_PublishResources (\<lambda>pools w. (None, w @ [pools])) (\<lambda>a. if a ''br0'' = None then [] else [''br0'']) ''node1'',
      ce_UpdateResources = (\<lambda>bs w. (None, w))\<rparr>"

lemma published_reconcile:
  "\<exists>w. policy_Reconcile published_env ''node1'' ''ns'' (SetRepublishCallback True DeviceState_New) []
     = (Ok \<lparr>RequeueAfter = 0\<rparr>, updateBridges [sample_bridge] (SetRepublishCallback True DeviceState_New), w)"
  by (simp add: policy_Reconcile_def published_env_def matchesNodeSelector_def sample_bridge_def UpdatePolicyDevices_def
      DeviceState_New_def updateBridges_def SetRepublishCallback_def Driver_PublishResources_def Let_def)

theorem reconcile_publishes_witness:
  "\<exists>d w. policy_Reconcile published_env ''node1'' ''ns'' (SetRepublishCallback True DeviceState_New) []
       = (Ok \<lparr>RequeueAfter = 0\<rparr>, d, w)
     \<and> w = [[''node1'' \<mapsto> [ad_Device (bridgeToDevice sample_bridge)]]]"
proof -
  let ?d = "updateBridges [sample_bridge] (SetRepublishCallback True DeviceState_New)"
  obtain w where w: "policy_Reconcile published_env ''node1'' ''ns'' (SetRepublishCallback True DeviceState_New) []
     = (Ok \<lparr>RequeueAfter = 0\<rparr>, ?d, w)" using published_reconcile by blast
  have e: "ce_republish published_env
    = Driver_PublishResources (\<lambda>pools w. (None, w @ [pools])) (\<lambda>a. if a ''br0'' = None then [] else [''br0'']) ''node1''"
    by (simp add: published_env_def)
  have c: "republishCallback (SetRepublishCallback True DeviceState_New)" by (simp add: SetRepublishCallback_def)
  have o: "range_order (allocatable ?d) ((\<lambda>a. if a ''br0'' = None then [] else [''br0'']) (allocatable ?d))"
    by (simp add: range_order_def updateBridges_def sample_bridge_def computeAllocatableDevices_def)
  have v: "policy_view published_env ''node1'' ''ns'' [] = Some [sample_bridge]"
    by (simp add: policy_view_def published_env_def matchesNodeSelector_def sample_bridge_def)
  from reconcile_publishes [OF w e c o] v obtain devices where
    "w = [[''node1'' \<mapsto> devices]]" "mset devices = {#ad_Device (bridgeToDevice sample_bridge)#}"
    by (auto simp: published_env_def)
  with w show ?thesis by (metis mset_single_iff)
qed

end
